(* ===== verification/Prelude.thy ===== *)
theory Prelude
  imports Main "HOL-Library.Word"
begin

text \<open>
  Shared vocabulary of the development: machine integers, bytes and the few functions of the
  C library the compiler relies on (\<open>ctype.h\<close> in the C locale, \<open>strtoull\<close>, the integer
  conversions of \<open>printf\<close>), byte slices of a source buffer, the bounded scanning loop
  \<open>while (pos < end && P(*pos)) pos++\<close>, and the fact collections the component theories
  add to.  A byte is a \<open>char\<close>, a byte sequence a \<open>string\<close>; a C string is its bytes without
  the terminating NUL.  Undefined behaviour (an out-of-bounds read, a NULL dereference) is the
  value \<open>None\<close> of an option wherever the code can run into it.
\<close>

named_theorems frame_simps \<open>what an operation leaves unchanged\<close>
named_theorems progress_intros \<open>scanning operations never move backwards\<close>
named_theorems len_simps \<open>lengths of encoded byte sequences\<close>

type_synonym u8 = "8 word"
type_synonym u16 = "16 word"
type_synonym u32 = "32 word"
type_synonym u64 = "64 word"

abbreviation NUL :: char where "NUL \<equiv> CHR 0x00"
abbreviation TAB :: char where "TAB \<equiv> CHR 0x09"
abbreviation NL :: char where "NL \<equiv> CHR 0x0A"
abbreviation CR :: char where "CR \<equiv> CHR 0x0D"
abbreviation SPACE :: char where "SPACE \<equiv> CHR 0x20"
abbreviation DQUOTE :: char where "DQUOTE \<equiv> CHR 0x22"
abbreviation SQUOTE :: char where "SQUOTE \<equiv> CHR 0x27"
abbreviation BSLASH :: char where "BSLASH \<equiv> CHR 0x5C"

section \<open>Bytes and \<open>ctype.h\<close>\<close>

definition byte :: "char \<Rightarrow> nat" where
  "byte c = of_char c"

lemma byte_less [simp]: "byte c < 256"
  by (simp add: byte_def)

lemma byte_Char [simp]:
  "byte (Char b0 b1 b2 b3 b4 b5 b6 b7) = foldr (\<lambda>b k. of_bool b + k * 2) [b0, b1, b2, b3, b4, b5, b6, b7] 0"
  by (simp add: byte_def of_char_def horner_sum_foldr)

lemma byte_char_of [simp]: "n < 256 \<Longrightarrow> byte (char_of n) = n"
  by (simp add: byte_def)

lemma byte_inject [simp]: "byte c = byte d \<longleftrightarrow> c = d"
  by (simp add: byte_def)

definition c_isdigit :: "char \<Rightarrow> bool" where
  "c_isdigit c \<longleftrightarrow> 48 \<le> byte c \<and> byte c \<le> 57"

definition c_isalpha :: "char \<Rightarrow> bool" where
  "c_isalpha c \<longleftrightarrow> (65 \<le> byte c \<and> byte c \<le> 90) \<or> (97 \<le> byte c \<and> byte c \<le> 122)"

definition c_isalnum :: "char \<Rightarrow> bool" where
  "c_isalnum c \<longleftrightarrow> c_isalpha c \<or> c_isdigit c"

definition c_isxdigit :: "char \<Rightarrow> bool" where
  "c_isxdigit c \<longleftrightarrow> c_isdigit c \<or> (97 \<le> byte c \<and> byte c \<le> 102) \<or> (65 \<le> byte c \<and> byte c \<le> 70)"

lemmas ctype_defs = c_isdigit_def c_isalpha_def c_isalnum_def c_isxdigit_def

section \<open>Digits, \<open>strtoull\<close> and \<open>printf\<close> conversions\<close>

text \<open>The value of a digit character, whatever the base.\<close>

definition digit_val :: "char \<Rightarrow> nat" where
  "digit_val c =
     (if c_isdigit c then byte c - 48
      else if 97 \<le> byte c \<and> byte c \<le> 122 then byte c - 87
      else if 65 \<le> byte c \<and> byte c \<le> 90 then byte c - 55
      else 255)"

definition is_digit_in :: "nat \<Rightarrow> char \<Rightarrow> bool" where
  "is_digit_in b c \<longleftrightarrow> digit_val c < b"

definition digits_value :: "nat \<Rightarrow> string \<Rightarrow> nat" where
  "digits_value b s = foldl (\<lambda>a c. a * b + digit_val c) 0 s"

text \<open>
  \<open>strtoull(s, NULL, b)\<close> on a string of digits: the longest prefix of digits of the base, and
  \<open>ULLONG_MAX\<close> when the value does not fit (C17 7.22.1.4).  The callers pass digit strings only,
  so the optional blanks, sign and base prefix of the general function never occur.
\<close>

definition strtoull :: "nat \<Rightarrow> string \<Rightarrow> u64" where
  "strtoull b s = (let n = digits_value b (takeWhile (is_digit_in b) s)
                   in if n < 2 ^ 64 then of_nat n else of_nat (2 ^ 64 - 1))"

definition digit_char :: "nat \<Rightarrow> char" where
  "digit_char d = (if d < 10 then char_of (48 + d) else char_of (87 + d))"

function fmt_nat :: "nat \<Rightarrow> nat \<Rightarrow> string" where
  "fmt_nat b n = (if n < b \<or> b < 2 then [digit_char (n mod b)]
                  else fmt_nat b (n div b) @ [digit_char (n mod b)])"
  by pat_completeness auto
termination
  by (relation "measure snd") auto

declare fmt_nat.simps [simp del]

text \<open>\<open>%ld\<close>, \<open>%+ld\<close>, \<open>%d\<close> of an integer and \<open>%lx\<close> of an unsigned long.\<close>

definition fmt_ld :: "int \<Rightarrow> string" where
  "fmt_ld i = (if i < 0 then CHR ''-'' # fmt_nat 10 (nat (- i)) else fmt_nat 10 (nat i))"

definition fmt_plus_ld :: "int \<Rightarrow> string" where
  "fmt_plus_ld i = (if i < 0 then fmt_ld i else CHR ''+'' # fmt_ld i)"

definition fmt_lx :: "u64 \<Rightarrow> string" where
  "fmt_lx w = fmt_nat 16 (unat w)"

lemma digit_val_digit_char [simp]: "d < 16 \<Longrightarrow> digit_val (digit_char d) = d"
  by (auto simp: digit_val_def digit_char_def c_isdigit_def)

lemma is_digit_in_digit_char [simp]: "d < 16 \<Longrightarrow> is_digit_in b (digit_char d) \<longleftrightarrow> d < b"
  by (simp add: is_digit_in_def)

lemma c_isdigit_digit_char [simp]: "d < 10 \<Longrightarrow> c_isdigit (digit_char d)"
  by (simp add: digit_char_def c_isdigit_def)

lemma c_isxdigit_digit_char [simp]: "d < 16 \<Longrightarrow> c_isxdigit (digit_char d)"
  by (auto simp: digit_char_def ctype_defs)

lemma digits_value_Nil [simp]: "digits_value b [] = 0"
  by (simp add: digits_value_def)

lemma digits_value_snoc [simp]: "digits_value b (s @ [c]) = digits_value b s * b + digit_val c"
  by (simp add: digits_value_def)

lemma fmt_nat_nonempty [simp]: "fmt_nat b n \<noteq> []"
  by (subst fmt_nat.simps) simp

lemma fmt_nat_digits:
  assumes "2 \<le> b" "b \<le> 16" "c \<in> set (fmt_nat b n)"
  shows "\<exists>d < b. c = digit_char d"
  using assms
proof (induction b n rule: fmt_nat.induct)
  case (1 b n)
  show ?case
  proof (cases "n < b")
    case True
    with "1.prems" show ?thesis by (auto simp: fmt_nat.simps [of b n])
  next
    case False
    with "1.prems" have "c \<in> set (fmt_nat b (n div b)) \<or> c = digit_char (n mod b)"
      by (auto simp: fmt_nat.simps [of b n])
    then show ?thesis
    proof
      assume "c \<in> set (fmt_nat b (n div b))"
      with False "1.prems"(1,2) show ?thesis by (intro "1.IH") simp_all
    next
      assume "c = digit_char (n mod b)"
      moreover have "n mod b < b" using "1.prems"(1) by simp
      ultimately show ?thesis by blast
    qed
  qed
qed

lemma fmt_nat_is_digit_in: "2 \<le> b \<Longrightarrow> b \<le> 16 \<Longrightarrow> c \<in> set (fmt_nat b n) \<Longrightarrow> is_digit_in b c"
  using fmt_nat_digits by fastforce

lemma digits_value_fmt_nat [simp]: "2 \<le> b \<Longrightarrow> b \<le> 16 \<Longrightarrow> digits_value b (fmt_nat b n) = n"
proof (induction b n rule: fmt_nat.induct)
  case (1 b n)
  show ?case
  proof (cases "n < b")
    case True
    with "1.prems" show ?thesis
      by (simp add: fmt_nat.simps [of b n] digits_value_def)
  next
    case False
    have "n mod b < b" using "1.prems"(1) by simp
    then have "n mod b < 16" using "1.prems"(2) by linarith
    with "1.IH" "1.prems" False show ?thesis
      by (simp add: fmt_nat.simps [of b n])
  qed
qed

lemma fmt_nat_length:
  assumes "2 \<le> b" "n < b ^ k" "0 < k"
  shows "length (fmt_nat b n) \<le> k"
  using assms
proof (induction b n arbitrary: k rule: fmt_nat.induct)
  case (1 b n)
  show ?case
  proof (cases "n < b")
    case True
    with "1.prems" show ?thesis by (simp add: fmt_nat.simps [of b n])
  next
    case False
    with "1.prems"(2,3) obtain j where k: "k = Suc j" "0 < j"
      by (cases k; cases "k - 1") auto
    with "1.prems"(2) have "n div b < b ^ j"
      by (simp add: less_mult_imp_div_less mult.commute)
    with "1.IH" [of j] "1.prems"(1) False k have "length (fmt_nat b (n div b)) \<le> j" by simp
    with False "1.prems"(1) k show ?thesis by (simp add: fmt_nat.simps [of b n])
  qed
qed

lemma strtoull_fmt_nat:
  assumes "2 \<le> b" "b \<le> 16" "n < 2 ^ 64"
  shows "strtoull b (fmt_nat b n) = of_nat n"
proof -
  have *: "takeWhile (is_digit_in b) (fmt_nat b n) = fmt_nat b n"
    using assms by (simp only: takeWhile_eq_all_conv) (simp add: fmt_nat_is_digit_in)
  show ?thesis unfolding strtoull_def * Let_def using assms by simp
qed

section \<open>Slices of a buffer\<close>

definition subbytes :: "'a list \<Rightarrow> nat \<Rightarrow> nat \<Rightarrow> 'a list" where
  "subbytes xs i j = take (j - i) (drop i xs)"

lemma length_subbytes [simp]: "length (subbytes xs i j) = min (j - i) (length xs - i)"
  by (simp add: subbytes_def min.commute)

lemma subbytes_self [simp]: "subbytes xs i i = []"
  by (simp add: subbytes_def)

lemma subbytes_append:
  assumes "i \<le> j" "j \<le> k"
  shows "subbytes xs i j @ subbytes xs j k = subbytes xs i k"
proof -
  have "take (k - i) (drop i xs) = take ((j - i) + (k - j)) (drop i xs)"
    using assms by simp
  also have "\<dots> = take (j - i) (drop i xs) @ take (k - j) (drop (j - i) (drop i xs))"
    by (rule take_add)
  finally show ?thesis using assms by (simp add: subbytes_def)
qed

lemma nth_subbytes: "k < j - i \<Longrightarrow> i + k < length xs \<Longrightarrow> subbytes xs i j ! k = xs ! (i + k)"
  by (simp add: subbytes_def)

lemma subbytes_all [simp]: "subbytes xs 0 (length xs) = xs"
  by (simp add: subbytes_def)

section \<open>The bounded scanning loop\<close>

function advance_while :: "('a \<Rightarrow> bool) \<Rightarrow> 'a list \<Rightarrow> nat \<Rightarrow> nat \<Rightarrow> nat" where
  "advance_while P xs e i = (if i < e \<and> P (xs ! i) then advance_while P xs e (Suc i) else i)"
  by pat_completeness auto
termination
  by (relation "measure (\<lambda>(P, xs, e, i). e - i)") auto

declare advance_while.simps [simp del]

lemma advance_while_ge [simp]: "i \<le> advance_while P xs e i"
proof (induction P xs e i rule: advance_while.induct)
  case (1 P xs e i)
  then show ?case by (cases "i < e \<and> P (xs ! i)") (auto simp: advance_while.simps [of P xs e i])
qed

lemma advance_while_le: "advance_while P xs e i \<le> max i e"
proof (induction P xs e i rule: advance_while.induct)
  case (1 P xs e i)
  then show ?case by (cases "i < e \<and> P (xs ! i)") (auto simp: advance_while.simps [of P xs e i])
qed

lemma advance_while_all: "i \<le> k \<Longrightarrow> k < advance_while P xs e i \<Longrightarrow> P (xs ! k)"
proof (induction P xs e i rule: advance_while.induct)
  case (1 P xs e i)
  show ?case
  proof (cases "i < e \<and> P (xs ! i)")
    case True
    with 1 show ?thesis
      by (cases "k = i") (auto simp: advance_while.simps [of P xs e i])
  next
    case False
    with "1.prems" show ?thesis by (auto simp: advance_while.simps [of P xs e i])
  qed
qed

lemma advance_while_stop: "advance_while P xs e i < e \<Longrightarrow> \<not> P (xs ! advance_while P xs e i)"
proof (induction P xs e i rule: advance_while.induct)
  case (1 P xs e i)
  then show ?case by (cases "i < e \<and> P (xs ! i)") (auto simp: advance_while.simps [of P xs e i])
qed

text \<open>The loop computes the first index from \<open>i\<close> that is the end or fails the test.\<close>

lemma advance_while_eqI:
  assumes "i \<le> j" "j \<le> max i e" "\<And>k. i \<le> k \<Longrightarrow> k < j \<Longrightarrow> P (xs ! k)" "j < e \<Longrightarrow> \<not> P (xs ! j)"
  shows "advance_while P xs e i = j"
proof (rule ccontr)
  assume ne: "advance_while P xs e i \<noteq> j"
  show False
  proof (cases "advance_while P xs e i < j")
    case True
    then have "advance_while P xs e i < e" using assms(1,2) advance_while_ge [of i P xs e] by linarith
    with advance_while_stop assms(3) [of "advance_while P xs e i"] True show False by fastforce
  next
    case False
    with ne have lt: "j < advance_while P xs e i" by simp
    then have "j < e" using assms(1) advance_while_le [of P xs e i] by linarith
    with assms(4) advance_while_all [OF assms(1) lt] show False by simp
  qed
qed

section \<open>Loops over lists whose body may fail\<close>

fun map_opt :: "('a \<Rightarrow> 'b option) \<Rightarrow> 'a list \<Rightarrow> 'b list option" where
  "map_opt f [] = Some []"
| "map_opt f (x # xs) = (case f x of None \<Rightarrow> None
     | Some y \<Rightarrow> (case map_opt f xs of None \<Rightarrow> None | Some ys \<Rightarrow> Some (y # ys)))"

fun fold_opt :: "('a \<Rightarrow> 's \<Rightarrow> 's option) \<Rightarrow> 'a list \<Rightarrow> 's \<Rightarrow> 's option" where
  "fold_opt f [] s = Some s"
| "fold_opt f (x # xs) s = (case f x s of None \<Rightarrow> None | Some s' \<Rightarrow> fold_opt f xs s')"

lemma map_opt_cong [fundef_cong]:
  "xs = ys \<Longrightarrow> (\<And>x. x \<in> set ys \<Longrightarrow> f x = g x) \<Longrightarrow> map_opt f xs = map_opt g ys"
  by (induction ys arbitrary: xs) (auto split: option.splits)

lemma fold_opt_cong [fundef_cong]:
  "xs = ys \<Longrightarrow> s = t \<Longrightarrow> (\<And>x u. x \<in> set ys \<Longrightarrow> f x u = g x u) \<Longrightarrow> fold_opt f xs s = fold_opt g ys t"
  by (induction ys arbitrary: xs s t) (auto split: option.splits)

lemma map_opt_Some_iff:
  "map_opt f xs = Some ys \<longleftrightarrow> list_all2 (\<lambda>x y. f x = Some y) xs ys"
proof (induction xs arbitrary: ys)
  case (Cons x xs)
  then show ?case
    by (cases ys; cases "f x"; cases "map_opt f xs") (auto simp: list_all2_Cons1)
qed auto

lemma map_opt_append:
  "map_opt f (xs @ ys) = (case map_opt f xs of None \<Rightarrow> None
     | Some us \<Rightarrow> (case map_opt f ys of None \<Rightarrow> None | Some vs \<Rightarrow> Some (us @ vs)))"
  by (induction xs) (auto split: option.splits)

lemma fold_opt_append:
  "fold_opt f (xs @ ys) s = (case fold_opt f xs s of None \<Rightarrow> None | Some t \<Rightarrow> fold_opt f ys t)"
  by (induction xs arbitrary: s) (auto split: option.splits)

lemma fold_opt_invariant:
  assumes "fold_opt f xs s = Some t" "P s" "\<And>x u v. x \<in> set xs \<Longrightarrow> P u \<Longrightarrow> f x u = Some v \<Longrightarrow> P v"
  shows "P t"
  using assms
proof (induction xs arbitrary: s)
  case (Cons x xs)
  obtain u where u: "f x s = Some u" "fold_opt f xs u = Some t"
    using Cons.prems(1) by (auto split: option.splits)
  have "P u" by (rule Cons.prems(3) [OF _ Cons.prems(2) u(1)]) simp
  then show ?case
    by (rule Cons.IH [OF u(2)]) (rule Cons.prems(3), simp_all)
qed simp

end
