(* ===== verification/Str.thy ===== *)
theory Str
  imports Prelude
begin

text \<open>
  String views (\<open>include/aether/str.h\<close>, \<open>src/str.c\<close>).  A view is a pointer and a length; the
  pointer is modelled by the bytes of its buffer from the pointed-to byte on, so that a view
  longer than what is left of its buffer (an over-read in C) can be told from a good one.
\<close>

record StringView =
  sv_data :: string
  sv_len :: nat

definition sv_ok :: "StringView \<Rightarrow> bool" where
  "sv_ok v \<longleftrightarrow> sv_len v \<le> length (sv_data v)"

text \<open>The bytes a view denotes.\<close>

definition sv_bytes :: "StringView \<Rightarrow> string" where
  "sv_bytes v = take (sv_len v) (sv_data v)"

definition sv_from_parts :: "string \<Rightarrow> nat \<Rightarrow> StringView" where
  "sv_from_parts d n = \<lparr>sv_data = d, sv_len = n\<rparr>"

definition sv_from_cstr :: "string \<Rightarrow> StringView" where
  "sv_from_cstr s = \<lparr>sv_data = s, sv_len = length s\<rparr>"

definition sv_eq :: "StringView \<Rightarrow> StringView \<Rightarrow> bool" where
  "sv_eq a b = (if sv_len a \<noteq> sv_len b then False
                else take (sv_len a) (sv_data a) = take (sv_len a) (sv_data b))"

definition sv_eq_cstr :: "StringView \<Rightarrow> string \<Rightarrow> bool" where
  "sv_eq_cstr v s = (if sv_len v \<noteq> length s then False else take (sv_len v) (sv_data v) = s)"

text \<open>djb2: \<open>hash = ((hash << 5) + hash) + byte\<close> on 64 bits.\<close>

definition sv_hash :: "StringView \<Rightarrow> u64" where
  "sv_hash v = foldl (\<lambda>h c. (push_bit 5 h + h) + of_nat (byte c)) 5381 (sv_bytes v)"

lemma sv_bytes_from_parts [simp]: "sv_bytes (sv_from_parts d n) = take n d"
  by (simp add: sv_bytes_def sv_from_parts_def)

lemma sv_bytes_from_cstr [simp]: "sv_bytes (sv_from_cstr s) = s"
  by (simp add: sv_bytes_def sv_from_cstr_def)

lemma sv_len_from_parts [simp]: "sv_len (sv_from_parts d n) = n" "sv_data (sv_from_parts d n) = d"
  by (simp_all add: sv_from_parts_def)

lemma sv_ok_from_cstr [simp]: "sv_ok (sv_from_cstr s)"
  by (simp add: sv_ok_def sv_from_cstr_def)

lemma length_sv_bytes: "sv_ok v \<Longrightarrow> length (sv_bytes v) = sv_len v"
  by (simp add: sv_ok_def sv_bytes_def)

lemma sv_eq_iff: "sv_ok a \<Longrightarrow> sv_ok b \<Longrightarrow> sv_eq a b \<longleftrightarrow> sv_bytes a = sv_bytes b"
  by (auto simp: sv_eq_def sv_bytes_def sv_ok_def dest: arg_cong [where f = length])

lemma sv_eq_cstr_iff: "sv_ok v \<Longrightarrow> sv_eq_cstr v s \<longleftrightarrow> sv_bytes v = s"
  by (auto simp: sv_eq_cstr_def sv_bytes_def sv_ok_def)

text \<open>Equal views hash alike, and the hash is the base-33 polynomial of the bytes modulo \<open>2^64\<close>.\<close>

definition djb2_poly :: "nat list \<Rightarrow> nat" where
  "djb2_poly bs = foldl (\<lambda>h b. h * 33 + b) 5381 bs"

lemma djb2_step: "(push_bit 5 h + h) + of_nat b = h * 33 + (of_nat b :: u64)"
  by (simp add: push_bit_eq_mult algebra_simps)

lemma djb2_fold:
  "foldl (\<lambda>h c. h * 33 + of_nat (byte c)) (of_nat a) cs =
   (of_nat (foldl (\<lambda>h b. h * 33 + b) a (map byte cs)) :: u64)"
proof (induction cs arbitrary: a)
  case Nil
  show ?case by simp
next
  case (Cons c cs)
  have "of_nat a * 33 + of_nat (byte c) = (of_nat (a * 33 + byte c) :: u64)"
    by simp
  with Cons.IH show ?case by (simp del: of_nat_add of_nat_mult)
qed

lemma sv_hash_poly: "sv_hash v = of_nat (djb2_poly (map byte (sv_bytes v)))"
  using djb2_fold [of 5381 "sv_bytes v"]
  by (simp add: sv_hash_def djb2_poly_def djb2_step)

end
