(* ===== verification/Tokens.thy ===== *)
theory Tokens
  imports Str
begin

text \<open>
  The token vocabulary of \<open>include/aether/tokenizer.h\<close>: the enumeration \<open>TokenType\<close> (its keyword
  and its operator sections are datatypes of their own, injected by \<open>KW\<close> and \<open>OP\<close>; every
  enumerator keeps its name), the structs \<open>Location\<close> and \<open>Token\<close>, the keyword table
  \<open>KEYWORDS\<close> and \<open>token_type_name\<close> of \<open>src/tokenizer.c\<close>.
\<close>

section \<open>Token types\<close>

datatype (plugins only: code) Keyword =
      TOKEN_KW_FUNC | TOKEN_KW_LET | TOKEN_KW_MUT | TOKEN_KW_IF | TOKEN_KW_ELIF | TOKEN_KW_ELSE
    | TOKEN_KW_WHILE | TOKEN_KW_FOR | TOKEN_KW_IN | TOKEN_KW_RETURN | TOKEN_KW_TRUE
    | TOKEN_KW_FALSE | TOKEN_KW_NONE | TOKEN_KW_ASM | TOKEN_KW_BREAK | TOKEN_KW_CONTINUE
    | TOKEN_KW_STRUCT | TOKEN_KW_ENUM | TOKEN_KW_CLASS | TOKEN_KW_MATCH | TOKEN_KW_CASE
    | TOKEN_KW_TRY | TOKEN_KW_THROW | TOKEN_KW_CATCH | TOKEN_KW_AND | TOKEN_KW_OR | TOKEN_KW_NOT
    | TOKEN_KW_IMPORT | TOKEN_KW_CONST | TOKEN_KW_REF | TOKEN_KW_OWNED | TOKEN_KW_RC
    | TOKEN_KW_HEAP | TOKEN_KW_REGION | TOKEN_KW_PRIVATE | TOKEN_KW_PUB | TOKEN_KW_INTERNAL
    | TOKEN_KW_STATIC | TOKEN_KW_DEFER | TOKEN_KW_UNSAFE | TOKEN_KW_MODULE | TOKEN_KW_SYS
    | TOKEN_KW_CONTRACT | TOKEN_KW_IF_LET | TOKEN_KW_PRE | TOKEN_KW_POST | TOKEN_KW_DROP
    | TOKEN_KW_INIT | TOKEN_KW_SELF | TOKEN_KW_TYPE | TOKEN_KW_TRAIT | TOKEN_KW_IMPL
    | TOKEN_KW_POOL | TOKEN_KW_PROTOCOL | TOKEN_KW_VIRTUAL | TOKEN_KW_DYN | TOKEN_KW_THROWS
    | TOKEN_KW_EXPORT | TOKEN_KW_ENTRY | TOKEN_KW_LAYOUT | TOKEN_KW_RUN | TOKEN_KW_PROP
    | TOKEN_KW_INLINE | TOKEN_KW_AT | TOKEN_KW_FINALLY | TOKEN_KW_AS | TOKEN_KW_SPAWN
    | TOKEN_KW_YIELD

datatype (plugins only: code) Symbol =
      TOKEN_PLUS | TOKEN_MINUS | TOKEN_STAR | TOKEN_SLASH | TOKEN_PERCENT | TOKEN_EQ
    | TOKEN_EQ_EQ | TOKEN_BANG | TOKEN_BANG_EQ | TOKEN_LT | TOKEN_GT | TOKEN_LT_EQ | TOKEN_GT_EQ
    | TOKEN_AMPERSAND | TOKEN_AND_AND | TOKEN_PIPE | TOKEN_PIPE_PIPE | TOKEN_CARET | TOKEN_TILDE
    | TOKEN_LT_LT | TOKEN_GT_GT | TOKEN_ARROW | TOKEN_DOT_DOT | TOKEN_DOT_DOT_EQ | TOKEN_COLON
    | TOKEN_COMMA | TOKEN_DOT | TOKEN_AT | TOKEN_HASH | TOKEN_LPAREN | TOKEN_RPAREN
    | TOKEN_LBRACKET | TOKEN_RBRACKET | TOKEN_LBRACE | TOKEN_RBRACE | TOKEN_STAR_STAR
    | TOKEN_PLUS_EQ | TOKEN_PLUS_PLUS | TOKEN_MINUS_EQ | TOKEN_MINUS_MINUS | TOKEN_STAR_EQ
    | TOKEN_SLASH_EQ | TOKEN_PIPE_LAMBDA | TOKEN_QUESTION | TOKEN_BACKSLASH | TOKEN_SEMICOLON
    | TOKEN_COLON_COLON | TOKEN_UNICODE_OP

datatype (plugins only: code) TokenType =
      TOKEN_EOF | TOKEN_ERROR | TOKEN_INVALID | TOKEN_NEWLINE | TOKEN_IDENT | TOKEN_INT_LITERAL
    | TOKEN_FLOAT_LITERAL | TOKEN_STRING_LITERAL | TOKEN_CHAR_LITERAL | KW Keyword | OP Symbol

section \<open>Tokens\<close>

record Location =
  loc_file :: string
  loc_line :: int
  loc_col :: int
  loc_len :: int

text \<open>
  The union \<open>val\<close>: \<open>make_token\<close> zeroes it (\<open>IntVal 0\<close>); \<open>FloatVal m e\<close> is the decimal
  \<open>m * 10^e\<close> that \<open>strtod\<close> rounds to a double; \<open>Uninit\<close> is the storage of a token whose union is never written.
\<close>

datatype TokVal = IntVal u64 | FloatVal nat int | Uninit

record Token =
  tok_type :: TokenType
  tok_loc :: Location
  tok_text :: StringView
  tok_val :: TokVal

section \<open>The keyword table\<close>

definition KEYWORDS :: "(string \<times> TokenType) list" where
  "KEYWORDS =
    [(''func'', KW TOKEN_KW_FUNC),
     (''let'', KW TOKEN_KW_LET),
     (''mut'', KW TOKEN_KW_MUT),
     (''if'', KW TOKEN_KW_IF),
     (''elif'', KW TOKEN_KW_ELIF),
     (''else'', KW TOKEN_KW_ELSE),
     (''while'', KW TOKEN_KW_WHILE),
     (''for'', KW TOKEN_KW_FOR),
     (''in'', KW TOKEN_KW_IN),
     (''return'', KW TOKEN_KW_RETURN),
     (''true'', KW TOKEN_KW_TRUE),
     (''false'', KW TOKEN_KW_FALSE),
     (''none'', KW TOKEN_KW_NONE),
     (''asm'', KW TOKEN_KW_ASM),
     (''break'', KW TOKEN_KW_BREAK),
     (''continue'', KW TOKEN_KW_CONTINUE),
     (''struct'', KW TOKEN_KW_STRUCT),
     (''enum'', KW TOKEN_KW_ENUM),
     (''class'', KW TOKEN_KW_CLASS),
     (''match'', KW TOKEN_KW_MATCH),
     (''case'', KW TOKEN_KW_CASE),
     (''try'', KW TOKEN_KW_TRY),
     (''throw'', KW TOKEN_KW_THROW),
     (''catch'', KW TOKEN_KW_CATCH),
     (''finally'', KW TOKEN_KW_FINALLY),
     (''and'', KW TOKEN_KW_AND),
     (''or'', KW TOKEN_KW_OR),
     (''not'', KW TOKEN_KW_NOT),
     (''import'', KW TOKEN_KW_IMPORT),
     (''const'', KW TOKEN_KW_CONST),
     (''ref'', KW TOKEN_KW_REF),
     (''owned'', KW TOKEN_KW_OWNED),
     (''rc'', KW TOKEN_KW_RC),
     (''heap'', KW TOKEN_KW_HEAP),
     (''region'', KW TOKEN_KW_REGION),
     (''private'', KW TOKEN_KW_PRIVATE),
     (''public'', KW TOKEN_KW_PUB),
     (''internal'', KW TOKEN_KW_INTERNAL),
     (''static'', KW TOKEN_KW_STATIC),
     (''defer'', KW TOKEN_KW_DEFER),
     (''unsafe'', KW TOKEN_KW_UNSAFE),
     (''module'', KW TOKEN_KW_MODULE),
     (''sys'', KW TOKEN_KW_SYS),
     (''contract'', KW TOKEN_KW_CONTRACT),
     (''pre'', KW TOKEN_KW_PRE),
     (''post'', KW TOKEN_KW_POST),
     (''drop'', KW TOKEN_KW_DROP),
     (''init'', KW TOKEN_KW_INIT),
     (''self'', KW TOKEN_KW_SELF),
     (''type'', KW TOKEN_KW_TYPE),
     (''trait'', KW TOKEN_KW_TRAIT),
     (''impl'', KW TOKEN_KW_IMPL),
     (''pool'', KW TOKEN_KW_POOL),
     (''protocol'', KW TOKEN_KW_PROTOCOL),
     (''virtual'', KW TOKEN_KW_VIRTUAL),
     (''dyn'', KW TOKEN_KW_DYN),
     (''throws'', KW TOKEN_KW_THROWS),
     (''export'', KW TOKEN_KW_EXPORT),
     (''entry'', KW TOKEN_KW_ENTRY),
     (''layout'', KW TOKEN_KW_LAYOUT),
     (''run'', KW TOKEN_KW_RUN),
     (''prop'', KW TOKEN_KW_PROP),
     (''inline'', KW TOKEN_KW_INLINE),
     (''at'', KW TOKEN_KW_AT),
     (''iflet'', KW TOKEN_KW_IF_LET),
     (''as'', KW TOKEN_KW_AS),
     (''spawn'', KW TOKEN_KW_SPAWN),
     (''yield'', KW TOKEN_KW_YIELD)]"

section \<open>Names of token types\<close>

text \<open>
  The three functions together are the switch of \<open>token_type_name\<close>; \<open>TOKEN_KW_AS\<close> has no case
  there and falls through to \<open>UNKNOWN\<close>.
\<close>

primrec keyword_name :: "Keyword \<Rightarrow> string" where
  "keyword_name TOKEN_KW_FUNC = ''func''"
| "keyword_name TOKEN_KW_LET = ''let''"
| "keyword_name TOKEN_KW_MUT = ''mut''"
| "keyword_name TOKEN_KW_IF = ''if''"
| "keyword_name TOKEN_KW_ELIF = ''elif''"
| "keyword_name TOKEN_KW_ELSE = ''else''"
| "keyword_name TOKEN_KW_WHILE = ''while''"
| "keyword_name TOKEN_KW_FOR = ''for''"
| "keyword_name TOKEN_KW_IN = ''in''"
| "keyword_name TOKEN_KW_RETURN = ''return''"
| "keyword_name TOKEN_KW_TRUE = ''true''"
| "keyword_name TOKEN_KW_FALSE = ''false''"
| "keyword_name TOKEN_KW_NONE = ''none''"
| "keyword_name TOKEN_KW_ASM = ''asm''"
| "keyword_name TOKEN_KW_BREAK = ''break''"
| "keyword_name TOKEN_KW_CONTINUE = ''continue''"
| "keyword_name TOKEN_KW_STRUCT = ''struct''"
| "keyword_name TOKEN_KW_ENUM = ''enum''"
| "keyword_name TOKEN_KW_CLASS = ''class''"
| "keyword_name TOKEN_KW_MATCH = ''match''"
| "keyword_name TOKEN_KW_CASE = ''case''"
| "keyword_name TOKEN_KW_TRY = ''try''"
| "keyword_name TOKEN_KW_THROW = ''throw''"
| "keyword_name TOKEN_KW_CATCH = ''catch''"
| "keyword_name TOKEN_KW_AND = ''and''"
| "keyword_name TOKEN_KW_OR = ''or''"
| "keyword_name TOKEN_KW_NOT = ''not''"
| "keyword_name TOKEN_KW_IMPORT = ''import''"
| "keyword_name TOKEN_KW_CONST = ''const''"
| "keyword_name TOKEN_KW_REF = ''ref''"
| "keyword_name TOKEN_KW_OWNED = ''owned''"
| "keyword_name TOKEN_KW_RC = ''rc''"
| "keyword_name TOKEN_KW_HEAP = ''heap''"
| "keyword_name TOKEN_KW_REGION = ''region''"
| "keyword_name TOKEN_KW_PRIVATE = ''private''"
| "keyword_name TOKEN_KW_PUB = ''public''"
| "keyword_name TOKEN_KW_INTERNAL = ''internal''"
| "keyword_name TOKEN_KW_STATIC = ''static''"
| "keyword_name TOKEN_KW_DEFER = ''defer''"
| "keyword_name TOKEN_KW_UNSAFE = ''unsafe''"
| "keyword_name TOKEN_KW_MODULE = ''module''"
| "keyword_name TOKEN_KW_SYS = ''sys''"
| "keyword_name TOKEN_KW_CONTRACT = ''contract''"
| "keyword_name TOKEN_KW_IF_LET = ''iflet''"
| "keyword_name TOKEN_KW_PRE = ''pre''"
| "keyword_name TOKEN_KW_POST = ''post''"
| "keyword_name TOKEN_KW_DROP = ''drop''"
| "keyword_name TOKEN_KW_INIT = ''init''"
| "keyword_name TOKEN_KW_SELF = ''self''"
| "keyword_name TOKEN_KW_TYPE = ''type''"
| "keyword_name TOKEN_KW_TRAIT = ''trait''"
| "keyword_name TOKEN_KW_IMPL = ''impl''"
| "keyword_name TOKEN_KW_POOL = ''pool''"
| "keyword_name TOKEN_KW_PROTOCOL = ''protocol''"
| "keyword_name TOKEN_KW_VIRTUAL = ''virtual''"
| "keyword_name TOKEN_KW_DYN = ''dyn''"
| "keyword_name TOKEN_KW_THROWS = ''throws''"
| "keyword_name TOKEN_KW_EXPORT = ''export''"
| "keyword_name TOKEN_KW_ENTRY = ''entry''"
| "keyword_name TOKEN_KW_LAYOUT = ''layout''"
| "keyword_name TOKEN_KW_RUN = ''run''"
| "keyword_name TOKEN_KW_PROP = ''prop''"
| "keyword_name TOKEN_KW_INLINE = ''inline''"
| "keyword_name TOKEN_KW_AT = ''at''"
| "keyword_name TOKEN_KW_FINALLY = ''finally''"
| "keyword_name TOKEN_KW_AS = ''UNKNOWN''"
| "keyword_name TOKEN_KW_SPAWN = ''spawn''"
| "keyword_name TOKEN_KW_YIELD = ''yield''"

primrec symbol_name :: "Symbol \<Rightarrow> string" where
  "symbol_name TOKEN_PLUS = ''+''"
| "symbol_name TOKEN_MINUS = ''-''"
| "symbol_name TOKEN_STAR = ''*''"
| "symbol_name TOKEN_SLASH = ''/''"
| "symbol_name TOKEN_PERCENT = ''%''"
| "symbol_name TOKEN_EQ = ''=''"
| "symbol_name TOKEN_EQ_EQ = ''==''"
| "symbol_name TOKEN_BANG = ''!''"
| "symbol_name TOKEN_BANG_EQ = ''!=''"
| "symbol_name TOKEN_LT = ''<''"
| "symbol_name TOKEN_GT = ''>''"
| "symbol_name TOKEN_LT_EQ = ''<=''"
| "symbol_name TOKEN_GT_EQ = ''>=''"
| "symbol_name TOKEN_AMPERSAND = ''&''"
| "symbol_name TOKEN_AND_AND = ''&&''"
| "symbol_name TOKEN_PIPE = ''|''"
| "symbol_name TOKEN_PIPE_PIPE = ''||''"
| "symbol_name TOKEN_CARET = ''^''"
| "symbol_name TOKEN_TILDE = ''~''"
| "symbol_name TOKEN_LT_LT = ''<<''"
| "symbol_name TOKEN_GT_GT = ''>>''"
| "symbol_name TOKEN_ARROW = ''->''"
| "symbol_name TOKEN_DOT_DOT = ''..''"
| "symbol_name TOKEN_DOT_DOT_EQ = ''..=''"
| "symbol_name TOKEN_COLON = '':''"
| "symbol_name TOKEN_COMMA = '',''"
| "symbol_name TOKEN_DOT = ''.''"
| "symbol_name TOKEN_AT = ''@''"
| "symbol_name TOKEN_HASH = ''#''"
| "symbol_name TOKEN_LPAREN = ''(''"
| "symbol_name TOKEN_RPAREN = '')''"
| "symbol_name TOKEN_LBRACKET = ''[''"
| "symbol_name TOKEN_RBRACKET = '']''"
| "symbol_name TOKEN_LBRACE = ''{''"
| "symbol_name TOKEN_RBRACE = ''}''"
| "symbol_name TOKEN_STAR_STAR = ''**''"
| "symbol_name TOKEN_PLUS_EQ = ''+=''"
| "symbol_name TOKEN_PLUS_PLUS = ''++''"
| "symbol_name TOKEN_MINUS_EQ = ''-=''"
| "symbol_name TOKEN_MINUS_MINUS = ''--''"
| "symbol_name TOKEN_STAR_EQ = ''*=''"
| "symbol_name TOKEN_SLASH_EQ = ''/=''"
| "symbol_name TOKEN_PIPE_LAMBDA = ''|''"
| "symbol_name TOKEN_QUESTION = ''?''"
| "symbol_name TOKEN_BACKSLASH = [BSLASH]"
| "symbol_name TOKEN_SEMICOLON = '';''"
| "symbol_name TOKEN_COLON_COLON = ''::''"
| "symbol_name TOKEN_UNICODE_OP = ''UNICODE_OP''"

primrec token_type_name :: "TokenType \<Rightarrow> string" where
  "token_type_name TOKEN_EOF = ''EOF''"
| "token_type_name TOKEN_ERROR = ''ERROR''"
| "token_type_name TOKEN_INVALID = ''INVALID''"
| "token_type_name TOKEN_NEWLINE = ''NEWLINE''"
| "token_type_name TOKEN_IDENT = ''IDENT''"
| "token_type_name TOKEN_INT_LITERAL = ''INT''"
| "token_type_name TOKEN_FLOAT_LITERAL = ''FLOAT''"
| "token_type_name TOKEN_STRING_LITERAL = ''STRING''"
| "token_type_name TOKEN_CHAR_LITERAL = ''CHAR''"
| "token_type_name (KW k) = keyword_name k"
| "token_type_name (OP s) = symbol_name s"

section \<open>The table is a bijection between its words and the keyword types\<close>

lemma KEYWORDS_all_KW: "list_all (\<lambda>e. \<exists>k. snd e = KW k) KEYWORDS"
  by (simp add: KEYWORDS_def)

lemma KEYWORDS_KW: "e \<in> set KEYWORDS \<Longrightarrow> \<exists>k. snd e = KW k"
  using KEYWORDS_all_KW by (auto simp: list_all_iff)

lemma distinct_keyword_words: "distinct (map fst KEYWORDS)"
  by (simp add: KEYWORDS_def)

lemma distinct_keyword_types: "distinct (map snd KEYWORDS)"
  by (simp add: KEYWORDS_def)

lemma KEYWORDS_complete: "KW k \<in> set (map snd KEYWORDS)"
  by (cases k) (simp_all add: KEYWORDS_def)

lemma KEYWORDS_names: "list_all (\<lambda>e. snd e = KW TOKEN_KW_AS \<or> token_type_name (snd e) = fst e) KEYWORDS"
  by (simp add: KEYWORDS_def)

lemma keyword_words_are_identifiers:
  "list_all (\<lambda>e. fst e \<noteq> [] \<and> c_isalpha (hd (fst e)) \<and> list_all c_isalpha (fst e) \<and>
     \<not> (\<exists>r. fst e = ''op_'' @ r)) KEYWORDS"
  by (simp add: KEYWORDS_def c_isalpha_def)

end
