(* ===== verification/Tokenizer.thy ===== *)
theory Tokenizer
  imports Tokens
begin

text \<open>
  The scanner of \<open>src/tokenizer.c\<close>.  The pointers \<open>start\<close>, \<open>pos\<close> and \<open>end\<close> of the C state are
  offsets into the source buffer \<open>t_src\<close>; reading \<open>*t->pos\<close> is \<open>cur t\<close>.  \<open>tok_step\<close> is one round of
  the body of \<open>tokenizer_next\<close>: \<open>Inr\<close> is a \<open>return\<close> of a token, \<open>Inl t'\<close> the tail call
  \<open>return tokenizer_next(t)\<close> the two comment scanners make, which \<open>tokenizer_next\<close> iterates.
\<close>

section \<open>State\<close>

record Tokenizer =
  t_src :: string
  t_start :: nat
  t_pos :: nat
  t_end :: nat
  t_filename :: string
  t_line :: int
  t_col :: int
  had_error :: bool
  error_msg :: string

definition tokenizer_create :: "string \<Rightarrow> nat \<Rightarrow> string option \<Rightarrow> Tokenizer" where
  "tokenizer_create source len filename =
     \<lparr>t_src = source, t_start = 0, t_pos = 0, t_end = len,
      t_filename = (case filename of Some f \<Rightarrow> f | None \<Rightarrow> ''<unknown>''),
      t_line = 1, t_col = 1, had_error = False, error_msg = []\<rparr>"

text \<open>The contract of the constructor: \<open>length\<close> bytes are readable at \<open>source\<close>.\<close>

definition tokenizer_ok :: "Tokenizer \<Rightarrow> bool" where
  "tokenizer_ok t \<longleftrightarrow> t_end t \<le> length (t_src t)"

abbreviation cur :: "Tokenizer \<Rightarrow> char" where
  "cur t \<equiv> t_src t ! t_pos t"

abbreviation ahead :: "Tokenizer \<Rightarrow> nat \<Rightarrow> char" where
  "ahead t k \<equiv> t_src t ! (t_pos t + k)"

text \<open>\<open>t->pos += k; t->col += k\<close>\<close>

definition adv :: "nat \<Rightarrow> Tokenizer \<Rightarrow> Tokenizer" where
  "adv k t = t\<lparr>t_pos := t_pos t + k, t_col := t_col t + int k\<rparr>"

section \<open>Character classes and token constructors\<close>

definition is_ident_start :: "char \<Rightarrow> bool" where
  "is_ident_start c \<longleftrightarrow> c_isalpha c \<or> c = CHR ''_''"

definition is_ident_continue :: "char \<Rightarrow> bool" where
  "is_ident_continue c \<longleftrightarrow> c_isalnum c \<or> c = CHR ''_''"

definition is_hex_char :: "char \<Rightarrow> bool" where
  "is_hex_char c \<longleftrightarrow> c_isdigit c \<or> (97 \<le> byte c \<and> byte c \<le> 102) \<or> (65 \<le> byte c \<and> byte c \<le> 70)"

definition make_token :: "Tokenizer \<Rightarrow> TokenType \<Rightarrow> Token" where
  "make_token t ty =
     \<lparr>tok_type = ty,
      tok_loc = \<lparr>loc_file = t_filename t, loc_line = t_line t, loc_col = t_col t,
                 loc_len = int (t_pos t) - int (t_start t)\<rparr>,
      tok_text = sv_from_parts (drop (t_start t) (t_src t)) (t_pos t - t_start t),
      tok_val = IntVal 0\<rparr>"

definition error_token :: "Tokenizer \<Rightarrow> string \<Rightarrow> Token \<times> Tokenizer" where
  "error_token t msg =
     (\<lparr>tok_type = TOKEN_ERROR,
       tok_loc = \<lparr>loc_file = t_filename t, loc_line = t_line t, loc_col = t_col t,
                  loc_len = int (t_pos t) - int (t_start t)\<rparr>,
       tok_text = sv_from_cstr msg, tok_val = IntVal 0\<rparr>,
      t\<lparr>had_error := True, error_msg := take 255 msg\<rparr>)"

definition ret :: "TokenType \<Rightarrow> Tokenizer \<Rightarrow> Token \<times> Tokenizer" where
  "ret ty t = (make_token t ty, t)"

section \<open>Character scanning helpers\<close>

text \<open>\<open>next_char\<close>; \<open>None\<close> is \<open>EOF\<close>.\<close>

definition next_char :: "Tokenizer \<Rightarrow> char option \<times> Tokenizer" where
  "next_char t =
     (if t_pos t \<ge> t_end t then (None, t)
      else let c = cur t; t = adv 1 t
           in (Some c, if c = NL then t\<lparr>t_line := t_line t + 1, t_col := 1\<rparr> else t))"

text \<open>The blank-skipping loop, which is also the body of \<open>skip_whitespace_inline\<close>.\<close>

function skip_blanks :: "Tokenizer \<Rightarrow> Tokenizer" where
  "skip_blanks t =
     (if t_pos t < t_end t \<and> (cur t = SPACE \<or> cur t = TAB)
      then skip_blanks (t\<lparr>t_col := t_col t + (if cur t = TAB then 4 else 1), t_pos := t_pos t + 1\<rparr>)
      else t)"
  by pat_completeness auto
termination
  by (relation "measure (\<lambda>t. t_end t - t_pos t)") auto

function skip_line :: "Tokenizer \<Rightarrow> bool \<times> Tokenizer" where
  "skip_line t =
     (if t_pos t < t_end t
      then if cur t = NL
           then (True, t\<lparr>t_pos := t_pos t + 1, t_line := t_line t + 1, t_col := 1\<rparr>)
           else skip_line (adv 1 t)
      else (False, t))"
  by pat_completeness auto
termination
  by (relation "measure (\<lambda>t. t_end t - t_pos t)") (auto simp: adv_def)

section \<open>Comments\<close>

definition scan_comment :: "Tokenizer \<Rightarrow> Tokenizer" where
  "scan_comment t = snd (skip_line t)"

text \<open>The loop of \<open>scan_block_comment\<close>: comments nest, \<open>depth\<close> counts the open ones.\<close>

function block_loop :: "nat \<Rightarrow> Tokenizer \<Rightarrow> nat \<times> Tokenizer" where
  "block_loop depth t =
     (if t_pos t < t_end t \<and> depth > 0
      then if t_pos t + 1 < t_end t \<and> cur t = CHR ''*'' \<and> ahead t 1 = CHR ''/''
           then block_loop (depth - 1) (adv 2 t)
           else if t_pos t + 1 < t_end t \<and> cur t = CHR ''/'' \<and> ahead t 1 = CHR ''*''
           then block_loop (depth + 1) (adv 2 t)
           else block_loop depth (snd (next_char t))
      else (depth, t))"
  by pat_completeness auto
termination
  by (relation "measure (\<lambda>(d, t). t_end t - t_pos t)") (auto simp: adv_def next_char_def Let_def)

definition scan_block_comment :: "Tokenizer \<Rightarrow> Tokenizer + Token \<times> Tokenizer" where
  "scan_block_comment t =
     (let (depth, t) = block_loop 1 t
      in if depth > 0 then Inr (error_token t (''Unclosed block comment '' @ [SQUOTE] @ ''/* ... */'' @ [SQUOTE])) else Inl t)"

declare skip_blanks.simps [simp del] skip_line.simps [simp del] block_loop.simps [simp del]

section \<open>Identifiers and keywords\<close>

definition scan_ident_or_keyword :: "Tokenizer \<Rightarrow> Token \<times> Tokenizer" where
  "scan_ident_or_keyword t =
     (let t = t\<lparr>t_start := t_pos t - 1\<rparr>;
          t = t\<lparr>t_pos := advance_while is_ident_continue (t_src t) (t_end t) (t_pos t)\<rparr>;
          word = sv_from_parts (drop (t_start t) (t_src t)) (t_pos t - t_start t)
      in case List.find (\<lambda>e. sv_eq_cstr word (fst e)) KEYWORDS of
           Some e \<Rightarrow> ret (snd e) t
         | None \<Rightarrow> ret TOKEN_IDENT t)"

section \<open>Numbers\<close>

text \<open>
  The digit runs \<open>scan_number\<close> advances over, and the buffer \<open>clean\<close>: the first 30 bytes that
  are not underscores.
\<close>

definition clean_digits :: "string \<Rightarrow> nat \<Rightarrow> nat \<Rightarrow> string" where
  "clean_digits src i j = take 30 (filter (\<lambda>c. c \<noteq> CHR ''_'') (subbytes src i j))"

definition set_val :: "TokVal \<Rightarrow> Token \<Rightarrow> Token" where
  "set_val v tok = tok\<lparr>tok_val := v\<rparr>"

definition scan_hex :: "Tokenizer \<Rightarrow> Token \<times> Tokenizer" where
  "scan_hex t =
     (let t = t\<lparr>t_pos := advance_while (\<lambda>c. c = CHR ''_'' \<or> is_hex_char c) (t_src t) (t_end t) (t_start t + 2)\<rparr>
      in (set_val (IntVal (strtoull 16 (clean_digits (t_src t) (t_start t + 2) (t_pos t))))
            (make_token t TOKEN_INT_LITERAL), t))"

text \<open>
  The binary and the octal loop: \<open>val = (val << k) | digit\<close>, underscores skipped; \<open>k\<close> is 1 or 3
  and \<open>hi\<close> the largest digit.
\<close>

function radix_loop :: "nat \<Rightarrow> char \<Rightarrow> u64 \<Rightarrow> Tokenizer \<Rightarrow> u64 \<times> Tokenizer" where
  "radix_loop k hi v t =
     (if t_pos t < t_end t \<and> ((48 \<le> byte (cur t) \<and> byte (cur t) \<le> byte hi) \<or> cur t = CHR ''_'')
      then if cur t = CHR ''_'' then radix_loop k hi v (t\<lparr>t_pos := t_pos t + 1\<rparr>)
           else radix_loop k hi (or (push_bit k v) (of_nat (byte (cur t) - 48))) (t\<lparr>t_pos := t_pos t + 1\<rparr>)
      else (v, t))"
  by pat_completeness auto
termination
  by (relation "measure (\<lambda>(k, hi, v, t). t_end t - t_pos t)") auto

definition scan_radix :: "nat \<Rightarrow> char \<Rightarrow> Tokenizer \<Rightarrow> Token \<times> Tokenizer" where
  "scan_radix k hi t =
     (let (v, t) = radix_loop k hi 0 (t\<lparr>t_pos := t_start t + 2\<rparr>)
      in (set_val (IntVal v) (make_token t TOKEN_INT_LITERAL), t))"

abbreviation digit_or_us :: "char \<Rightarrow> bool" where
  "digit_or_us c \<equiv> c_isdigit c \<or> c = CHR ''_''"

text \<open>
  \<open>strtod\<close> on the text of a float literal, as an exact decimal: integer part, fraction, and an
  exponent when at least one exponent digit follows.
\<close>

definition strtod :: "string \<Rightarrow> TokVal" where
  "strtod s =
     (let ip = takeWhile c_isdigit s; r = dropWhile c_isdigit s;
          fp = (if r \<noteq> [] \<and> hd r = CHR ''.'' then takeWhile c_isdigit (tl r) else []);
          r2 = (if r \<noteq> [] \<and> hd r = CHR ''.'' then dropWhile c_isdigit (tl r) else r);
          ex = (if r2 \<noteq> [] \<and> (hd r2 = CHR ''e'' \<or> hd r2 = CHR ''E'') then tl r2 else []);
          neg = (ex \<noteq> [] \<and> hd ex = CHR ''-'');
          ed = takeWhile c_isdigit (if ex \<noteq> [] \<and> (hd ex = CHR ''-'' \<or> hd ex = CHR ''+'') then tl ex else ex);
          e = int (digits_value 10 ed)
      in FloatVal (digits_value 10 (ip @ fp)) ((if neg then - e else e) - int (length fp)))"

text \<open>The float part: a dot only before a digit, then an optional exponent.\<close>

definition scan_fraction :: "Tokenizer \<Rightarrow> bool \<times> Tokenizer" where
  "scan_fraction t =
     (if t_pos t < t_end t \<and> cur t = CHR ''.'' \<and> t_pos t + 1 < t_end t \<and> c_isdigit (ahead t 1)
      then (True, t\<lparr>t_pos := advance_while digit_or_us (t_src t) (t_end t) (t_pos t + 1)\<rparr>)
      else (False, t))"

definition scan_exponent :: "Tokenizer \<Rightarrow> bool \<times> Tokenizer" where
  "scan_exponent t =
     (if t_pos t < t_end t \<and> (cur t = CHR ''e'' \<or> cur t = CHR ''E'')
      then let t = t\<lparr>t_pos := t_pos t + 1\<rparr>;
               t = (if t_pos t < t_end t \<and> (cur t = CHR ''+'' \<or> cur t = CHR ''-'')
                    then t\<lparr>t_pos := t_pos t + 1\<rparr> else t)
           in (True, t\<lparr>t_pos := advance_while digit_or_us (t_src t) (t_end t) (t_pos t)\<rparr>)
      else (False, t))"

definition scan_decimal :: "Tokenizer \<Rightarrow> Token \<times> Tokenizer" where
  "scan_decimal t =
     (let t = t\<lparr>t_pos := advance_while digit_or_us (t_src t) (t_end t) (t_pos t)\<rparr>;
          (frac, t) = scan_fraction t;
          (expo, t) = scan_exponent t;
          clean = clean_digits (t_src t) (t_start t) (t_pos t)
      in if frac \<or> expo
         then (set_val (strtod clean) (make_token t TOKEN_FLOAT_LITERAL), t)
         else (set_val (IntVal (strtoull 10 clean)) (make_token t TOKEN_INT_LITERAL), t))"

definition scan_number :: "Tokenizer \<Rightarrow> Token \<times> Tokenizer" where
  "scan_number t =
     (let t = t\<lparr>t_start := t_pos t - 1\<rparr>
      in if t_start t + 1 < t_end t \<and> t_src t ! t_start t = CHR ''0''
         then let next = t_src t ! (t_start t + 1)
              in if next = CHR ''x'' \<or> next = CHR ''X'' then scan_hex t
                 else if next = CHR ''b'' \<or> next = CHR ''B'' then scan_radix 1 (CHR ''1'') t
                 else if next = CHR ''o'' \<or> next = CHR ''O'' then scan_radix 3 (CHR ''7'') t
                 else scan_decimal t
         else scan_decimal t)"

section \<open>String and character literals\<close>

text \<open>One round of the loop, on any byte but the closing quote; a backslash takes the next byte along.\<close>

definition string_step :: "Tokenizer \<Rightarrow> Tokenizer" where
  "string_step t =
     (let t = (if cur t = BSLASH \<and> t_pos t + 1 < t_end t then adv 1 t else t);
          t' = (if cur t = NL then t\<lparr>t_line := t_line t + 1, t_col := 1\<rparr>
                else t\<lparr>t_col := t_col t + 1\<rparr>)
      in t'\<lparr>t_pos := t_pos t' + 1\<rparr>)"

lemma string_step_frame [frame_simps]:
  "t_src (string_step t) = t_src t" "t_end (string_step t) = t_end t"
  "t_filename (string_step t) = t_filename t" "t_start (string_step t) = t_start t"
  by (simp_all add: string_step_def adv_def Let_def)

lemma string_step_pos:
  "t_pos t < t_pos (string_step t)" "t_pos t < t_end t \<Longrightarrow> t_pos (string_step t) \<le> t_end t"
  by (simp_all add: string_step_def adv_def Let_def)

function string_loop :: "Tokenizer \<Rightarrow> Tokenizer" where
  "string_loop t =
     (if t_pos t < t_end t
      then if cur t = DQUOTE then adv 1 t else string_loop (string_step t)
      else t)"
  by pat_completeness auto
termination
  by (relation "measure (\<lambda>t. t_end t - t_pos t)")
    (auto simp: string_step_frame intro!: diff_less_mono2 string_step_pos)

definition scan_string :: "Tokenizer \<Rightarrow> Token \<times> Tokenizer" where
  "scan_string t = ret TOKEN_STRING_LITERAL (string_loop (t\<lparr>t_start := t_pos t - 1\<rparr>))"

text \<open>The \<open>switch\<close> on the escaped character; the state is advanced only by \<open>\x\<close>.\<close>

definition scan_escape :: "Tokenizer \<Rightarrow> u64 \<times> Tokenizer" where
  "scan_escape t =
     (let c = cur t
      in if c = CHR ''n'' then (10, t)
         else if c = CHR ''r'' then (13, t)
         else if c = CHR ''t'' then (9, t)
         else if c = BSLASH then (92, t)
         else if c = SQUOTE then (39, t)
         else if c = CHR ''x''
         then let t = adv 1 t
              in if t_pos t + 1 < t_end t \<and> is_hex_char (cur t) \<and> is_hex_char (ahead t 1)
                 then (of_nat (digits_value 16 [cur t, ahead t 1]), adv 1 t)
                 else (0, t)
         else (0, t))"

text \<open>The character between the quotes, escaped or not.\<close>

definition scan_char_value :: "Tokenizer \<Rightarrow> u64 \<times> Tokenizer" where
  "scan_char_value t =
     (if t_pos t < t_end t \<and> cur t = BSLASH
      then let t = adv 1 t
           in if t_pos t < t_end t
              then let (v, t) = scan_escape t in (v, adv 1 t)
              else (0, t)
      else if t_pos t < t_end t then (of_nat (byte (cur t)), adv 1 t)
      else (0, t))"

definition scan_char :: "Tokenizer \<Rightarrow> Token \<times> Tokenizer" where
  "scan_char t =
     (let (v, t) = scan_char_value (t\<lparr>t_start := t_pos t - 1\<rparr>);
          t = (if t_pos t < t_end t \<and> cur t = SQUOTE then adv 1 t else t)
      in (set_val (IntVal v) (make_token t TOKEN_CHAR_LITERAL), t))"

declare string_loop.simps [simp del] radix_loop.simps [simp del]

section \<open>Operators and punctuation\<close>

text \<open>
  The multi-character constant \<open>'||'\<close> the code compares the next byte with: its value is
  \<open>'|' * 256 + '|'\<close> (gcc and clang), an \<open>int\<close> outside the range of a byte.
\<close>

definition PIPE_PIPE_CONST :: int where
  "PIPE_PIPE_CONST = 124 * 256 + 124"

text \<open>The two-character \<open>switch\<close>: \<open>None\<close> is falling out of it, to the single-character one.\<close>

definition scan_two_char :: "char \<Rightarrow> Tokenizer \<Rightarrow> (Token \<times> Tokenizer) option" where
  "scan_two_char c t =
     (let next = cur t
      in if c = CHR ''='' then Some (if next = CHR ''='' then ret (OP TOKEN_EQ_EQ) (adv 1 t) else ret (OP TOKEN_EQ) t)
         else if c = CHR ''!'' then Some (if next = CHR ''='' then ret (OP TOKEN_BANG_EQ) (adv 1 t) else ret (OP TOKEN_BANG) t)
         else if c = CHR ''<'' then Some
                (if next = CHR ''='' then ret (OP TOKEN_LT_EQ) (adv 1 t)
                 else if next = CHR ''<'' then ret (OP TOKEN_LT_LT) (adv 1 t) else ret (OP TOKEN_LT) t)
         else if c = CHR ''>'' then Some
                (if next = CHR ''='' then ret (OP TOKEN_GT_EQ) (adv 1 t)
                 else if next = CHR ''>'' then ret (OP TOKEN_GT_GT) (adv 1 t) else ret (OP TOKEN_GT) t)
         else if c = CHR ''&'' then Some (if next = CHR ''&'' then ret (OP TOKEN_AND_AND) (adv 1 t) else ret (OP TOKEN_AMPERSAND) t)
         else if c = CHR ''|'' then Some
                (if int (byte next) = PIPE_PIPE_CONST then ret (OP TOKEN_PIPE_PIPE) (adv 1 t) else ret (OP TOKEN_PIPE) t)
         else if c = CHR ''-'' then Some
                (if next = CHR ''>'' then ret (OP TOKEN_ARROW) (adv 1 t)
                 else if next = CHR ''='' then ret (OP TOKEN_MINUS_EQ) (adv 1 t)
                 else if next = CHR ''-'' then ret (OP TOKEN_MINUS_MINUS) (adv 1 t) else ret (OP TOKEN_MINUS) t)
         else if c = CHR ''+'' then Some
                (if next = CHR ''='' then ret (OP TOKEN_PLUS_EQ) (adv 1 t)
                 else if next = CHR ''+'' then ret (OP TOKEN_PLUS_PLUS) (adv 1 t) else ret (OP TOKEN_PLUS) t)
         else if c = CHR ''*'' then Some
                (if next = CHR ''='' then ret (OP TOKEN_STAR_EQ) (adv 1 t)
                 else if next = CHR ''*'' then ret (OP TOKEN_STAR_STAR) (adv 1 t) else ret (OP TOKEN_STAR) t)
         else if c = CHR ''/'' then Some (if next = CHR ''='' then ret (OP TOKEN_SLASH_EQ) (adv 1 t) else ret (OP TOKEN_SLASH) t)
         else if c = CHR ''.'' then Some
                (if next = CHR ''.''
                 then let t = adv 1 t
                      in if t_pos t < t_end t \<and> cur t = CHR ''='' then ret (OP TOKEN_DOT_DOT_EQ) (adv 1 t)
                         else ret (OP TOKEN_DOT_DOT) t
                 else ret (OP TOKEN_DOT) t)
         else if c = CHR '':'' then Some (if next = CHR '':'' then ret (OP TOKEN_COLON_COLON) (adv 1 t) else ret (OP TOKEN_COLON) t)
         else None)"

text \<open>The continuation bytes \<open>10xxxxxx\<close> of a multi-byte character.\<close>

function utf8_tail :: "Tokenizer \<Rightarrow> Tokenizer" where
  "utf8_tail t =
     (if t_pos t < t_end t \<and> 128 \<le> byte (cur t) \<and> byte (cur t) < 192 then utf8_tail (adv 1 t) else t)"
  by pat_completeness auto
termination
  by (relation "measure (\<lambda>t. t_end t - t_pos t)") (auto simp: adv_def)

declare utf8_tail.simps [simp del]

definition scan_single_char :: "char \<Rightarrow> Tokenizer \<Rightarrow> Token \<times> Tokenizer" where
  "scan_single_char c t =
     (if c = CHR ''('' then ret (OP TOKEN_LPAREN) t
      else if c = CHR '')'' then ret (OP TOKEN_RPAREN) t
      else if c = CHR ''['' then ret (OP TOKEN_LBRACKET) t
      else if c = CHR '']'' then ret (OP TOKEN_RBRACKET) t
      else if c = CHR ''{'' then ret (OP TOKEN_LBRACE) t
      else if c = CHR ''}'' then ret (OP TOKEN_RBRACE) t
      else if c = CHR '','' then ret (OP TOKEN_COMMA) t
      else if c = CHR '';'' then ret (OP TOKEN_SEMICOLON) t
      else if c = CHR ''?'' then ret (OP TOKEN_QUESTION) t
      else if c = CHR ''~'' then ret (OP TOKEN_TILDE) t
      else if c = CHR ''^'' then ret (OP TOKEN_CARET) t
      else if c = CHR ''%'' then ret (OP TOKEN_PERCENT) t
      else if c = CHR ''@'' then ret (OP TOKEN_AT) t
      else if byte c > 127 then ret (OP TOKEN_UNICODE_OP) (utf8_tail (adv 1 t))
      else error_token t ''Unexpected character'')"

definition scan_operator :: "char \<Rightarrow> Tokenizer \<Rightarrow> Token \<times> Tokenizer" where
  "scan_operator c t =
     (case (if t_pos t < t_end t then scan_two_char c t else None) of
        Some r \<Rightarrow> r
      | None \<Rightarrow> scan_single_char c t)"

section \<open>The remaining token forms\<close>

definition scan_slash :: "Tokenizer \<Rightarrow> Tokenizer + Token \<times> Tokenizer" where
  "scan_slash t =
     (if t_pos t + 1 < t_end t \<and> ahead t 1 = CHR ''/'' then Inl (scan_comment (adv 2 t))
      else if t_pos t + 1 < t_end t \<and> ahead t 1 = CHR ''*'' then scan_block_comment (adv 2 t)
      else if t_pos t + 0 < t_end t \<and> ahead t 0 = CHR ''='' then Inr (ret (OP TOKEN_SLASH_EQ) (adv 1 t))
      else Inr (ret (OP TOKEN_SLASH) (adv 1 t)))"

text \<open>Both branches (\<open>#run\<close> and plain \<open>#\<close>) build the same token; its union is never written.\<close>

definition scan_hash :: "Tokenizer \<Rightarrow> Token \<times> Tokenizer" where
  "scan_hash t =
     (let t = adv 1 t
      in (\<lparr>tok_type = OP TOKEN_HASH,
           tok_loc = \<lparr>loc_file = t_filename t, loc_line = t_line t, loc_col = t_col t - 1, loc_len = 1\<rparr>,
           tok_text = sv_from_cstr ''#'', tok_val = Uninit\<rparr>, t))"

definition op_delimiter :: "char \<Rightarrow> bool" where
  "op_delimiter c \<longleftrightarrow> c \<in> set (''(){}[],;: '' @ [TAB, NL, CR])"

function op_ident_loop :: "Tokenizer \<Rightarrow> Tokenizer" where
  "op_ident_loop t =
     (if t_pos t < t_end t \<and> \<not> op_delimiter (cur t) then op_ident_loop (adv 1 t) else t)"
  by pat_completeness auto
termination
  by (relation "measure (\<lambda>t. t_end t - t_pos t)") (auto simp: adv_def)

declare op_ident_loop.simps [simp del]

definition scan_op_ident :: "Tokenizer \<Rightarrow> Token \<times> Tokenizer" where
  "scan_op_ident t = ret TOKEN_IDENT (op_ident_loop (adv 3 t))"

section \<open>\<open>tokenizer_next\<close>\<close>

definition scan_token :: "Tokenizer \<Rightarrow> Tokenizer + Token \<times> Tokenizer" where
  "scan_token t =
     (let c = cur t
      in if c = NL then Inr (ret TOKEN_NEWLINE (t\<lparr>t_pos := t_pos t + 1, t_line := t_line t + 1, t_col := 1\<rparr>))
         else if c = BSLASH then Inr (ret (OP TOKEN_BACKSLASH) (adv 1 t))
         else if c = CHR ''/'' then scan_slash t
         else if c = CHR ''#'' then Inr (scan_hash t)
         else if c = CHR ''o'' \<and> t_pos t + 2 < t_end t \<and> ahead t 1 = CHR ''p'' \<and> ahead t 2 = CHR ''_''
         then Inr (scan_op_ident t)
         else if is_ident_start c then Inr (scan_ident_or_keyword (adv 1 t))
         else if c_isdigit c then Inr (scan_number (adv 1 t))
         else if c = DQUOTE then Inr (scan_string (adv 1 t))
         else if c = SQUOTE then Inr (scan_char (adv 1 t))
         else Inr (scan_operator c (adv 1 t)))"

definition tok_step :: "Tokenizer \<Rightarrow> Tokenizer + Token \<times> Tokenizer" where
  "tok_step t =
     (if t_pos t < t_end t
      then let t = skip_blanks (t\<lparr>t_start := t_pos t\<rparr>)
           in if t_pos t \<ge> t_end t then Inr (ret TOKEN_EOF t)
              else scan_token (t\<lparr>t_start := t_pos t\<rparr>)
      else Inr (ret TOKEN_EOF t))"

section \<open>Scanning frame\<close>

text \<open>
  \<open>fwd t t'\<close>: the buffer is the same and the position has not moved back;
  \<open>lexes t (tok, t')\<close>: what every token scanner guarantees when it is entered at a position
  inside the buffer with \<open>t_start\<close> at the first byte of the token.
\<close>

definition fwd :: "Tokenizer \<Rightarrow> Tokenizer \<Rightarrow> bool" where
  "fwd t t' \<longleftrightarrow> t_src t' = t_src t \<and> t_end t' = t_end t \<and> t_filename t' = t_filename t \<and>
     t_pos t \<le> t_pos t'"

definition overrun_type :: "TokenType \<Rightarrow> bool" where
  "overrun_type ty \<longleftrightarrow> ty = TOKEN_CHAR_LITERAL \<or> ty = OP TOKEN_UNICODE_OP"

definition token_view :: "Tokenizer \<Rightarrow> StringView" where
  "token_view t = sv_from_parts (drop (t_start t) (t_src t)) (t_pos t - t_start t)"

definition lexes :: "Tokenizer \<Rightarrow> Token \<times> Tokenizer \<Rightarrow> bool" where
  "lexes t r \<longleftrightarrow> fwd t (snd r) \<and> t_start (snd r) = t_start t \<and> t_pos (snd r) \<le> t_end t + 1 \<and>
     (t_end t < t_pos (snd r) \<longrightarrow> overrun_type (tok_type (fst r))) \<and>
     tok_type (fst r) \<noteq> TOKEN_EOF \<and>
     (tok_type (fst r) \<notin> {TOKEN_ERROR, OP TOKEN_HASH} \<longrightarrow> tok_text (fst r) = token_view (snd r))"

lemma fwd_refl [simp]: "fwd t t"
  by (simp add: fwd_def)

lemma fwd_trans [trans]: "fwd t u \<Longrightarrow> fwd u v \<Longrightarrow> fwd t v"
  by (auto simp: fwd_def)

lemma adv_simps [simp]:
  "t_src (adv k t) = t_src t" "t_end (adv k t) = t_end t" "t_filename (adv k t) = t_filename t"
  "t_start (adv k t) = t_start t" "t_pos (adv k t) = t_pos t + k" "t_line (adv k t) = t_line t"
  by (simp_all add: adv_def)

lemma fwd_adv [simp]: "fwd t (adv k t)"
  by (simp add: fwd_def)

lemma make_token_simps [simp]:
  "tok_type (make_token t ty) = ty" "tok_text (make_token t ty) = token_view t"
  by (simp_all add: make_token_def token_view_def)

lemma set_val_simps [simp]:
  "tok_type (set_val v tok) = tok_type tok" "tok_text (set_val v tok) = tok_text tok"
  "tok_val (set_val v tok) = v"
  by (simp_all add: set_val_def)

lemma error_token_simps [simp]:
  "tok_type (fst (error_token t m)) = TOKEN_ERROR" "t_src (snd (error_token t m)) = t_src t"
  "t_end (snd (error_token t m)) = t_end t" "t_filename (snd (error_token t m)) = t_filename t"
  "t_start (snd (error_token t m)) = t_start t" "t_pos (snd (error_token t m)) = t_pos t"
  by (simp_all add: error_token_def)

lemma ret_simps [simp]: "fst (ret ty t) = make_token t ty" "snd (ret ty t) = t"
  by (simp_all add: ret_def)

lemma lexes_ret [simp]:
  "lexes t (ret ty u) \<longleftrightarrow> fwd t u \<and> t_start u = t_start t \<and> t_pos u \<le> t_end t + 1 \<and>
     (t_end t < t_pos u \<longrightarrow> overrun_type ty) \<and> ty \<noteq> TOKEN_EOF"
  by (auto simp: lexes_def ret_def)

lemma lexes_error [simp]:
  "lexes t (error_token u m) \<longleftrightarrow> fwd t u \<and> t_start u = t_start t \<and> t_pos u \<le> t_end t"
  by (auto simp: lexes_def overrun_type_def fwd_def)

lemma lexes_set_val [simp]:
  "lexes t (set_val v (make_token u ty), u) \<longleftrightarrow> lexes t (ret ty u)"
  by (auto simp: lexes_def ret_def)

text \<open>The loops: what they keep and where they stop.\<close>

lemma skip_blanks_frame [frame_simps]:
  "t_src (skip_blanks t) = t_src t" "t_end (skip_blanks t) = t_end t"
  "t_filename (skip_blanks t) = t_filename t" "t_start (skip_blanks t) = t_start t"
  "t_line (skip_blanks t) = t_line t"
  by (induction t rule: skip_blanks.induct; subst skip_blanks.simps; simp)+

lemma skip_blanks_pos: "t_pos t \<le> t_pos (skip_blanks t) \<and> t_pos (skip_blanks t) \<le> max (t_pos t) (t_end t)"
proof (induction t rule: skip_blanks.induct)
  case (1 t)
  then show ?case by (subst (1 2) skip_blanks.simps) auto
qed

lemma skip_line_frame [frame_simps]:
  "t_src (snd (skip_line t)) = t_src t" "t_end (snd (skip_line t)) = t_end t"
  "t_filename (snd (skip_line t)) = t_filename t" "t_start (snd (skip_line t)) = t_start t"
  by (induction t rule: skip_line.induct; subst skip_line.simps; simp)+

lemma skip_line_pos: "t_pos t \<le> t_pos (snd (skip_line t)) \<and> t_pos (snd (skip_line t)) \<le> max (t_pos t) (t_end t)"
proof (induction t rule: skip_line.induct)
  case (1 t)
  then show ?case by (subst (1 2) skip_line.simps) auto
qed

lemma next_char_frame [frame_simps]:
  "t_src (snd (next_char t)) = t_src t" "t_end (snd (next_char t)) = t_end t"
  "t_filename (snd (next_char t)) = t_filename t" "t_start (snd (next_char t)) = t_start t"
  "t_pos (snd (next_char t)) = (if t_pos t < t_end t then t_pos t + 1 else t_pos t)"
  by (simp_all add: next_char_def Let_def)

lemma block_loop_frame [frame_simps]:
  "t_src (snd (block_loop d t)) = t_src t" "t_end (snd (block_loop d t)) = t_end t"
  "t_filename (snd (block_loop d t)) = t_filename t" "t_start (snd (block_loop d t)) = t_start t"
  by (induction d t rule: block_loop.induct; subst block_loop.simps; simp add: next_char_frame)+

lemma block_loop_pos:
  "t_pos t \<le> t_pos (snd (block_loop d t)) \<and> t_pos (snd (block_loop d t)) \<le> max (t_pos t) (t_end t)"
proof (induction d t rule: block_loop.induct)
  case (1 d t)
  then show ?case by (subst (1 2) block_loop.simps) (auto simp: next_char_frame)
qed

lemma string_loop_frame [frame_simps]:
  "t_src (string_loop t) = t_src t" "t_end (string_loop t) = t_end t"
  "t_filename (string_loop t) = t_filename t" "t_start (string_loop t) = t_start t"
  by (induction t rule: string_loop.induct; subst string_loop.simps; simp add: string_step_frame)+

lemma string_loop_pos: "t_pos t \<le> t_pos (string_loop t) \<and> t_pos (string_loop t) \<le> max (t_pos t) (t_end t)"
proof (induction t rule: string_loop.induct)
  case (1 t)
  show ?case
  proof (cases "t_pos t < t_end t \<and> cur t \<noteq> DQUOTE")
    case True
    with 1 string_step_pos [of t] show ?thesis
      by (auto simp: string_loop.simps [of t] string_step_frame)
  next
    case False
    then show ?thesis by (auto simp: string_loop.simps [of t])
  qed
qed

lemma radix_loop_frame [frame_simps]:
  "t_src (snd (radix_loop k h v t)) = t_src t" "t_end (snd (radix_loop k h v t)) = t_end t"
  "t_filename (snd (radix_loop k h v t)) = t_filename t" "t_start (snd (radix_loop k h v t)) = t_start t"
  by (induction k h v t rule: radix_loop.induct; subst radix_loop.simps; simp)+

lemma radix_loop_pos:
  "t_pos t \<le> t_pos (snd (radix_loop k h v t)) \<and> t_pos (snd (radix_loop k h v t)) \<le> max (t_pos t) (t_end t)"
proof (induction k h v t rule: radix_loop.induct)
  case (1 k h v t)
  then show ?case by (subst (1 2) radix_loop.simps) auto
qed

lemma utf8_tail_frame [frame_simps]:
  "t_src (utf8_tail t) = t_src t" "t_end (utf8_tail t) = t_end t"
  "t_filename (utf8_tail t) = t_filename t" "t_start (utf8_tail t) = t_start t"
  by (induction t rule: utf8_tail.induct; subst utf8_tail.simps; simp)+

lemma utf8_tail_pos: "t_pos t \<le> t_pos (utf8_tail t) \<and> t_pos (utf8_tail t) \<le> max (t_pos t) (t_end t)"
proof (induction t rule: utf8_tail.induct)
  case (1 t)
  then show ?case by (subst (1 2) utf8_tail.simps) auto
qed

lemma op_ident_loop_frame [frame_simps]:
  "t_src (op_ident_loop t) = t_src t" "t_end (op_ident_loop t) = t_end t"
  "t_filename (op_ident_loop t) = t_filename t" "t_start (op_ident_loop t) = t_start t"
  by (induction t rule: op_ident_loop.induct; subst op_ident_loop.simps; simp)+

lemma op_ident_loop_pos: "t_pos t \<le> t_pos (op_ident_loop t) \<and> t_pos (op_ident_loop t) \<le> max (t_pos t) (t_end t)"
proof (induction t rule: op_ident_loop.induct)
  case (1 t)
  then show ?case by (subst (1 2) op_ident_loop.simps) auto
qed

section \<open>Every token scanner respects the frame\<close>

lemma find_KEYWORDS_KW: "List.find P KEYWORDS = Some e \<Longrightarrow> \<exists>k. snd e = KW k"
  by (metis KEYWORDS_KW find_Some_iff nth_mem)

lemma lexes_ident:
  assumes "t_start t = t_pos t - 1" "t_pos t \<le> t_end t"
  shows "lexes t (scan_ident_or_keyword t)"
proof -
  let ?p = "advance_while is_ident_continue (t_src t) (t_end t) (t_pos t)"
  have "t_pos t \<le> ?p" "?p \<le> t_end t"
    using advance_while_le [of is_ident_continue "t_src t" "t_end t" "t_pos t"] assms by auto
  then show ?thesis
    using assms by (auto simp: scan_ident_or_keyword_def Let_def fwd_def split: option.split
        dest!: find_KEYWORDS_KW)
qed

lemma lexes_hex:
  assumes "t_pos t \<le> t_start t + 2" "t_start t + 2 \<le> t_end t"
  shows "lexes t (scan_hex t)"
  using assms advance_while_le [of "\<lambda>c. c = CHR ''_'' \<or> is_hex_char c" "t_src t" "t_end t" "t_start t + 2"]
    advance_while_ge [of "t_start t + 2" "\<lambda>c. c = CHR ''_'' \<or> is_hex_char c" "t_src t" "t_end t"]
  by (auto simp: scan_hex_def Let_def fwd_def simp del: advance_while_ge)

lemma lexes_radix:
  assumes "t_pos t \<le> t_start t + 2" "t_start t + 2 \<le> t_end t"
  shows "lexes t (scan_radix k hi t)"
proof -
  let ?u = "t\<lparr>t_pos := t_start t + 2\<rparr>"
  have "t_start t + 2 \<le> t_pos (snd (radix_loop k hi 0 ?u))"
    "t_pos (snd (radix_loop k hi 0 ?u)) \<le> t_end t"
    using radix_loop_pos [of ?u k hi 0] assms by auto
  then show ?thesis
    using assms by (simp add: scan_radix_def Let_def fwd_def radix_loop_frame case_prod_beta)
qed

lemma scan_fraction_frame [frame_simps]:
  "t_src (snd (scan_fraction t)) = t_src t" "t_end (snd (scan_fraction t)) = t_end t"
  "t_filename (snd (scan_fraction t)) = t_filename t" "t_start (snd (scan_fraction t)) = t_start t"
  by (simp_all add: scan_fraction_def)

lemma scan_fraction_pos:
  assumes "t_pos t \<le> t_end t"
  shows "t_pos t \<le> t_pos (snd (scan_fraction t))" "t_pos (snd (scan_fraction t)) \<le> t_end t"
  using assms advance_while_le [of digit_or_us "t_src t" "t_end t" "t_pos t + 1"]
    advance_while_ge [of "t_pos t + 1" digit_or_us "t_src t" "t_end t"]
  by (auto simp: scan_fraction_def simp del: advance_while_ge)

lemma scan_exponent_frame [frame_simps]:
  "t_src (snd (scan_exponent t)) = t_src t" "t_end (snd (scan_exponent t)) = t_end t"
  "t_filename (snd (scan_exponent t)) = t_filename t" "t_start (snd (scan_exponent t)) = t_start t"
  by (simp_all add: scan_exponent_def Let_def)

lemma scan_exponent_pos:
  assumes "t_pos t \<le> t_end t"
  shows "t_pos t \<le> t_pos (snd (scan_exponent t))" "t_pos (snd (scan_exponent t)) \<le> t_end t"
  using assms advance_while_le [of digit_or_us "t_src t" "t_end t" "t_pos t + 1"]
    advance_while_le [of digit_or_us "t_src t" "t_end t" "t_pos t + 2"]
    advance_while_ge [of "t_pos t + 1" digit_or_us "t_src t" "t_end t"]
    advance_while_ge [of "t_pos t + 2" digit_or_us "t_src t" "t_end t"]
  by (auto simp: scan_exponent_def Let_def simp del: advance_while_ge)

lemma lexes_decimal:
  assumes "t_pos t \<le> t_end t"
  shows "lexes t (scan_decimal t)"
proof -
  let ?u = "t\<lparr>t_pos := advance_while digit_or_us (t_src t) (t_end t) (t_pos t)\<rparr>"
  let ?v = "snd (scan_fraction ?u)"
  have u: "t_pos t \<le> t_pos ?u" "t_pos ?u \<le> t_end ?u"
    using advance_while_le [of digit_or_us "t_src t" "t_end t" "t_pos t"] assms by auto
  have v: "t_pos ?u \<le> t_pos ?v" "t_pos ?v \<le> t_end ?v"
    using scan_fraction_pos [OF u(2)] by (auto simp: scan_fraction_frame)
  have w: "t_pos ?v \<le> t_pos (snd (scan_exponent ?v))" "t_pos (snd (scan_exponent ?v)) \<le> t_end t"
    using scan_exponent_pos [OF v(2)] by (auto simp: scan_fraction_frame)
  have "t_pos t \<le> t_pos (snd (scan_exponent ?v))"
    using u(1) v(1) w(1) by linarith
  with w(2) show ?thesis
    by (simp add: scan_decimal_def Let_def case_prod_beta fwd_def
        scan_fraction_frame scan_exponent_frame)
qed

text \<open>\<open>scan_number\<close> and its siblings are entered one byte after the first byte of the token.\<close>

lemma lexes_number:
  assumes "0 < t_pos t" "t_start t = t_pos t - 1" "t_pos t \<le> t_end t"
  shows "lexes t (scan_number t)"
proof -
  define u where "u = t\<lparr>t_start := t_pos t - 1\<rparr>"
  have eq: "u = t" using assms(2) by (simp add: u_def)
  have "lexes u (scan_number t)"
    unfolding scan_number_def Let_def u_def [symmetric]
    using assms by (simp add: eq) (auto intro!: lexes_hex lexes_radix lexes_decimal)
  then show ?thesis by (simp add: eq)
qed

lemma lexes_string:
  assumes "t_start t = t_pos t - 1" "t_pos t \<le> t_end t"
  shows "lexes t (scan_string t)"
  using string_loop_pos [of "t\<lparr>t_start := t_pos t - 1\<rparr>"] assms
  by (auto simp: scan_string_def fwd_def string_loop_frame)

lemma scan_escape_frame [frame_simps]:
  "t_src (snd (scan_escape t)) = t_src t" "t_end (snd (scan_escape t)) = t_end t"
  "t_filename (snd (scan_escape t)) = t_filename t" "t_start (snd (scan_escape t)) = t_start t"
  by (simp_all add: scan_escape_def Let_def)

lemma scan_escape_pos:
  assumes "t_pos t < t_end t"
  shows "t_pos t \<le> t_pos (snd (scan_escape t))" "t_pos (snd (scan_escape t)) \<le> t_end t"
  using assms by (simp_all add: scan_escape_def Let_def)

lemma scan_char_value_frame [frame_simps]:
  "t_src (snd (scan_char_value t)) = t_src t" "t_end (snd (scan_char_value t)) = t_end t"
  "t_filename (snd (scan_char_value t)) = t_filename t" "t_start (snd (scan_char_value t)) = t_start t"
  by (simp_all add: scan_char_value_def Let_def case_prod_beta scan_escape_frame)

lemma scan_char_value_pos:
  assumes "t_pos t \<le> t_end t"
  shows "t_pos t \<le> t_pos (snd (scan_char_value t))" "t_pos (snd (scan_char_value t)) \<le> t_end t + 1"
  using assms scan_escape_pos [of "adv 1 t"]
  by (auto simp: scan_char_value_def Let_def case_prod_beta)

lemma lexes_char:
  assumes "t_start t = t_pos t - 1" "t_pos t \<le> t_end t"
  shows "lexes t (scan_char t)"
  using assms scan_char_value_pos [of "t\<lparr>t_start := t_pos t - 1\<rparr>"]
  by (auto simp: scan_char_def Let_def case_prod_beta fwd_def scan_char_value_frame overrun_type_def)

lemma lexes_two_char: "t_pos t < t_end t \<Longrightarrow> scan_two_char c t = Some r \<Longrightarrow> lexes t r"
  unfolding scan_two_char_def Let_def
  by (simp split: if_split_asm) (auto simp: fwd_def)

lemma lexes_single_char: "t_pos t \<le> t_end t \<Longrightarrow> lexes t (scan_single_char c t)"
  using utf8_tail_pos [of "adv 1 t"]
  by (auto simp: scan_single_char_def fwd_def utf8_tail_frame overrun_type_def)

lemma lexes_operator: "t_pos t \<le> t_end t \<Longrightarrow> lexes t (scan_operator c t)"
  by (auto simp: scan_operator_def lexes_single_char intro: lexes_two_char split: option.split)

lemma lexes_op_ident: "t_pos t + 3 \<le> t_end t \<Longrightarrow> lexes t (scan_op_ident t)"
  using op_ident_loop_pos [of "adv 3 t"] by (auto simp: scan_op_ident_def fwd_def op_ident_loop_frame)

lemma lexes_hash: "t_pos t < t_end t \<Longrightarrow> lexes t (scan_hash t)"
  by (auto simp: scan_hash_def lexes_def fwd_def Let_def)

lemma lexes_adv:
  "lexes (adv k t) r \<Longrightarrow> lexes t r \<and> t_pos t + k \<le> t_pos (snd r)"
  by (auto simp: lexes_def fwd_def)

section \<open>One round, and the whole call\<close>

definition round_ok :: "Tokenizer \<Rightarrow> Tokenizer + Token \<times> Tokenizer \<Rightarrow> bool" where
  "round_ok t x = (case x of
      Inl t' \<Rightarrow> fwd t t' \<and> t_pos t < t_pos t' \<and> t_pos t' \<le> t_end t
    | Inr r \<Rightarrow> lexes t r \<and> t_pos t < t_pos (snd r))"

lemma round_ok_Inl [simp]:
  "round_ok t (Inl t') \<longleftrightarrow> fwd t t' \<and> t_pos t < t_pos t' \<and> t_pos t' \<le> t_end t"
  by (simp add: round_ok_def)

lemma round_ok_Inr [simp]: "round_ok t (Inr r) \<longleftrightarrow> lexes t r \<and> t_pos t < t_pos (snd r)"
  by (simp add: round_ok_def)

lemma round_ok_adv: "lexes (adv (Suc k) t) r \<Longrightarrow> round_ok t (Inr r)"
  using lexes_adv [of "Suc k" t r] by auto

lemma scan_comment_ok: "t_pos t + 2 \<le> t_end t \<Longrightarrow> round_ok t (Inl (scan_comment (adv 2 t)))"
  using skip_line_pos [of "adv 2 t"] by (auto simp: scan_comment_def fwd_def skip_line_frame)

lemma scan_block_comment_ok: "t_pos t + 2 \<le> t_end t \<Longrightarrow> round_ok t (scan_block_comment (adv 2 t))"
  using block_loop_pos [of "adv 2 t" 1]
  by (auto simp: scan_block_comment_def Let_def case_prod_beta fwd_def block_loop_frame)

lemma scan_slash_ok: "t_pos t < t_end t \<Longrightarrow> round_ok t (scan_slash t)"
  using round_ok_adv [of 0 t]
  by (auto simp: scan_slash_def scan_comment_ok scan_block_comment_ok simp del: round_ok_Inl round_ok_Inr)

lemma scan_token_ok:
  assumes "t_start t = t_pos t" "t_pos t < t_end t"
  shows "round_ok t (scan_token t)"
proof -
  have nl: "round_ok t (Inr (ret TOKEN_NEWLINE (t\<lparr>t_pos := t_pos t + 1, t_line := t_line t + 1, t_col := 1\<rparr>)))"
    using assms by (simp add: fwd_def)
  have op: "t_pos t + 2 < t_end t \<Longrightarrow> round_ok t (Inr (scan_op_ident t))"
    using lexes_op_ident [of t] op_ident_loop_pos [of "adv 3 t"] by (simp add: scan_op_ident_def)
  have hash: "round_ok t (Inr (scan_hash t))"
    using assms lexes_hash [of t] by (simp add: scan_hash_def Let_def)
  have bs: "round_ok t (Inr (ret (OP TOKEN_BACKSLASH) (adv 1 t)))"
    using assms by (auto intro!: round_ok_adv [of 0])
  have rest: "round_ok t (Inr (scan_ident_or_keyword (adv 1 t)))" "round_ok t (Inr (scan_number (adv 1 t)))"
    "round_ok t (Inr (scan_string (adv 1 t)))" "round_ok t (Inr (scan_char (adv 1 t)))"
    "round_ok t (Inr (scan_operator c (adv 1 t)))" for c
    using assms
    by (auto intro!: round_ok_adv [of 0] lexes_ident lexes_number lexes_string lexes_char lexes_operator
        simp del: round_ok_Inr)
  show ?thesis
    unfolding scan_token_def Let_def
    using nl op hash bs rest scan_slash_ok assms(2) by (simp only: if_split) blast
qed

lemma skip_blanks_stop: "t_pos (skip_blanks t) < t_end t \<Longrightarrow> cur (skip_blanks t) \<noteq> SPACE \<and> cur (skip_blanks t) \<noteq> TAB"
proof (induction t rule: skip_blanks.induct)
  case (1 t)
  then show ?case by (subst (asm) (2) skip_blanks.simps; subst (1 2 3 4) skip_blanks.simps) (auto split: if_splits)
qed

text \<open>A round that reaches a token starts it after the blanks; at the end of the input it is EOF.\<close>

lemma tok_step_cases:
  obtains (eof) u where "tok_step t = Inr (ret TOKEN_EOF u)" "fwd t u" "t_pos u \<le> max (t_pos t) (t_end t)" "t_end t \<le> t_pos u"
  | (token) u where "tok_step t = scan_token u" "fwd t u" "t_start u = t_pos u" "t_pos u < t_end t" "t_pos t < t_end t"
proof -
  let ?v = "skip_blanks (t\<lparr>t_start := t_pos t\<rparr>)"
  have v: "fwd t ?v" "t_pos ?v \<le> max (t_pos t) (t_end t)"
    using skip_blanks_pos [of "t\<lparr>t_start := t_pos t\<rparr>"] by (auto simp: fwd_def skip_blanks_frame)
  show thesis
  proof (cases "t_pos t < t_end t")
    case False
    then show thesis by (intro eof [of t]) (auto simp: tok_step_def)
  next
    case lt: True
    show thesis
    proof (cases "t_pos ?v \<ge> t_end t")
      case True
      then show thesis using lt v by (intro eof [of ?v]) (auto simp: tok_step_def Let_def skip_blanks_frame)
    next
      case False
      then show thesis using lt v
        by (intro token [of "?v\<lparr>t_start := t_pos ?v\<rparr>"]) (auto simp: tok_step_def Let_def skip_blanks_frame fwd_def)
    qed
  qed
qed

lemma fwd_lexes: "fwd t u \<Longrightarrow> lexes u r \<Longrightarrow> fwd t (snd r)"
  by (auto simp: fwd_def lexes_def)

lemma tok_step_Inl:
  assumes "tok_step t = Inl t'"
  shows "fwd t t'" "t_pos t < t_pos t'" "t_pos t' \<le> t_end t"
proof -
  from assms obtain u where u: "scan_token u = Inl t'" "fwd t u" "t_start u = t_pos u" "t_pos u < t_end t"
    by (cases t rule: tok_step_cases) auto
  then have "t_pos u < t_end u" by (simp add: fwd_def)
  from scan_token_ok [OF u(3) this] u show "fwd t t'" "t_pos t < t_pos t'" "t_pos t' \<le> t_end t"
    by (auto simp: fwd_def)
qed

function tokenizer_next :: "Tokenizer \<Rightarrow> Token \<times> Tokenizer" where
  "tokenizer_next t = (case tok_step t of Inl t' \<Rightarrow> tokenizer_next t' | Inr r \<Rightarrow> r)"
  by pat_completeness auto
termination
proof (relation "measure (\<lambda>t. t_end t - t_pos t)")
  fix t t'
  assume "tok_step t = Inl t'"
  from tok_step_Inl [OF this] show "(t', t) \<in> measure (\<lambda>t. t_end t - t_pos t)"
    by (auto simp: fwd_def)
qed simp

declare tokenizer_next.simps [simp del]

text \<open>
  Every call of \<open>tokenizer_next\<close> ends in one of two ways: the end of the input, or one scanned
  token whose round started at a state \<open>u\<close> at or after \<open>t\<close>, past blanks and comments.
\<close>

lemma tokenizer_next_cases:
  obtains (eof) u where "tokenizer_next t = ret TOKEN_EOF u" "fwd t u" "t_pos u \<le> max (t_pos t) (t_end t)" "t_end t \<le> t_pos u"
  | (token) u where "scan_token u = Inr (tokenizer_next t)" "fwd t u" "t_start u = t_pos u"
      "t_pos u < t_end t" "lexes u (tokenizer_next t)" "t_pos u < t_pos (snd (tokenizer_next t))"
proof (induction t arbitrary: thesis rule: tokenizer_next.induct)
  case (1 t)
  show ?case
  proof (cases t rule: tok_step_cases)
    case (eof u)
    then show ?thesis using "1.prems"(1) [of u] by (simp add: tokenizer_next.simps [of t])
  next
    case (token u)
    then have ok: "round_ok u (scan_token u)" by (intro scan_token_ok) (auto simp: fwd_def)
    show ?thesis
    proof (cases "scan_token u")
      case (Inr r)
      with token ok show ?thesis
        using "1.prems"(2) [of u] by (simp add: tokenizer_next.simps [of t])
    next
      case (Inl t')
      with token have step: "tok_step t = Inl t'" by simp
      then have eq: "tokenizer_next t = tokenizer_next t'" by (simp add: tokenizer_next.simps [of t])
      from tok_step_Inl [OF step] have t': "fwd t t'" "t_end t' = t_end t" "t_pos t' \<le> t_end t" by (auto simp: fwd_def)
      show ?thesis
      proof (rule "1.IH" [OF step])
        fix v
        assume "tokenizer_next t' = ret TOKEN_EOF v" "fwd t' v" "t_pos v \<le> max (t_pos t') (t_end t')" "t_end t' \<le> t_pos v"
        with t' eq show ?thesis by (intro "1.prems"(1) [of v]) (auto intro: fwd_trans)
      next
        fix v
        assume "scan_token v = Inr (tokenizer_next t')" "fwd t' v" "t_start v = t_pos v"
          "t_pos v < t_end t'" "lexes v (tokenizer_next t')" "t_pos v < t_pos (snd (tokenizer_next t'))"
        with t' eq show ?thesis by (intro "1.prems"(2) [of v]) (auto intro: fwd_trans)
      qed
    qed
  qed
qed

end
