(* ===== verification/Scanning.thy ===== *)
theory Scanning
  imports Tokenizer
begin

text \<open>
  What the scanner guarantees: progress, the place of every token in the buffer, the token types
  it can and cannot produce, identifiers and keywords, integer literals, and
  \<open>tokenizer_tokenize_all\<close>, whose loop ends because every token but EOF consumes a byte.
\<close>

section \<open>Progress and bounds\<close>

lemma tokenizer_next_frame: "fwd t (snd (tokenizer_next t))"
  by (cases t rule: tokenizer_next_cases) (auto intro: fwd_lexes)

lemma tokenizer_next_at_end: "t_end t \<le> t_pos t \<Longrightarrow> tokenizer_next t = ret TOKEN_EOF t"
  by (simp add: tokenizer_next.simps [of t] tok_step_def)

lemma tokenizer_next_eof:
  "tok_type (fst (tokenizer_next t)) = TOKEN_EOF \<Longrightarrow> t_end t \<le> t_pos (snd (tokenizer_next t))"
  by (cases t rule: tokenizer_next_cases) (auto simp: lexes_def)

lemma tokenizer_next_consumes:
  assumes "tok_type (fst (tokenizer_next t)) \<noteq> TOKEN_EOF"
  shows "t_pos t < t_pos (snd (tokenizer_next t))" "t_pos t < t_end t"
  using assms by (cases t rule: tokenizer_next_cases; auto simp: fwd_def)+

lemma tokenizer_next_decreases:
  assumes "tok_type (fst (tokenizer_next t)) \<noteq> TOKEN_EOF"
  shows "t_end (snd (tokenizer_next t)) - t_pos (snd (tokenizer_next t)) < t_end t - t_pos t"
  using tokenizer_next_consumes [OF assms] tokenizer_next_frame [of t] by (auto simp: fwd_def)

text \<open>The place of a token: where it starts and what its text is.\<close>

lemma tokenizer_next_span:
  assumes "tok_type (fst (tokenizer_next t)) \<noteq> TOKEN_EOF"
  obtains s where "t_pos t \<le> s" "s < t_pos (snd (tokenizer_next t))" "s < t_end t"
    "t_start (snd (tokenizer_next t)) = s"
    "tok_type (fst (tokenizer_next t)) \<notin> {TOKEN_ERROR, OP TOKEN_HASH} \<Longrightarrow>
       tok_text (fst (tokenizer_next t)) =
         sv_from_parts (drop s (t_src t)) (t_pos (snd (tokenizer_next t)) - s)"
proof (cases t rule: tokenizer_next_cases)
  case (eof u)
  with assms show thesis by simp
next
  case (token u)
  then show thesis
    by (intro that [of "t_pos u"]) (auto simp: lexes_def fwd_def token_view_def)
qed

lemma tokenizer_next_overrun:
  assumes "t_pos t \<le> t_end t"
  shows "t_pos (snd (tokenizer_next t)) \<le> t_end t + 1"
    "t_end t < t_pos (snd (tokenizer_next t)) \<Longrightarrow> overrun_type (tok_type (fst (tokenizer_next t)))"
  using assms by (cases t rule: tokenizer_next_cases; auto simp: lexes_def fwd_def)+

section \<open>Token types\<close>

definition produced_type :: "TokenType \<Rightarrow> bool" where
  "produced_type ty \<longleftrightarrow> ty \<notin> {TOKEN_INVALID, OP TOKEN_SLASH_EQ, OP TOKEN_PIPE_PIPE, OP TOKEN_PIPE_LAMBDA}"

lemma byte_not_PIPE_PIPE: "int (byte c) \<noteq> PIPE_PIPE_CONST"
  using byte_less [of c] by (simp add: PIPE_PIPE_CONST_def del: byte_less)

lemma produced_two_char:
  "c \<noteq> CHR ''/'' \<Longrightarrow> scan_two_char c t = Some r \<Longrightarrow> produced_type (tok_type (fst r))"
  unfolding scan_two_char_def Let_def
  by (simp add: byte_not_PIPE_PIPE split: if_split_asm) (auto simp: produced_type_def)

lemma produced_single_char: "produced_type (tok_type (fst (scan_single_char c t)))"
  by (simp add: scan_single_char_def produced_type_def)

lemma produced_operator: "c \<noteq> CHR ''/'' \<Longrightarrow> produced_type (tok_type (fst (scan_operator c t)))"
  by (auto simp: scan_operator_def produced_single_char dest: produced_two_char split: option.split)

lemma produced_number: "produced_type (tok_type (fst (scan_number t)))"
  by (simp add: scan_number_def scan_hex_def scan_radix_def scan_decimal_def Let_def case_prod_beta produced_type_def)

lemma produced_ident: "produced_type (tok_type (fst (scan_ident_or_keyword t)))"
  by (auto simp: scan_ident_or_keyword_def Let_def produced_type_def split: option.split dest!: find_KEYWORDS_KW)

lemma produced_scan_token:
  assumes "t_pos t < t_end t" "scan_token t = Inr r"
  shows "produced_type (tok_type (fst r))"
proof -
  have slash: "scan_slash t = Inr r \<Longrightarrow> cur t = CHR ''/'' \<Longrightarrow> produced_type (tok_type (fst r))"
    by (auto simp: scan_slash_def scan_block_comment_def Let_def case_prod_beta produced_type_def split: if_split_asm)
  show ?thesis
    using assms(2) slash produced_operator [of "cur t" "adv 1 t"] produced_number [of "adv 1 t"] produced_ident [of "adv 1 t"]
    unfolding scan_token_def Let_def
    by (auto simp: scan_hash_def scan_op_ident_def scan_string_def scan_char_def Let_def case_prod_beta
        produced_type_def [of "OP TOKEN_HASH"] produced_type_def [of "OP TOKEN_BACKSLASH"] produced_type_def [of TOKEN_IDENT]
        produced_type_def [of TOKEN_NEWLINE] produced_type_def [of TOKEN_STRING_LITERAL] produced_type_def [of TOKEN_CHAR_LITERAL]
        split: if_split_asm)
qed

section \<open>Identifiers and keywords\<close>

lemma tok_step_direct:
  assumes "t_pos t < t_end t" "cur t \<noteq> SPACE" "cur t \<noteq> TAB"
  shows "tok_step t = scan_token (t\<lparr>t_start := t_pos t\<rparr>)"
  using assms by (simp add: tok_step_def Let_def skip_blanks.simps [of "t\<lparr>t_start := t_pos t\<rparr>"])

lemma ident_start_not_special:
  assumes "is_ident_start c"
  shows "c \<notin> {SPACE, TAB, NL, BSLASH, CHR ''/'', CHR ''#'', DQUOTE, SQUOTE}" "\<not> c_isdigit c"
  using assms by (auto simp: is_ident_start_def ctype_defs)

lemma ident_start_continue: "is_ident_start c \<Longrightarrow> is_ident_continue c"
  by (auto simp: is_ident_start_def is_ident_continue_def c_isalnum_def)

lemma find_map_of:
  "(case List.find (\<lambda>e. fst e = w) es of Some e \<Rightarrow> f (snd e) | None \<Rightarrow> z) =
   (case map_of es w of Some v \<Rightarrow> f v | None \<Rightarrow> z)"
  by (induction es) (auto)

text \<open>The type of a word: its keyword, or an identifier.\<close>

definition word_type :: "string \<Rightarrow> TokenType" where
  "word_type w = (case map_of KEYWORDS w of Some ty \<Rightarrow> ty | None \<Rightarrow> TOKEN_IDENT)"

definition ident_word :: "string \<Rightarrow> bool" where
  "ident_word w \<longleftrightarrow> w \<noteq> [] \<and> is_ident_start (hd w) \<and> list_all is_ident_continue w \<and> take 3 w \<noteq> ''op_''"

definition word_boundary :: "string \<Rightarrow> bool" where
  "word_boundary r \<longleftrightarrow> r = [] \<or> \<not> is_ident_continue (hd r)"

lemma advance_while_word:
  assumes "xs = pre @ w @ rest" "list_all P w" "rest = [] \<or> \<not> P (hd rest)" "i \<le> length w"
  shows "advance_while P xs (length xs) (length pre + i) = length pre + length w"
proof (rule advance_while_eqI)
  fix k assume k: "length pre + i \<le> k" "k < length pre + length w"
  then have "k - length pre < length w" by linarith
  with k have "xs ! k = w ! (k - length pre)" using assms(1) by (simp add: nth_append)
  with k assms(2) show "P (xs ! k)" by (simp add: list_all_length)
next
  assume "length pre + length w < length xs"
  then show "\<not> P (xs ! (length pre + length w))"
    using assms(1,3) by (auto simp: nth_append hd_conv_nth)
qed (use assms in auto)

lemma scan_ident_word:
  assumes src: "t_src t = pre @ w @ rest" and pos: "t_pos t = length pre + 1" and fin: "t_end t = length (t_src t)"
    and w: "w \<noteq> []" "list_all is_ident_continue w" and b: "word_boundary rest"
  shows "scan_ident_or_keyword t =
    ret (word_type w) (t\<lparr>t_start := length pre, t_pos := length pre + length w\<rparr>)"
proof -
  have adv: "advance_while is_ident_continue (t_src t) (t_end t) (Suc (length pre)) = length pre + length w"
    using advance_while_word [OF src w(2), of 1] b w(1) fin
    by (simp add: word_boundary_def Suc_le_eq)
  have word: "sv_ok (sv_from_parts (w @ rest) (length w))"
    by (simp add: sv_ok_def)
  have drop: "drop (length pre) (t_src t) = w @ rest"
    by (simp add: src)
  have eqs: "(\<lambda>e. sv_eq_cstr (sv_from_parts (w @ rest) (length w)) (fst e)) = (\<lambda>e. fst e = w)"
    using sv_eq_cstr_iff [OF word] by (auto simp: fun_eq_iff)
  have "word_type w = (case List.find (\<lambda>e. fst e = w) KEYWORDS of Some e \<Rightarrow> snd e | None \<Rightarrow> TOKEN_IDENT)"
    unfolding word_type_def by (rule find_map_of [symmetric])
  then show ?thesis
    by (simp add: scan_ident_or_keyword_def Let_def pos adv drop eqs split: option.split)
qed

lemma tokenizer_next_word:
  assumes src: "t_src t = pre @ w @ rest" and pos: "t_pos t = length pre" and fin: "t_end t = length (t_src t)"
    and w: "ident_word w" and b: "word_boundary rest"
  shows "tokenizer_next t =
    ret (word_type w) (t\<lparr>t_col := t_col t + 1, t_start := length pre, t_pos := length pre + length w\<rparr>)"
proof -
  let ?u = "t\<lparr>t_start := t_pos t\<rparr>"
  obtain c w' where w': "w = c # w'" using w by (auto simp: ident_word_def neq_Nil_conv)
  have lt: "t_pos t < t_end t" and cur: "cur t = c" using src pos fin w' by simp_all
  have start: "is_ident_start c" using w w' by (simp add: ident_word_def)
  have no_op: "\<not> (c = CHR ''o'' \<and> t_pos t + 2 < t_end t \<and> ahead t 1 = CHR ''p'' \<and> ahead t 2 = CHR ''_'')"
  proof (rule notI, elim conjE)
    assume c: "c = CHR ''o''" and a: "t_pos t + 2 < t_end t" "ahead t 1 = CHR ''p''" "ahead t 2 = CHR ''_''"
    have cont: "is_ident_continue (CHR ''p'')" "is_ident_continue (CHR ''_'')"
      by (simp_all add: is_ident_continue_def ctype_defs)
    have at: "ahead t k = (w @ rest) ! k" for k using src pos by (simp add: nth_append)
    have "2 \<le> length w"
    proof (rule ccontr)
      assume "\<not> 2 \<le> length w"
      then have "length w = 1" using w' by (cases w') simp_all
      then have "ahead t 1 = hd rest" "rest \<noteq> []" using at [of 1] a(1) src pos fin
        by (cases rest; auto simp: nth_append)+
      with a(2) cont(1) b show False by (auto simp: word_boundary_def)
    qed
    moreover have "length w \<noteq> 2"
    proof
      assume "length w = 2"
      then have "ahead t 2 = hd rest" "rest \<noteq> []" using at [of 2] a(1) src pos fin
        by (cases rest; auto simp: nth_append)+
      with a(3) cont(2) b show False by (auto simp: word_boundary_def)
    qed
    ultimately have "3 \<le> length w" by simp
    then obtain x y w'' where "w = c # x # y # w''" using w' by (cases w'; cases "tl w'") auto
    with at [of 1] at [of 2] a c w show False by (auto simp: ident_word_def)
  qed
  have "scan_token ?u = Inr (scan_ident_or_keyword (adv 1 ?u))"
    using ident_start_not_special [OF start] start no_op cur by (auto simp: scan_token_def Let_def)
  moreover have "scan_ident_or_keyword (adv 1 ?u) =
      ret (word_type w) ((adv 1 ?u)\<lparr>t_start := length pre, t_pos := length pre + length w\<rparr>)"
    using src pos fin w b by (intro scan_ident_word [where rest = rest]) (auto simp: ident_word_def)
  ultimately show ?thesis
    using tok_step_direct [OF lt] ident_start_not_special [OF start] cur
    by (simp add: tokenizer_next.simps [of t] adv_def)
qed

section \<open>Integer literals\<close>

text \<open>A decimal literal is read up to the first byte that could belong to a number.\<close>

definition number_boundary :: "string \<Rightarrow> bool" where
  "number_boundary r \<longleftrightarrow> r = [] \<or> (\<not> is_ident_continue (hd r) \<and> hd r \<noteq> CHR ''.'')"

lemma digit_not_ident_start: "c_isdigit c \<Longrightarrow> \<not> is_ident_start c \<and> c \<notin> {SPACE, TAB, NL, BSLASH, CHR ''/'', CHR ''#'', CHR ''o''}"
  by (auto simp: is_ident_start_def ctype_defs)

lemma digit_or_us_continue: "digit_or_us c \<Longrightarrow> is_ident_continue c"
  by (auto simp: is_ident_continue_def ctype_defs)

lemma letters_continue: "is_ident_continue (CHR ''e'')" "is_ident_continue (CHR ''E'')" "is_ident_continue (CHR ''x'')"
  "is_ident_continue (CHR ''X'')" "is_ident_continue (CHR ''b'')" "is_ident_continue (CHR ''B'')"
  "is_ident_continue (CHR ''o'')" "is_ident_continue (CHR ''O'')"
  by (simp_all add: is_ident_continue_def ctype_defs)

lemma scan_decimal_digits:
  assumes src: "t_src t = pre @ w @ rest" and pos: "t_pos t = length pre + 1" and fin: "t_end t = length (t_src t)"
    and st: "t_start t = length pre" and w: "w \<noteq> []" "list_all digit_or_us w" and b: "number_boundary rest"
  defines "u \<equiv> t\<lparr>t_pos := length pre + length w\<rparr>"
  shows "scan_decimal t =
    (set_val (IntVal (strtoull 10 (take 30 (filter (\<lambda>c. c \<noteq> CHR ''_'') w)))) (make_token u TOKEN_INT_LITERAL), u)"
proof -
  have "rest = [] \<or> \<not> digit_or_us (hd rest)"
    using b digit_or_us_continue by (auto simp: number_boundary_def)
  then have adv: "advance_while digit_or_us (t_src t) (t_end t) (Suc (length pre)) = length pre + length w"
    using advance_while_word [OF src w(2), of 1] w(1) fin by (simp add: Suc_le_eq)
  have nxt: "t_pos u < t_end u \<Longrightarrow> cur u \<noteq> CHR ''.'' \<and> cur u \<noteq> CHR ''e'' \<and> cur u \<noteq> CHR ''E''"
    using b src fin letters_continue by (cases rest) (auto simp: u_def number_boundary_def nth_append)
  have frac: "scan_fraction u = (False, u)" and expo: "scan_exponent u = (False, u)"
    using nxt by (auto simp: scan_fraction_def scan_exponent_def)
  have clean: "clean_digits (t_src t) (length pre) (length pre + length w) = take 30 (filter (\<lambda>c. c \<noteq> CHR ''_'') w)"
    by (simp add: clean_digits_def subbytes_def src)
  have u: "t\<lparr>t_pos := advance_while digit_or_us (t_src t) (t_end t) (t_pos t)\<rparr> = u"
    using adv by (simp add: pos u_def)
  show ?thesis
    unfolding scan_decimal_def Let_def u frac expo prod.case
    using clean by (simp add: u_def st)
qed

lemma tokenizer_next_decimal:
  assumes src: "t_src t = pre @ w @ rest" and pos: "t_pos t = length pre" and fin: "t_end t = length (t_src t)"
    and w: "w \<noteq> []" "c_isdigit (hd w)" "list_all digit_or_us w" and b: "number_boundary rest"
  defines "u \<equiv> t\<lparr>t_start := length pre, t_col := t_col t + 1, t_pos := length pre + length w\<rparr>"
  shows "tokenizer_next t =
    (set_val (IntVal (strtoull 10 (take 30 (filter (\<lambda>c. c \<noteq> CHR ''_'') w)))) (make_token u TOKEN_INT_LITERAL), u)"
proof -
  let ?u = "t\<lparr>t_start := t_pos t\<rparr>"
  obtain c w' where w': "w = c # w'" using w by (auto simp: neq_Nil_conv)
  have lt: "t_pos t < t_end t" and cur: "cur t = c" using src pos fin w' by simp_all
  have c: "c_isdigit c" using w w' by simp
  have step: "scan_token ?u = Inr (scan_number (adv 1 ?u))"
    using digit_not_ident_start [OF c] c cur by (simp add: scan_token_def Let_def)
  have start: "(adv 1 ?u)\<lparr>t_start := t_pos (adv 1 ?u) - 1\<rparr> = adv 1 ?u"
    by (simp add: adv_def)
  have nx: "length pre + 1 < t_end t \<Longrightarrow> t_src t ! (length pre + 1) \<notin>
      {CHR ''x'', CHR ''X'', CHR ''b'', CHR ''B'', CHR ''o'', CHR ''O''}"
  proof (cases w')
    case Nil
    then show "length pre + 1 < t_end t \<Longrightarrow> t_src t ! (length pre + 1) \<notin>
      {CHR ''x'', CHR ''X'', CHR ''b'', CHR ''B'', CHR ''o'', CHR ''O''}"
      using b letters_continue src fin w' by (cases rest) (auto simp: nth_append number_boundary_def)
  next
    case (Cons d ds)
    then have "digit_or_us d" "t_src t ! (length pre + 1) = d" using w(3) w' src by (auto simp: nth_append)
    then show "length pre + 1 < t_end t \<Longrightarrow> t_src t ! (length pre + 1) \<notin>
      {CHR ''x'', CHR ''X'', CHR ''b'', CHR ''B'', CHR ''o'', CHR ''O''}"
      by (auto simp: ctype_defs)
  qed
  have num: "scan_number (adv 1 ?u) = scan_decimal (adv 1 ?u)"
    unfolding scan_number_def start Let_def using nx pos by auto
  have "scan_decimal (adv 1 ?u) =
    (set_val (IntVal (strtoull 10 (take 30 (filter (\<lambda>c. c \<noteq> CHR ''_'') w))))
      (make_token ((adv 1 ?u)\<lparr>t_pos := length pre + length w\<rparr>) TOKEN_INT_LITERAL), (adv 1 ?u)\<lparr>t_pos := length pre + length w\<rparr>)"
    using src pos fin w b by (intro scan_decimal_digits [where rest = rest]) auto
  with step num show ?thesis
    using tok_step_direct [OF lt] digit_not_ident_start [OF c] cur
    by (simp add: tokenizer_next.simps [of t] adv_def u_def pos)
qed

section \<open>\<open>tokenizer_tokenize_all\<close>\<close>

text \<open>
  \<open>alloc 0\<close> says whether creating the vector succeeds, \<open>alloc (n + 1)\<close> whether the push of token
  \<open>n\<close> does; a failed allocation returns \<open>NULL\<close>.
\<close>

function tokenize_loop :: "(nat \<Rightarrow> bool) \<Rightarrow> Token list \<Rightarrow> Tokenizer \<Rightarrow> (Token list \<times> Tokenizer) option" where
  "tokenize_loop alloc acc t =
     (let tok = fst (tokenizer_next t); t' = snd (tokenizer_next t)
      in if \<not> alloc (Suc (length acc)) then None
         else if tok_type tok = TOKEN_EOF \<or> tok_type tok = TOKEN_ERROR then Some (acc @ [tok], t')
         else tokenize_loop alloc (acc @ [tok]) t')"
  by pat_completeness auto
termination
proof (relation "measure (\<lambda>(alloc, acc, t). t_end t - t_pos t)")
  fix alloc acc t tok t'
  assume *: "tok = fst (tokenizer_next t)" "t' = snd (tokenizer_next t)" "\<not> (tok_type tok = TOKEN_EOF \<or> tok_type tok = TOKEN_ERROR)"
  then show "((alloc, acc @ [tok], t'), (alloc, acc, t)) \<in> measure (\<lambda>(alloc, acc, t). t_end t - t_pos t)"
    using tokenizer_next_decreases [of t] by simp
qed simp

declare tokenize_loop.simps [simp del]

definition tokenizer_tokenize_all :: "(nat \<Rightarrow> bool) \<Rightarrow> Tokenizer \<Rightarrow> (Token list \<times> Tokenizer) option" where
  "tokenizer_tokenize_all alloc t = (if alloc 0 then tokenize_loop alloc [] t else None)"

text \<open>The run of the loop as a step relation: tokens up to and including the first EOF or ERROR.\<close>

definition final_type :: "TokenType \<Rightarrow> bool" where
  "final_type ty \<longleftrightarrow> ty = TOKEN_EOF \<or> ty = TOKEN_ERROR"

inductive scans :: "Tokenizer \<Rightarrow> Token list \<Rightarrow> Tokenizer \<Rightarrow> bool" where
  stop: "tokenizer_next t = (tok, t') \<Longrightarrow> final_type (tok_type tok) \<Longrightarrow> scans t [tok] t'"
| more: "tokenizer_next t = (tok, t') \<Longrightarrow> \<not> final_type (tok_type tok) \<Longrightarrow> scans t' toks u \<Longrightarrow> scans t (tok # toks) u"

inductive_cases scans_NilE: "scans t [] u"
inductive_cases scans_ConsE: "scans t (tok # toks) u"

lemma tokenize_loop_scans:
  "alloc = (\<lambda>_. True) \<Longrightarrow> \<exists>toks u. tokenize_loop alloc acc t = Some (acc @ toks, u) \<and> scans t toks u"
proof (induction alloc acc t rule: tokenize_loop.induct)
  case (1 alloc acc t)
  obtain tok t' where nx: "tokenizer_next t = (tok, t')" by force
  show ?case
  proof (cases "final_type (tok_type tok)")
    case True
    with nx "1.prems" have "tokenize_loop alloc acc t = Some (acc @ [tok], t')"
      unfolding tokenize_loop.simps [of alloc acc t] by (simp add: final_type_def)
    moreover from nx True have "scans t [tok] t'" by (rule scans.stop)
    ultimately show ?thesis by blast
  next
    case False
    have "\<exists>toks u. tokenize_loop alloc (acc @ [tok]) t' = Some ((acc @ [tok]) @ toks, u) \<and> scans t' toks u"
      by (rule "1.IH") (use nx False "1.prems" in \<open>simp_all add: final_type_def\<close>)
    then obtain toks u
      where "tokenize_loop alloc (acc @ [tok]) t' = Some ((acc @ [tok]) @ toks, u)" "scans t' toks u"
      by blast
    moreover have "tokenize_loop alloc acc t = tokenize_loop alloc (acc @ [tok]) t'"
      using False nx "1.prems" unfolding tokenize_loop.simps [of alloc acc t] by (simp add: final_type_def)
    ultimately have "tokenize_loop alloc acc t = Some (acc @ tok # toks, u)" "scans t (tok # toks) u"
      using nx False by (auto intro: scans.more)
    then show ?thesis by blast
  qed
qed

lemma scans_deterministic: "scans t toks u \<Longrightarrow> scans t toks' u' \<Longrightarrow> toks' = toks \<and> u' = u"
proof (induction arbitrary: toks' u' rule: scans.induct)
  case (stop t tok t')
  from stop.prems stop.hyps show ?case by (cases rule: scans.cases) simp_all
next
  case (more t tok t' toks u)
  from more.prems show ?case
  proof (cases rule: scans.cases)
    case (stop tok2)
    with more.hyps show ?thesis by simp
  next
    case (more tok2 t2 toks2)
    with \<open>tokenizer_next t = (tok, t')\<close> have "tok2 = tok" "scans t' toks2 u'" by simp_all
    with \<open>\<And>toks' u'. scans t' toks' u' \<Longrightarrow> toks' = toks \<and> u' = u\<close> more(1) show ?thesis by blast
  qed
qed

lemma tokenize_all_scans: "tokenizer_tokenize_all (\<lambda>_. True) t = Some (toks, u) \<longleftrightarrow> scans t toks u"
  using tokenize_loop_scans [OF refl, of "[]" t]
  by (auto simp: tokenizer_tokenize_all_def dest: scans_deterministic)

lemma scans_last: "scans t toks u \<Longrightarrow> toks \<noteq> [] \<and> final_type (tok_type (last toks)) \<and>
    (\<forall>tok \<in> set (butlast toks). \<not> final_type (tok_type tok))"
  by (induction rule: scans.induct) auto

lemma scans_length: "scans t toks u \<Longrightarrow> length toks \<le> Suc (t_end t - t_pos t)"
proof (induction rule: scans.induct)
  case (more t tok t' toks u)
  then show ?case
    using tokenizer_next_decreases [of t] by (simp add: final_type_def)
qed simp

text \<open>Token spans: consecutive, non-empty, inside the buffer.\<close>

fun increasing :: "nat \<Rightarrow> (nat \<times> nat) list \<Rightarrow> bool" where
  "increasing p [] \<longleftrightarrow> True"
| "increasing p ((s, e) # sp) \<longleftrightarrow> p \<le> s \<and> s < e \<and> increasing e sp"

definition spells :: "string \<Rightarrow> Token \<Rightarrow> nat \<times> nat \<Rightarrow> bool" where
  "spells src tok se \<longleftrightarrow> tok_type tok \<noteq> OP TOKEN_HASH \<longrightarrow>
     tok_text tok = sv_from_parts (drop (fst se) src) (snd se - fst se)"

lemma scans_spans: "scans t toks u \<Longrightarrow>
    \<exists>sp. increasing (t_pos t) sp \<and> list_all2 (spells (t_src t)) (butlast toks) sp"
proof (induction rule: scans.induct)
  case (stop t tok t')
  show ?case by (intro exI [of _ "[]"]) simp
next
  case (more t tok t' toks u)
  then obtain sp where sp: "increasing (t_pos t') sp" "list_all2 (spells (t_src t')) (butlast toks) sp"
    by blast
  have ne: "tok_type (fst (tokenizer_next t)) \<noteq> TOKEN_EOF" using more by (simp add: final_type_def)
  obtain s where s: "t_pos t \<le> s" "s < t_pos t'" "spells (t_src t) tok (s, t_pos t')"
    using tokenizer_next_span [OF ne] more.hyps by (auto simp: spells_def final_type_def)
  have "t_src t' = t_src t" using tokenizer_next_frame [of t] more.hyps by (simp add: fwd_def)
  moreover have "toks \<noteq> []" using scans_last [OF more.hyps(3)] by simp
  ultimately show ?case
    using s sp by (intro exI [of _ "(s, t_pos t') # sp"]) simp
qed

section \<open>Properties of the scanner\<close>

text \<open>C12: when the allocations succeed \<open>tokenizer_tokenize_all\<close> returns, on every buffer: the vector
  is not empty, its last token is EOF or ERROR, no other token is, and it holds at most one token
  more than there are bytes left.\<close>
theorem tokenize_all_total:
  "\<exists>toks u. tokenizer_tokenize_all (\<lambda>_. True) t = Some (toks, u) \<and> toks \<noteq> [] \<and>
     tok_type (last toks) \<in> {TOKEN_EOF, TOKEN_ERROR} \<and>
     list_all (\<lambda>tok. tok_type tok \<notin> {TOKEN_EOF, TOKEN_ERROR}) (butlast toks) \<and>
     length toks \<le> Suc (t_end t - t_pos t)"
proof -
  obtain toks u where "tokenizer_tokenize_all (\<lambda>_. True) t = Some (toks, u)" "scans t toks u"
    using tokenize_loop_scans [OF refl, of "[]" t] by (auto simp: tokenizer_tokenize_all_def)
  then show ?thesis
    using scans_last [of t toks u] scans_length [of t toks u]
    by (auto simp: final_type_def list_all_iff)
qed

text \<open>C13: the tokens of \<open>tokenizer_tokenize_all\<close> stand in the source in order: there are consecutive
  non-empty spans, one per token before the final one, and the text of each token (but \<open>#\<close>, whose
  text is a literal) is a view of its span.\<close>
theorem tokens_in_source_order:
  "\<exists>toks u sp. tokenizer_tokenize_all (\<lambda>_. True) t = Some (toks, u) \<and> increasing (t_pos t) sp \<and>
     list_all2 (spells (t_src t)) (butlast toks) sp"
proof -
  obtain toks u where "tokenizer_tokenize_all (\<lambda>_. True) t = Some (toks, u)" "scans t toks u"
    using tokenize_loop_scans [OF refl, of "[]" t] by (auto simp: tokenizer_tokenize_all_def)
  with scans_spans show ?thesis by blast
qed

text \<open>C27: \<open>tokenizer_next\<close> started inside the buffer leaves it by at most one byte, and only for a
  character literal or a non-ASCII operator: their scanners advance once without testing \<open>end\<close>.\<close>
theorem tokenizer_next_bounds:
  assumes "t_pos t \<le> t_end t"
  shows "t_pos t \<le> t_pos (snd (tokenizer_next t)) \<and> t_pos (snd (tokenizer_next t)) \<le> t_end t + 1 \<and>
    (tok_type (fst (tokenizer_next t)) \<notin> {TOKEN_CHAR_LITERAL, OP TOKEN_UNICODE_OP} \<longrightarrow>
       t_pos (snd (tokenizer_next t)) \<le> t_end t)"
  using tokenizer_next_overrun [OF assms] tokenizer_next_frame [of t]
  by (auto simp: fwd_def overrun_type_def simp flip: not_less)

text \<open>The bound is reached: one byte of UTF-8 at the very end makes a token of two bytes.\<close>
theorem tokenizer_next_bounds_witness:
  "let t = tokenizer_create [CHR 0xC3] 1 None; u = snd (tokenizer_next t) in
     t_pos t \<le> t_end t \<and> t_pos u = t_end t + 1 \<and> t_pos u \<le> t_end t + 1"
proof -
  let ?t = "tokenizer_create [CHR 0xC3] 1 None"
  have "t_pos ?t \<le> t_end ?t" by (simp add: tokenizer_create_def)
  from tokenizer_next_bounds [OF this]
  show ?thesis
    by (simp add: Let_def tokenizer_create_def tokenizer_next.simps tok_step_def skip_blanks.simps scan_token_def
        scan_operator_def scan_single_char_def utf8_tail.simps adv_def ret_def is_ident_start_def ctype_defs)
qed

text \<open>The scanner never produces the types \<open>/=\<close>, \<open>||\<close>, the lambda bar or INVALID, whatever the
  source: the test for \<open>/=\<close> looks at the slash itself, and the one for \<open>||\<close> compares a byte with a
  two-character constant.\<close>
theorem tokenizer_never_produces:
  "tok_type (fst (tokenizer_next t)) \<notin>
     {TOKEN_INVALID, OP TOKEN_SLASH_EQ, OP TOKEN_PIPE_PIPE, OP TOKEN_PIPE_LAMBDA}"
proof (cases t rule: tokenizer_next_cases)
  case (token u)
  then have "t_pos u < t_end u" by (simp add: fwd_def)
  from produced_scan_token [OF this token(1)] show ?thesis by (simp add: produced_type_def)
qed simp

text \<open>C19: a maximal run of identifier bytes that starts like an identifier (and not with the operator
  prefix) is one token, of the type the keyword table gives the word, or IDENT; its text is the word.\<close>
theorem word_token:
  assumes "t_src t = pre @ w @ rest" "t_pos t = length pre" "t_end t = length (t_src t)"
    and "ident_word w" "word_boundary rest"
  shows "tok_type (fst (tokenizer_next t)) = (case map_of KEYWORDS w of Some ty \<Rightarrow> ty | None \<Rightarrow> TOKEN_IDENT) \<and>
    sv_bytes (tok_text (fst (tokenizer_next t))) = w \<and> t_pos (snd (tokenizer_next t)) = length pre + length w"
  using tokenizer_next_word [OF assms] assms(1) by (simp add: word_type_def token_view_def)

theorem word_token_witness:
  "let r = tokenizer_next (tokenizer_create ''mut+1'' 5 None) in
     tok_type (fst r) = KW TOKEN_KW_MUT \<and> sv_bytes (tok_text (fst r)) = ''mut''"
proof -
  have w: "ident_word ''mut''" "word_boundary ''+1''"
    by (simp_all add: ident_word_def word_boundary_def is_ident_start_def is_ident_continue_def ctype_defs)
  show ?thesis
    using word_token [of "tokenizer_create ''mut+1'' 5 None" "[]" "''mut''" "''+1''", OF _ _ _ w]
    by (simp add: tokenizer_create_def Let_def KEYWORDS_def)
qed

text \<open>C18: a decimal integer below \<open>2^64\<close>, printed in decimal, is scanned back to its value.\<close>
theorem decimal_literal_roundtrip:
  assumes "n < 2 ^ 64" "t_src t = pre @ fmt_nat 10 n @ rest" "t_pos t = length pre"
    and "t_end t = length (t_src t)" "number_boundary rest"
  shows "tok_type (fst (tokenizer_next t)) = TOKEN_INT_LITERAL \<and>
    tok_val (fst (tokenizer_next t)) = IntVal (of_nat n) \<and>
    sv_bytes (tok_text (fst (tokenizer_next t))) = fmt_nat 10 n"
proof -
  let ?w = "fmt_nat 10 n"
  have digit: "c_isdigit c" if "c \<in> set ?w" for c
    using fmt_nat_digits [OF _ _ that] by auto
  then have w: "c_isdigit (hd ?w)" "list_all digit_or_us ?w" by (auto simp: list_all_iff)
  have "filter (\<lambda>c. c \<noteq> CHR ''_'') ?w = ?w"
    by (rule filter_True) (use digit [of "CHR ''_''"] in \<open>auto simp: ctype_defs\<close>)
  moreover have "length ?w \<le> 30" using assms(1) by (intro fmt_nat_length) simp_all
  ultimately show ?thesis
    using tokenizer_next_decimal [OF assms(2,3,4) _ w assms(5)] strtoull_fmt_nat [of 10 n] assms(1,2)
    by (simp add: token_view_def)
qed

theorem decimal_literal_roundtrip_witness:
  "tok_val (fst (tokenizer_next (tokenizer_create (fmt_nat 10 1024) (length (fmt_nat 10 1024)) None))) = IntVal 1024"
  using decimal_literal_roundtrip
    [of 1024 "tokenizer_create (fmt_nat 10 1024) (length (fmt_nat 10 1024)) None" "[]" "[]"]
  by (simp add: tokenizer_create_def number_boundary_def)

text \<open>The keyword table is a bijection between its words and the keyword types: words and types
  are distinct, every keyword type has an entry, and \<open>token_type_name\<close> gives the word back, but for \<open>as\<close>.\<close>
theorem keyword_table_bijective:
  "distinct (map fst KEYWORDS) \<and> distinct (map snd KEYWORDS) \<and> KW k \<in> set (map snd KEYWORDS) \<and>
   list_all (\<lambda>(w, ty). token_type_name ty = (if w = ''as'' then ''UNKNOWN'' else w)) KEYWORDS"
  using distinct_keyword_words distinct_keyword_types KEYWORDS_complete [of k]
  by (simp add: KEYWORDS_def)

end
