(* ===== verification/Lexer.thy ===== *)
theory Lexer
  imports Scanning
begin

text \<open>
  The two-token look-ahead buffer of \<open>src/lexer.c\<close> over the scanner.  Its abstract contract is the
  locale \<open>lookahead\<close>: a buffer stands for an infinite stream of tokens (\<open>view\<close>), peeking does not
  change the stream and advancing drops its head.  \<open>eof_lookahead\<close> adds that EOF repeats.  Both are
  interpreted on the buffer, and \<open>lexer_sync_to\<close> is shown to stop at the first target.
\<close>

section \<open>The contract\<close>

locale lookahead =
  fixes peek :: "'l \<Rightarrow> 'tok \<times> 'l"
    and advance :: "'l \<Rightarrow> 'tok \<times> 'l"
    and view :: "'l \<Rightarrow> nat \<Rightarrow> 'tok"
    and inv :: "'l \<Rightarrow> bool"
    and ready :: "'l \<Rightarrow> bool"
  assumes peek_val: "inv l \<Longrightarrow> fst (peek l) = view l 0"
    and peek_view: "inv l \<Longrightarrow> view (snd (peek l)) = view l"
    and peek_inv: "inv l \<Longrightarrow> inv (snd (peek l))"
    and peek_ready: "ready (snd (peek l))"
    and advance_val: "inv l \<Longrightarrow> ready l \<Longrightarrow> fst (advance l) = view l 0"
    and advance_view: "inv l \<Longrightarrow> ready l \<Longrightarrow> view (snd (advance l)) = (\<lambda>n. view l (Suc n))"
    and advance_inv: "inv l \<Longrightarrow> inv (snd (advance l))"

text \<open>A client: take \<open>n\<close> tokens by peeking and advancing.\<close>

fun drain :: "('l \<Rightarrow> 'tok \<times> 'l) \<Rightarrow> ('l \<Rightarrow> 'tok \<times> 'l) \<Rightarrow> nat \<Rightarrow> 'l \<Rightarrow> 'tok list \<times> 'l" where
  "drain peek advance 0 l = ([], l)"
| "drain peek advance (Suc n) l =
     (let (tok, l) = peek l; l = snd (advance l); (toks, l) = drain peek advance n l in (tok # toks, l))"

context lookahead begin

lemma step_view:
  "inv l \<Longrightarrow> view (snd (advance (snd (peek l)))) = (\<lambda>n. view l (Suc n))"
  by (simp add: advance_view peek_inv peek_ready peek_view)

lemma step_inv: "inv l \<Longrightarrow> inv (snd (advance (snd (peek l))))"
  by (simp add: advance_inv peek_inv)

lemma drain_stream: "inv l \<Longrightarrow> fst (drain peek advance n l) = map (view l) [0..<n]"
proof (induction n arbitrary: l)
  case 0
  then show ?case by simp
next
  case (Suc n)
  have "map (\<lambda>k. view l (Suc k)) [0..<n] = map (view l) [Suc 0..<Suc n]"
    by (simp add: map_Suc_upt [symmetric] comp_def del: upt_Suc)
  then show ?case
    using Suc.IH [OF step_inv [OF Suc.prems]] Suc.prems
    by (simp add: Let_def case_prod_beta peek_val step_view upt_conv_Cons del: upt_Suc)
qed

lemma peek_idempotent: "inv l \<Longrightarrow> fst (peek (snd (peek l))) = fst (peek l)"
  by (simp add: peek_val peek_inv peek_view)

end

locale eof_lookahead = lookahead +
  fixes is_eof :: "'b \<Rightarrow> bool"
  assumes eof_sticky: "inv l \<Longrightarrow> is_eof (view l n) \<Longrightarrow> is_eof (view l (Suc n))"
begin

lemma eof_forever: "inv l \<Longrightarrow> is_eof (view l m) \<Longrightarrow> m \<le> n \<Longrightarrow> is_eof (view l n)"
  by (induction n) (auto simp: le_Suc_eq intro: eof_sticky)

end

section \<open>The state and its operations\<close>

record Lexer =
  l_tok :: Tokenizer
  l_current :: Token
  l_next :: Token
  has_current :: bool
  has_next :: bool
  l_error_count :: int

text \<open>The token \<open>calloc\<close> leaves in the buffers: all bytes zero, so its type is enumerator 0.\<close>

definition zero_token :: Token where
  "zero_token = \<lparr>tok_type = TOKEN_EOF,
     tok_loc = \<lparr>loc_file = [], loc_line = 0, loc_col = 0, loc_len = 0\<rparr>,
     tok_text = \<lparr>sv_data = [], sv_len = 0\<rparr>, tok_val = IntVal 0\<rparr>"

text \<open>\<open>alloc 0\<close> and \<open>alloc 1\<close> are the two \<open>calloc\<close> calls.\<close>

definition lexer_create :: "(nat \<Rightarrow> bool) \<Rightarrow> string \<Rightarrow> nat \<Rightarrow> string option \<Rightarrow> Lexer option" where
  "lexer_create alloc source len filename =
     (if \<not> alloc 0 then None else if \<not> alloc 1 then None
      else Some \<lparr>l_tok = tokenizer_create source len filename, l_current = zero_token, l_next = zero_token,
                 has_current = False, has_next = False, l_error_count = 0\<rparr>)"

definition lexer_advance :: "Lexer \<Rightarrow> Token \<times> Lexer" where
  "lexer_advance l =
     (let prev = l_current l;
          l' = (if has_next l then l\<lparr>l_current := l_next l, has_next := False\<rparr>
                else let (tok, t) = tokenizer_next (l_tok l) in l\<lparr>l_current := tok, l_tok := t\<rparr>)
      in (prev, l'\<lparr>has_current := True\<rparr>))"

definition lexer_peek :: "Lexer \<Rightarrow> Token \<times> Lexer" where
  "lexer_peek l =
     (let l' = (if \<not> has_current l
                then let (tok, t) = tokenizer_next (l_tok l)
                     in l\<lparr>l_current := tok, l_tok := t, has_current := True\<rparr>
                else l)
      in (l_current l', l'))"

definition lexer_peek_next :: "Lexer \<Rightarrow> Token \<times> Lexer" where
  "lexer_peek_next l =
     (let l = snd (lexer_peek l);
          l' = (if \<not> has_next l
                then let (tok, t) = tokenizer_next (l_tok l)
                     in l\<lparr>l_next := tok, l_tok := t, has_next := True\<rparr>
                else l)
      in (l_next l', l'))"

definition lexer_expect :: "Lexer \<Rightarrow> TokenType \<Rightarrow> bool \<times> Lexer" where
  "lexer_expect l ty =
     (let (tok, l) = lexer_peek l
      in if tok_type tok = ty then (True, snd (lexer_advance l)) else (False, l))"

text \<open>The message on \<open>stderr\<close> is not modelled.\<close>

definition lexer_expect_or_error :: "Lexer \<Rightarrow> TokenType \<Rightarrow> Token \<times> Lexer" where
  "lexer_expect_or_error l ty =
     (let (tok, l) = lexer_peek l
      in if tok_type tok = ty then (tok, snd (lexer_advance l))
         else (tok, l\<lparr>l_error_count := l_error_count l + 1\<rparr>))"

definition lexer_check :: "Lexer \<Rightarrow> TokenType \<Rightarrow> bool \<times> Lexer" where
  "lexer_check l ty = (let (tok, l) = lexer_peek l in (tok_type tok = ty, l))"

definition lexer_check_any :: "Lexer \<Rightarrow> TokenType list \<Rightarrow> bool \<times> Lexer" where
  "lexer_check_any l tys = (let (tok, l) = lexer_peek l in (list_ex (\<lambda>ty. tok_type tok = ty) tys, l))"

definition lexer_line :: "Lexer \<Rightarrow> int" where
  "lexer_line l = loc_line (tok_loc (l_current l))"

definition lexer_col :: "Lexer \<Rightarrow> int" where
  "lexer_col l = loc_col (tok_loc (l_current l))"

text \<open>
  What is left to read: the bytes, the buffered look-ahead token, and whether the current token
  is already EOF.  Every round of \<open>lexer_sync_to\<close> that goes on decreases it.
\<close>

definition left_to_read :: "Lexer \<Rightarrow> nat" where
  "left_to_read l = 2 * (t_end (l_tok l) - t_pos (l_tok l)) + of_bool (has_next l)
     + of_bool (\<not> (has_current l \<and> tok_type (l_current l) = TOKEN_EOF))"

lemma left_to_read_advance:
  assumes "has_current l" "tok_type (l_current l) \<noteq> TOKEN_EOF"
  shows "left_to_read (snd (lexer_advance l)) < left_to_read l"
  using assms tokenizer_next_decreases [of "l_tok l"] tokenizer_next_frame [of "l_tok l"]
  by (cases "tok_type (fst (tokenizer_next (l_tok l))) = TOKEN_EOF")
    (auto simp: left_to_read_def lexer_advance_def Let_def case_prod_beta fwd_def diff_le_mono2)

lemma left_to_read_peek: "left_to_read (snd (lexer_peek l)) \<le> left_to_read l"
  using tokenizer_next_frame [of "l_tok l"]
  by (auto simp: left_to_read_def lexer_peek_def Let_def case_prod_beta fwd_def diff_le_mono2)

lemma lexer_peek_current: "has_current (snd (lexer_peek l))" "fst (lexer_peek l) = l_current (snd (lexer_peek l))"
  by (auto simp: lexer_peek_def Let_def case_prod_beta)

function lexer_sync_to :: "Lexer \<Rightarrow> TokenType list \<Rightarrow> Lexer" where
  "lexer_sync_to l targets =
     (let tok = fst (lexer_peek l); l' = snd (lexer_peek l)
      in if tok_type tok = TOKEN_EOF then l'
         else if tok_type tok \<in> set targets then l'
         else lexer_sync_to (snd (lexer_advance l')) targets)"
  by pat_completeness auto
termination
proof (relation "measure (\<lambda>(l, targets). left_to_read l)")
  fix l targets tok l'
  assume "tok = fst (lexer_peek l)" "l' = snd (lexer_peek l)" "tok_type tok \<noteq> TOKEN_EOF"
  then have "left_to_read (snd (lexer_advance l')) < left_to_read l'"
    by (intro left_to_read_advance) (simp_all add: lexer_peek_current)
  then show "((snd (lexer_advance l'), targets), (l, targets)) \<in> measure (\<lambda>(l, targets). left_to_read l)"
    using left_to_read_peek [of l] \<open>l' = snd (lexer_peek l)\<close> by simp
qed simp

declare lexer_sync_to.simps [simp del]

section \<open>The buffer implements the contract\<close>

primrec token_at :: "Tokenizer \<Rightarrow> nat \<Rightarrow> Token" where
  "token_at t 0 = fst (tokenizer_next t)"
| "token_at t (Suc n) = token_at (snd (tokenizer_next t)) n"

definition buffered :: "Lexer \<Rightarrow> Token list" where
  "buffered l = (if has_current l then l_current l # (if has_next l then [l_next l] else []) else [])"

definition view :: "Lexer \<Rightarrow> nat \<Rightarrow> Token" where
  "view l n = (if n < length (buffered l) then buffered l ! n else token_at (l_tok l) (n - length (buffered l)))"

text \<open>The look-ahead buffer is filled only behind the current token.\<close>

definition lexer_ok :: "Lexer \<Rightarrow> bool" where
  "lexer_ok l \<longleftrightarrow> (has_next l \<longrightarrow> has_current l)"

lemma view_cases:
  "\<not> has_current l \<Longrightarrow> view l n = token_at (l_tok l) n"
  "has_current l \<Longrightarrow> view l 0 = l_current l"
  "has_current l \<Longrightarrow> \<not> has_next l \<Longrightarrow> view l (Suc n) = token_at (l_tok l) n"
  "has_current l \<Longrightarrow> has_next l \<Longrightarrow> view l (Suc 0) = l_next l"
  "has_current l \<Longrightarrow> has_next l \<Longrightarrow> view l (Suc (Suc n)) = token_at (l_tok l) n"
  by (simp_all add: view_def buffered_def)

lemma view_Suc_cases:
  "has_current l \<Longrightarrow> has_next l \<Longrightarrow> view l (Suc n) = (case n of 0 \<Rightarrow> l_next l | Suc m \<Rightarrow> token_at (l_tok l) m)"
  by (cases n) (simp_all add: view_cases)

lemma lexer_peek_view: "lexer_ok l \<Longrightarrow> view (snd (lexer_peek l)) = view l"
proof (rule ext)
  fix n assume "lexer_ok l"
  then show "view (snd (lexer_peek l)) n = view l n"
    by (cases "has_current l"; cases n)
      (simp_all add: lexer_peek_def Let_def case_prod_beta lexer_ok_def view_cases)
qed

lemma lexer_advance_view:
  assumes "lexer_ok l" "has_current l"
  shows "view (snd (lexer_advance l)) = (\<lambda>n. view l (Suc n))"
proof (rule ext)
  fix n
  show "view (snd (lexer_advance l)) n = view l (Suc n)"
    using assms by (cases "has_next l"; cases n)
      (simp_all add: lexer_advance_def Let_def case_prod_beta lexer_ok_def view_cases)
qed

interpretation lx: lookahead lexer_peek lexer_advance view lexer_ok has_current
proof unfold_locales
  show "lexer_ok l \<Longrightarrow> fst (lexer_peek l) = view l 0" for l
    by (simp add: lexer_peek_def Let_def case_prod_beta view_cases)
  show "lexer_ok l \<Longrightarrow> view (snd (lexer_peek l)) = view l" for l
    by (rule lexer_peek_view)
  show "lexer_ok l \<Longrightarrow> lexer_ok (snd (lexer_peek l))" for l
    by (simp add: lexer_peek_def Let_def case_prod_beta lexer_ok_def)
  show "has_current (snd (lexer_peek l))" for l
    by (rule lexer_peek_current)
  show "lexer_ok l \<Longrightarrow> has_current l \<Longrightarrow> fst (lexer_advance l) = view l 0" for l
    by (simp add: lexer_advance_def Let_def view_cases)
  show "lexer_ok l \<Longrightarrow> has_current l \<Longrightarrow> view (snd (lexer_advance l)) = (\<lambda>n. view l (Suc n))" for l
    by (rule lexer_advance_view)
  show "lexer_ok l \<Longrightarrow> lexer_ok (snd (lexer_advance l))" for l
    by (simp add: lexer_advance_def Let_def case_prod_beta lexer_ok_def)
qed

text \<open>After EOF the scanner only returns EOF, provided the buffers hold nothing else behind an EOF.\<close>

lemma token_at_eof: "tok_type (token_at t n) = TOKEN_EOF \<Longrightarrow> tok_type (token_at t (Suc n)) = TOKEN_EOF"
proof (induction n arbitrary: t)
  case 0
  then have "tok_type (fst (tokenizer_next t)) = TOKEN_EOF" by simp
  from tokenizer_next_eof [OF this] have "t_end (snd (tokenizer_next t)) \<le> t_pos (snd (tokenizer_next t))"
    using tokenizer_next_frame [of t] by (simp add: fwd_def)
  then show ?case by (simp add: tokenizer_next_at_end)
qed simp

lemma token_at_end: "t_end t \<le> t_pos t \<Longrightarrow> tok_type (token_at t n) = TOKEN_EOF"
  by (induction n) (simp_all add: tokenizer_next_at_end)

definition lexer_inv :: "Lexer \<Rightarrow> bool" where
  "lexer_inv l \<longleftrightarrow> lexer_ok l \<and>
     (has_current l \<and> tok_type (l_current l) = TOKEN_EOF \<longrightarrow>
        t_end (l_tok l) \<le> t_pos (l_tok l) \<and> (has_next l \<longrightarrow> tok_type (l_next l) = TOKEN_EOF)) \<and>
     (has_next l \<and> tok_type (l_next l) = TOKEN_EOF \<longrightarrow> t_end (l_tok l) \<le> t_pos (l_tok l))"

lemma next_eof_end:
  "tok_type (fst (tokenizer_next t)) = TOKEN_EOF \<Longrightarrow>
   t_end (snd (tokenizer_next t)) \<le> t_pos (snd (tokenizer_next t))"
  using tokenizer_next_eof [of t] tokenizer_next_frame [of t] by (simp add: fwd_def)

lemma lexer_inv_peek: "lexer_inv l \<Longrightarrow> lexer_inv (snd (lexer_peek l))"
  by (auto simp: lexer_inv_def lexer_ok_def lexer_peek_def Let_def case_prod_beta next_eof_end)

lemma lexer_inv_advance: "lexer_inv l \<Longrightarrow> lexer_inv (snd (lexer_advance l))"
  by (auto simp: lexer_inv_def lexer_ok_def lexer_advance_def Let_def case_prod_beta next_eof_end)

lemma lexer_inv_peek_next: "lexer_inv l \<Longrightarrow> lexer_inv (snd (lexer_peek_next l))"
  using lexer_inv_peek [of l] lexer_peek_current(1) [of l]
  by (auto simp: lexer_peek_next_def Let_def case_prod_beta lexer_inv_def lexer_ok_def next_eof_end tokenizer_next_at_end)

lemma lexer_inv_eof:
  assumes "lexer_inv l" "tok_type (view l n) = TOKEN_EOF"
  shows "tok_type (view l (Suc n)) = TOKEN_EOF"
proof (cases "has_current l")
  case False
  then show ?thesis using assms(2) token_at_eof [of "l_tok l" n] by (simp add: view_cases)
next
  case cur: True
  show ?thesis
  proof (cases "has_next l")
    case True
    with cur assms show ?thesis
      by (cases n; cases "n - 1")
        (auto simp: view_cases view_Suc_cases lexer_inv_def token_at_end simp del: token_at.simps dest: token_at_eof)
  next
    case False
    with cur assms show ?thesis
      by (cases n) (auto simp: view_cases lexer_inv_def token_at_end simp del: token_at.simps dest: token_at_eof)
  qed
qed

lemma lexer_inv_ok: "lexer_inv l \<Longrightarrow> lexer_ok l"
  by (simp add: lexer_inv_def)

interpretation lx_eof: eof_lookahead lexer_peek lexer_advance view lexer_inv has_current "\<lambda>tok. tok_type tok = TOKEN_EOF"
  by unfold_locales
    (rule lx.peek_val lexer_peek_view lexer_inv_peek lexer_peek_current(1) lx.advance_val lexer_advance_view
      lexer_inv_advance lexer_inv_eof; (rule lexer_inv_ok)?; assumption)+

section \<open>Peeking two ahead, and synchronisation\<close>

lemma lexer_peek_next_view:
  assumes "lexer_ok l"
  shows "fst (lexer_peek_next l) = view l 1" "view (snd (lexer_peek_next l)) = view l"
proof -
  have ok: "lexer_ok (snd (lexer_peek l))" "has_current (snd (lexer_peek l))"
    using assms lx.peek_inv lexer_peek_current by auto
  have "fst (lexer_peek_next l) = view (snd (lexer_peek l)) (Suc 0)"
    using ok by (simp add: lexer_peek_next_def Let_def case_prod_beta view_cases)
  then show "fst (lexer_peek_next l) = view l 1"
    using lexer_peek_view [OF assms] by simp
  have "view (snd (lexer_peek_next l)) n = view (snd (lexer_peek l)) n" for n
    using ok by (cases n; cases "n - 1")
      (simp_all add: lexer_peek_next_def Let_def case_prod_beta view_cases)
  then show "view (snd (lexer_peek_next l)) = view l"
    using lexer_peek_view [OF assms] by auto
qed

text \<open>Where the synchronisation stops: the first token of the stream that is EOF or a target.\<close>

definition sync_point :: "TokenType list \<Rightarrow> (nat \<Rightarrow> Token) \<Rightarrow> nat \<Rightarrow> bool" where
  "sync_point targets v n \<longleftrightarrow> tok_type (v n) = TOKEN_EOF \<or> tok_type (v n) \<in> set targets"

lemma lexer_sync_to_stream:
  "lexer_ok l \<Longrightarrow> \<exists>n. sync_point targets (view l) n \<and> \<not> (\<exists>m<n. sync_point targets (view l) m) \<and>
     view (lexer_sync_to l targets) = (\<lambda>k. view l (n + k)) \<and> lexer_ok (lexer_sync_to l targets)"
proof (induction l targets rule: lexer_sync_to.induct)
  case (1 l targets)
  let ?l' = "snd (lexer_peek l)"
  have v: "fst (lexer_peek l) = view l 0" and ok': "lexer_ok ?l'"
    using lx.peek_val lx.peek_inv "1.prems" by auto
  show ?case
  proof (cases "sync_point targets (view l) 0")
    case True
    then have "lexer_sync_to l targets = ?l'"
      using v by (auto simp: lexer_sync_to.simps [of l targets] sync_point_def Let_def)
    with True ok' lexer_peek_view [OF "1.prems"] show ?thesis
      by (intro exI [of _ 0]) auto
  next
    case False
    then have eq: "lexer_sync_to l targets = lexer_sync_to (snd (lexer_advance ?l')) targets"
      using v by (auto simp: lexer_sync_to.simps [of l targets] sync_point_def Let_def)
    have shift: "view (snd (lexer_advance ?l')) = (\<lambda>n. view l (Suc n))"
      using lx.step_view [OF "1.prems"] .
    let ?a = "snd (lexer_advance ?l')"
    have "\<exists>n. sync_point targets (view ?a) n \<and> \<not> (\<exists>m<n. sync_point targets (view ?a) m) \<and>
        view (lexer_sync_to ?a targets) = (\<lambda>k. view ?a (n + k)) \<and> lexer_ok (lexer_sync_to ?a targets)"
      by (rule "1.IH") (use False v lx.step_inv [OF "1.prems"] in \<open>auto simp: sync_point_def\<close>)
    then obtain n where n: "sync_point targets (\<lambda>n. view l (Suc n)) n" "\<And>m. m < n \<Longrightarrow> \<not> sync_point targets (\<lambda>n. view l (Suc n)) m"
      "view (lexer_sync_to l targets) = (\<lambda>k. view l (Suc (n + k)))" "lexer_ok (lexer_sync_to l targets)"
      unfolding eq shift by auto
    have "\<not> sync_point targets (view l) m" if "m < Suc n" for m
      using that False n(2) [of "m - 1"] by (cases m) (auto simp: sync_point_def)
    with n show ?thesis
      by (intro exI [of _ "Suc n"]) (auto simp: sync_point_def)
  qed
qed

section \<open>Properties\<close>

text \<open>C7: the lexer is a faithful two-token window on the scanner: reading \<open>n\<close> tokens by peek and
  advance from a fresh lexer yields the first \<open>n\<close> results of \<open>tokenizer_next\<close>, and
  \<open>lexer_peek_next\<close> shows the second token of the stream without moving.\<close>
theorem lexer_reads_token_stream:
  assumes "lexer_create alloc source len filename = Some l"
  shows "fst (drain lexer_peek lexer_advance n l) =
      map (token_at (tokenizer_create source len filename)) [0..<n] \<and>
    fst (lexer_peek_next l) = token_at (tokenizer_create source len filename) 1 \<and>
    fst (drain lexer_peek lexer_advance n (snd (lexer_peek_next l))) =
      map (token_at (tokenizer_create source len filename)) [0..<n]"
proof -
  have l: "lexer_ok l" "view l = token_at (tokenizer_create source len filename)"
    using assms by (auto simp: lexer_create_def lexer_ok_def view_def buffered_def split: if_splits)
  have l2: "lexer_ok (snd (lexer_peek_next l))"
    using lexer_peek_current(1) [of l] by (auto simp: lexer_peek_next_def lexer_ok_def Let_def case_prod_beta)
  show ?thesis
    using lx.drain_stream [OF l(1), of n] lx.drain_stream [OF l2, of n] lexer_peek_next_view [OF l(1)] l(2)
    by simp
qed

theorem lexer_reads_token_stream_witness:
  "\<exists>l. lexer_create (\<lambda>_. True) ''a+1'' 3 None = Some l \<and>
     fst (drain lexer_peek lexer_advance 4 l) = map (token_at (tokenizer_create ''a+1'' 3 None)) [0..<4]"
proof -
  have "\<exists>l. lexer_create (\<lambda>_. True) ''a+1'' 3 None = Some l" by (simp add: lexer_create_def)
  then show ?thesis using lexer_reads_token_stream by blast
qed

text \<open>\<open>lexer_sync_to\<close> terminates and stops at the first token of the stream that is EOF or one of
  the targets, having dropped exactly the tokens before it.\<close>
theorem lexer_sync_stops_at_first_target:
  assumes "lexer_ok l"
  shows "\<exists>n. (tok_type (view l n) = TOKEN_EOF \<or> tok_type (view l n) \<in> set targets) \<and>
    \<not> (\<exists>m<n. tok_type (view l m) = TOKEN_EOF \<or> tok_type (view l m) \<in> set targets) \<and>
    view (lexer_sync_to l targets) = (\<lambda>k. view l (n + k))"
  using lexer_sync_to_stream [OF assms, of targets] by (auto simp: sync_point_def)

theorem lexer_sync_stops_at_first_target_witness:
  "\<exists>l. lexer_create (\<lambda>_. True) ''a;b'' 3 None = Some l \<and> lexer_ok l \<and>
     (\<exists>n. view (lexer_sync_to l [OP TOKEN_SEMICOLON]) = (\<lambda>k. view l (n + k)))"
proof -
  obtain l where l: "lexer_create (\<lambda>_. True) ''a;b'' 3 None = Some l" "lexer_ok l"
    by (auto simp: lexer_create_def lexer_ok_def)
  with lexer_sync_stops_at_first_target [OF l(2), of "[OP TOKEN_SEMICOLON]"] show ?thesis by blast
qed

text \<open>C29: on a mismatch \<open>lexer_expect_or_error\<close> counts one error and leaves the stream where it is: it
  does not skip the offending token, which it returns; on a match it drops the token.\<close>
theorem lexer_expect_or_error_stream:
  assumes "lexer_ok l"
  shows "fst (lexer_expect_or_error l ty) = view l 0 \<and>
    view (snd (lexer_expect_or_error l ty)) =
      (if tok_type (view l 0) = ty then (\<lambda>n. view l (Suc n)) else view l) \<and>
    l_error_count (snd (lexer_expect_or_error l ty)) =
      l_error_count l + (if tok_type (view l 0) = ty then 0 else 1)"
proof -
  have count: "l_error_count (snd (lexer_peek l)) = l_error_count l"
    "l_error_count (snd (lexer_advance k)) = l_error_count k" for k
    by (simp_all add: lexer_peek_def lexer_advance_def Let_def case_prod_beta)
  have frame: "view (k\<lparr>l_error_count := x\<rparr>) = view k" for k x
    by (simp add: view_def buffered_def fun_eq_iff)
  show ?thesis
    using lx.peek_val [OF assms] lexer_peek_view [OF assms] lx.step_view [OF assms]
    by (simp add: lexer_expect_or_error_def case_prod_beta count frame)
qed

theorem lexer_expect_or_error_stream_witness:
  "\<exists>l. lexer_create (\<lambda>_. True) ''a;b'' 3 None = Some l \<and> lexer_ok l \<and>
     fst (lexer_expect_or_error l TOKEN_IDENT) = view l 0"
proof -
  obtain l where l: "lexer_create (\<lambda>_. True) ''a;b'' 3 None = Some l" "lexer_ok l"
    by (auto simp: lexer_create_def lexer_ok_def)
  with lexer_expect_or_error_stream [OF l(2), of TOKEN_IDENT] show ?thesis by blast
qed

end
