(* ===== verification/Arena.thy ===== *)
theory Arena
  imports Prelude
begin

text \<open>
  The bump allocator of \<open>src/arena.c\<close>.  The C heap is a record of its live blocks and its bytes;
  \<open>malloc\<close> is a parameter of every operation that calls it (it may fail, and it chooses the
  address), constrained where a theorem needs it by \<open>malloc_ok\<close>, the standard's contract.
  An arena is its first \<open>struct Arena\<close> with the blocks reached by \<open>next\<close>.  The lemmas show what a
  run of allocations promises (live, disjoint, zeroed memory) and where the code falls short.
\<close>

unbundle bit_operations_syntax

section \<open>The heap of the C library\<close>

record Heap =
  heap_live :: "(u64 \<times> u64) list"
  heap_mem :: "u64 \<Rightarrow> char"

text \<open>\<open>malloc\<close>: the address it answers in a heap for a size, 0 for NULL.\<close>

type_synonym malloc = "Heap \<Rightarrow> u64 \<Rightarrow> u64"

definition heap_malloc :: "malloc \<Rightarrow> u64 \<Rightarrow> Heap \<Rightarrow> u64 \<times> Heap" where
  "heap_malloc M n h = (let p = M h n in
     if p = 0 then (0, h) else (p, h\<lparr>heap_live := (p, n) # heap_live h\<rparr>))"

definition heap_free :: "u64 \<Rightarrow> Heap \<Rightarrow> Heap" where
  "heap_free p h = h\<lparr>heap_live := filter (\<lambda>(q, n). q \<noteq> p) (heap_live h)\<rparr>"

definition heap_store :: "u64 \<Rightarrow> string \<Rightarrow> Heap \<Rightarrow> Heap" where
  "heap_store p s h = h\<lparr>heap_mem := (\<lambda>a. if unat (a - p) < length s then s ! unat (a - p) else heap_mem h a)\<rparr>"

definition heap_zero :: "u64 \<Rightarrow> u64 \<Rightarrow> Heap \<Rightarrow> Heap" where
  "heap_zero p n h = h\<lparr>heap_mem := (\<lambda>a. if a - p < n then NUL else heap_mem h a)\<rparr>"

definition heap_read :: "u64 \<Rightarrow> nat \<Rightarrow> Heap \<Rightarrow> string" where
  "heap_read p n h = map (\<lambda>i. heap_mem h (p + of_nat i)) [0..<n]"

text \<open>Regions of memory as pairs of a start and a size, compared as naturals.\<close>

type_synonym region = "u64 \<times> u64"

definition region_end :: "region \<Rightarrow> nat" where
  "region_end r = unat (fst r) + unat (snd r)"

definition region_disjoint :: "region \<Rightarrow> region \<Rightarrow> bool" where
  "region_disjoint r q \<longleftrightarrow> region_end r \<le> unat (fst q) \<or> region_end q \<le> unat (fst r)"

definition region_within :: "region \<Rightarrow> region \<Rightarrow> bool" where
  "region_within r q \<longleftrightarrow> unat (fst q) \<le> unat (fst r) \<and> region_end r \<le> region_end q"

lemmas region_defs = region_end_def region_disjoint_def region_within_def

text \<open>
  The contract of \<open>malloc\<close> (C17 7.22.3) on a 64-bit system: a block it returns is suitably
  aligned, lies in the lower half of the address space and overlaps no live block.
\<close>

definition malloc_ok :: "malloc \<Rightarrow> bool" where
  "malloc_ok M \<longleftrightarrow> (\<forall>h n. M h n \<noteq> 0 \<longrightarrow>
     unat (M h n) mod 16 = 0 \<and> unat (M h n) + unat n \<le> 2 ^ 47 \<and>
     (\<forall>r \<in> set (heap_live h). region_disjoint (M h n, n) r))"

section \<open>The arena\<close>

record ArenaBlock =
  blk_base :: u64
  blk_ptr :: u64
  blk_end :: u64

record Arena = ArenaBlock +
  blk_next :: "ArenaBlock list"

definition DEFAULT_BLOCK_SIZE :: u64 where "DEFAULT_BLOCK_SIZE = 64 * 1024"

text \<open>\<open>sizeof(Arena)\<close>: four pointers.\<close>

definition SIZEOF_ARENA :: u64 where "SIZEOF_ARENA = 32"

definition ALIGN_UP :: "u64 \<Rightarrow> u64 \<Rightarrow> u64" where
  "ALIGN_UP p a = (p + (a - 1)) AND NOT (a - 1)"

definition arena_block_size :: "u64 \<Rightarrow> u64" where
  "arena_block_size min_size =
     (if min_size > DEFAULT_BLOCK_SIZE then min_size + DEFAULT_BLOCK_SIZE else DEFAULT_BLOCK_SIZE)"

definition arena_new_block :: "malloc \<Rightarrow> Arena \<Rightarrow> u64 \<Rightarrow> Heap \<Rightarrow> ArenaBlock option \<times> Arena \<times> Heap" where
  "arena_new_block M a min_size h =
     (let block_size = arena_block_size min_size;
          (m, h1) = heap_malloc M (SIZEOF_ARENA + block_size) h
      in if m = 0 then (None, a, h1)
         else let base = m + SIZEOF_ARENA;
                  block = \<lparr>blk_base = base, blk_ptr = base, blk_end = base + block_size\<rparr>
              in (Some block, a\<lparr>blk_next := blk_next a @ [block]\<rparr>, h1))"

definition arena_create_with_size :: "malloc \<Rightarrow> u64 \<Rightarrow> Heap \<Rightarrow> Arena option \<times> Heap" where
  "arena_create_with_size M block_size h =
     (let (m, h1) = heap_malloc M (SIZEOF_ARENA + block_size) h
      in if m = 0 then (None, h1)
         else let base = m + SIZEOF_ARENA
              in (Some \<lparr>blk_base = base, blk_ptr = base, blk_end = base + block_size, blk_next = []\<rparr>, h1))"

definition arena_create :: "malloc \<Rightarrow> Heap \<Rightarrow> Arena option \<times> Heap" where
  "arena_create M h = arena_create_with_size M DEFAULT_BLOCK_SIZE h"

definition arena_alloc_unzeroed :: "malloc \<Rightarrow> Arena \<Rightarrow> u64 \<Rightarrow> Heap \<Rightarrow> u64 \<times> Arena \<times> Heap" where
  "arena_alloc_unzeroed M a sz h =
     (if sz = 0 then (0, a, h)
      else let sz = ALIGN_UP sz 16 in
        if blk_ptr a + sz > blk_end a then
          (case arena_new_block M a sz h of
             (None, a1, h1) \<Rightarrow> (0, a1, h1)
           | (Some block, a1, h1) \<Rightarrow>
               (blk_ptr block, a1\<lparr>blk_ptr := blk_ptr block + sz, blk_end := blk_end block\<rparr>, h1))
        else (blk_ptr a, a\<lparr>blk_ptr := blk_ptr a + sz\<rparr>, h))"

definition arena_alloc :: "malloc \<Rightarrow> Arena \<Rightarrow> u64 \<Rightarrow> Heap \<Rightarrow> u64 \<times> Arena \<times> Heap" where
  "arena_alloc M a sz h =
     (let (p, a1, h1) = arena_alloc_unzeroed M a sz h
      in (p, a1, if p \<noteq> 0 then heap_zero p sz h1 else h1))"

definition arena_alloc_aligned :: "malloc \<Rightarrow> Arena \<Rightarrow> u64 \<Rightarrow> u64 \<Rightarrow> Heap \<Rightarrow> u64 \<times> Arena \<times> Heap" where
  "arena_alloc_aligned M a sz al h =
     (let al = (if al < 16 then 16 else al);
          aligned = ALIGN_UP (blk_ptr a) al;
          padded = sz + (aligned - blk_ptr a)
      in if blk_ptr a + padded > blk_end a then
           (case arena_new_block M a (padded + al) h of
              (None, a1, h1) \<Rightarrow> (0, a1, h1)
            | (Some block, a1, h1) \<Rightarrow>
                let aligned = ALIGN_UP (blk_ptr block) al
                in (aligned, a1\<lparr>blk_ptr := aligned + sz, blk_end := blk_end block\<rparr>,
                    heap_zero aligned sz h1))
         else (aligned, a\<lparr>blk_ptr := aligned + sz\<rparr>, heap_zero aligned sz h))"

definition arena_strndup :: "malloc \<Rightarrow> Arena \<Rightarrow> string \<Rightarrow> Heap \<Rightarrow> u64 \<times> Arena \<times> Heap" where
  "arena_strndup M a s h =
     (let (p, a1, h1) = arena_alloc M a (of_nat (length s) + 1) h
      in (p, a1, if p \<noteq> 0 then heap_store (p + of_nat (length s)) [NUL] (heap_store p s h1) else h1))"

text \<open>\<open>arena_strdup\<close> copies up to the first NUL.\<close>

definition arena_strdup :: "malloc \<Rightarrow> Arena \<Rightarrow> string \<Rightarrow> Heap \<Rightarrow> u64 \<times> Arena \<times> Heap" where
  "arena_strdup M a s h = arena_strndup M a (takeWhile (\<lambda>c. c \<noteq> NUL) s) h"

definition arena_reset :: "Arena \<Rightarrow> Heap \<Rightarrow> Arena \<times> Heap" where
  "arena_reset a h =
     (a\<lparr>blk_next := [], blk_ptr := blk_base a\<rparr>,
      fold (\<lambda>b. heap_free (blk_base b - SIZEOF_ARENA)) (blk_next a) h)"

definition arena_destroy :: "Arena \<Rightarrow> Heap \<Rightarrow> Heap" where
  "arena_destroy a h =
     fold (\<lambda>b. heap_free (b - SIZEOF_ARENA)) (blk_base a # map blk_base (blk_next a)) h"

definition arena_used :: "Arena \<Rightarrow> u64" where
  "arena_used a = fold (\<lambda>b total. total + (blk_ptr b - blk_base b)) (blk_next a) (blk_ptr a - blk_base a)"


section \<open>Alignment\<close>

lemma and_not_plus_and: "(x::u64) = (x AND NOT m) + (x AND m)"
proof -
  have "(x AND NOT m) + (x AND m) = (x AND NOT m) OR (x AND m)"
    by (rule disjunctive_add) (auto simp: bit_simps)
  also have "\<dots> = x" by (rule bit_eqI) (auto simp: bit_simps)
  finally show ?thesis by simp
qed

lemma unat_and_not: "unat (x AND NOT m) = unat x - unat (x AND m)" for x m :: u64
proof -
  have "x AND m \<le> x" by (metis and.commute word_and_le1)
  moreover have "x AND NOT m = x - (x AND m)"
    using and_not_plus_and [of x m] by (metis add_diff_cancel_right')
  ultimately show ?thesis by (simp add: unat_sub)
qed

lemma unat_and_le: "unat (x AND m) \<le> unat m" for x m :: u64
  by (metis word_and_le1 word_le_nat_alt)

lemma ALIGN_UP_bounds:
  assumes "unat p + unat a < 2 ^ 64" "a \<noteq> 0"
  shows "unat p \<le> unat (ALIGN_UP p a)" "unat (ALIGN_UP p a) < unat p + unat a"
proof -
  have a: "unat (a - 1) = unat a - 1" using assms(2) by (simp add: unat_minus_one)
  have pos: "0 < unat a" using assms(2) by (simp add: unat_gt_0)
  have s: "unat (p + (a - 1)) = unat p + (unat a - 1)"
    using assms(1) a pos by (subst unat_add_lem [THEN iffD1]) auto
  show "unat p \<le> unat (ALIGN_UP p a)" "unat (ALIGN_UP p a) < unat p + unat a"
    using unat_and_le [of "p + (a - 1)" "a - 1"] pos
    by (auto simp: ALIGN_UP_def unat_and_not s a)
qed

lemma ALIGN_UP_16:
  assumes "unat p + 16 < 2 ^ 64"
  shows "unat (ALIGN_UP p 16) = (unat p + 15) div 16 * 16"
proof -
  have s: "unat (p + 15) = unat p + 15"
    using assms by (subst unat_add_lem [THEN iffD1]) auto
  have "(p + 15) AND 15 = take_bit 4 (p + 15)"
    by (simp add: take_bit_eq_mask mask_eq_exp_minus_1)
  then have "unat ((p + 15) AND 15) = (unat p + 15) mod 16"
    by (simp add: unsigned_take_bit_eq s take_bit_eq_mod unat_mod)
  moreover have "ALIGN_UP p 16 = (p + 15) AND NOT 15" by (simp add: ALIGN_UP_def)
  ultimately show ?thesis
    by (simp only: unat_and_not s minus_mod_eq_div_mult)
qed

section \<open>Runs of allocations\<close>

text \<open>The requests a client can make, and a run of them; a failed request answers address 0.\<close>

datatype ArenaReq = Zeroed u64 | Unzeroed u64 | Aligned u64 u64

primrec req_size :: "ArenaReq \<Rightarrow> u64" where
  "req_size (Zeroed n) = n"
| "req_size (Unzeroed n) = n"
| "req_size (Aligned n _) = n"

text \<open>Requests below 64 TB, the sizes for which no sum of the allocator wraps.\<close>

definition req_ok :: "ArenaReq \<Rightarrow> bool" where
  "req_ok r \<longleftrightarrow> unat (req_size r) \<le> 2 ^ 46 \<and> (case r of Aligned _ al \<Rightarrow> unat al \<le> 2 ^ 46 | _ \<Rightarrow> True)"

primrec arena_request :: "malloc \<Rightarrow> Arena \<Rightarrow> ArenaReq \<Rightarrow> Heap \<Rightarrow> u64 \<times> Arena \<times> Heap" where
  "arena_request M a (Zeroed n) h = arena_alloc M a n h"
| "arena_request M a (Unzeroed n) h = arena_alloc_unzeroed M a n h"
| "arena_request M a (Aligned n al) h = arena_alloc_aligned M a n al h"

text \<open>The regions handed out by a run, latest first, with the final arena and heap.\<close>

primrec arena_requests :: "malloc \<Rightarrow> ArenaReq list \<Rightarrow> region list \<times> Arena \<times> Heap \<Rightarrow> region list \<times> Arena \<times> Heap" where
  "arena_requests M [] s = s"
| "arena_requests M (r # rs) s =
     (let (out, a, h) = s; (p, a1, h1) = arena_request M a r h
      in arena_requests M rs (if p = 0 then out else (p, req_size r) # out, a1, h1))"

text \<open>
  The invariant of a run: the free part of the current block lies in a live block, the regions
  handed out lie in live blocks, away from the free part and from each other.
\<close>

definition arena_inv :: "(u64 \<times> u64) list \<Rightarrow> u64 \<Rightarrow> u64 \<Rightarrow> region list \<Rightarrow> bool" where
  "arena_inv L p e rs \<longleftrightarrow>
     (\<exists>q \<in> set L. unat (fst q) < unat p \<and> unat p \<le> unat e \<and> unat e \<le> region_end q) \<and>
     (\<forall>q \<in> set L. region_end q \<le> 2 ^ 47) \<and>
     (\<forall>r \<in> set rs. (\<exists>q \<in> set L. region_within r q) \<and> (region_end r \<le> unat p \<or> unat e \<le> unat (fst r))) \<and>
     sorted_wrt region_disjoint rs"

lemma arena_inv_end: "arena_inv L p e rs \<Longrightarrow> unat p \<le> unat e \<and> unat e \<le> 2 ^ 47 \<and> 0 < unat p"
  by (fastforce simp: arena_inv_def)

lemma arena_inv_carve:
  assumes "arena_inv L p e rs" "unat p \<le> unat x" "unat x + unat n \<le> unat y" "unat y \<le> unat e"
  shows "arena_inv L y e ((x, n) # rs)"
proof -
  obtain q where q: "q \<in> set L" "unat (fst q) < unat p" "unat e \<le> region_end q"
    using assms(1) by (auto simp: arena_inv_def)
  have "\<exists>q \<in> set L. unat (fst q) < unat y \<and> unat y \<le> unat e \<and> unat e \<le> region_end q"
    using q assms(2-4) by (intro bexI [of _ q]) auto
  moreover have "region_within (x, n) q"
    using q assms(2-4) by (simp add: region_within_def region_end_def)
  moreover have "region_disjoint (x, n) r \<and> (region_end r \<le> unat y \<or> unat e \<le> unat (fst r))"
    if "r \<in> set rs" for r
  proof -
    have "region_end r \<le> unat p \<or> unat e \<le> unat (fst r)"
      using that assms(1) by (auto simp: arena_inv_def)
    then show ?thesis using assms(2-4) by (auto simp: region_disjoint_def region_end_def)
  qed
  ultimately show ?thesis
    using assms q(1) by (auto simp: arena_inv_def region_end_def [of "(x, n)"])
qed

lemma arena_inv_switch:
  assumes "malloc_ok M" "M h (SIZEOF_ARENA + bs) \<noteq> 0" "arena_inv (heap_live h) p e rs"
    "unat bs \<le> 2 ^ 60"
  defines "m \<equiv> M h (SIZEOF_ARENA + bs)"
  shows "arena_inv ((m, SIZEOF_ARENA + bs) # heap_live h) (m + SIZEOF_ARENA) (m + SIZEOF_ARENA + bs) rs"
    and "unat (m + SIZEOF_ARENA) mod 16 = 0"
    and "unat (m + SIZEOF_ARENA + bs) = unat (m + SIZEOF_ARENA) + unat bs"
    and "m + SIZEOF_ARENA \<noteq> 0"
proof -
  have n: "unat (SIZEOF_ARENA + bs) = 32 + unat bs"
    using assms(4) by (subst unat_add_lem [THEN iffD1]) (auto simp: SIZEOF_ARENA_def)
  have m: "unat m mod 16 = 0" "unat m + 32 + unat bs \<le> 2 ^ 47"
    and dis: "\<forall>r \<in> set (heap_live h). region_disjoint (m, SIZEOF_ARENA + bs) r"
    using assms(1) [unfolded malloc_ok_def, rule_format, OF assms(2)] n by (simp_all add: m_def)
  have b: "unat (m + SIZEOF_ARENA) = unat m + 32"
    using m(2) by (subst unat_add_lem [THEN iffD1]) (auto simp: SIZEOF_ARENA_def)
  show e: "unat (m + SIZEOF_ARENA + bs) = unat (m + SIZEOF_ARENA) + unat bs"
    using m(2) b by (subst unat_add_lem [THEN iffD1]) auto
  show "unat (m + SIZEOF_ARENA) mod 16 = 0" using b m(1) by presburger
  show "m + SIZEOF_ARENA \<noteq> 0" using b by auto
  have away: "region_end r \<le> unat m + 32 \<or> unat m + 32 + unat bs \<le> unat (fst r)"
    if "r \<in> set rs" for r
  proof -
    from that assms(3) obtain q where "q \<in> set (heap_live h)" "region_within r q"
      by (auto simp: arena_inv_def)
    then show ?thesis using dis by (fastforce simp: region_defs n)
  qed
  show "arena_inv ((m, SIZEOF_ARENA + bs) # heap_live h) (m + SIZEOF_ARENA) (m + SIZEOF_ARENA + bs) rs"
    using assms(3) m away unfolding arena_inv_def e b
    by (auto simp: region_end_def n dest!: bspec)
qed


text \<open>What each request does to the invariant.\<close>

definition arena_good :: "region list \<times> Arena \<times> Heap \<Rightarrow> bool" where
  "arena_good s \<longleftrightarrow> (case s of (rs, a, h) \<Rightarrow> arena_inv (heap_live h) (blk_ptr a) (blk_end a) rs)"

lemma heap_live_zero [simp]: "heap_live (heap_zero p n h) = heap_live h"
  by (simp add: heap_zero_def)

lemma heap_live_store [simp]: "heap_live (heap_store p s h) = heap_live h"
  by (simp add: heap_store_def)

lemma arena_block_size_bounds:
  assumes "unat n \<le> 2 ^ 50"
  shows "unat n \<le> unat (arena_block_size n)" "unat (arena_block_size n) \<le> 2 ^ 60"
    "65536 < unat n \<Longrightarrow> unat (arena_block_size n) = unat n + 65536"
    "65536 \<le> unat (arena_block_size n)"
proof -
  have "unat (n + 0x10000) = unat n + 65536"
    using assms by (subst unat_add_lem [THEN iffD1]) auto
  then show "unat n \<le> unat (arena_block_size n)" "unat (arena_block_size n) \<le> 2 ^ 60"
    "65536 < unat n \<Longrightarrow> unat (arena_block_size n) = unat n + 65536"
    "65536 \<le> unat (arena_block_size n)"
    using assms by (auto simp: arena_block_size_def DEFAULT_BLOCK_SIZE_def word_less_nat_alt)
qed

lemma arena_new_block_inv:
  assumes "malloc_ok M" "unat n \<le> 2 ^ 50" "arena_inv (heap_live h) p e rs"
    "arena_new_block M a n h = (r, a1, h1)"
  shows "case r of None \<Rightarrow> a1 = a \<and> h1 = h
    | Some b \<Rightarrow> arena_inv (heap_live h1) (blk_ptr b) (blk_end b) rs \<and> unat (blk_ptr b) mod 16 = 0 \<and>
        blk_ptr b \<noteq> 0 \<and> unat (blk_end b) = unat (blk_ptr b) + unat (arena_block_size n)"
  using assms(4) arena_inv_switch [OF assms(1) _ assms(3) arena_block_size_bounds(2) [OF assms(2)]]
  by (auto simp: arena_new_block_def heap_malloc_def Let_def split: if_splits)

lemma arena_round_16:
  assumes "unat n \<le> 2 ^ 46" "n \<noteq> 0"
  shows "unat n \<le> unat (ALIGN_UP n 16)" "unat (ALIGN_UP n 16) \<le> 2 ^ 47" "unat (ALIGN_UP n 16) mod 16 = 0"
  using ALIGN_UP_16 [of n] assms(1) by auto

lemma arena_alloc_unzeroed_good:
  assumes "malloc_ok M" "unat n \<le> 2 ^ 46" "arena_good (rs, a, h)"
    "arena_alloc_unzeroed M a n h = (p, a1, h1)"
  shows "arena_good (if p = 0 then rs else (p, n) # rs, a1, h1)"
    and "unat (blk_ptr a) mod 16 = 0 \<Longrightarrow> unat p mod 16 = 0 \<and> unat (blk_ptr a1) mod 16 = 0"
proof -
  let ?s = "ALIGN_UP n 16"
  have inv: "arena_inv (heap_live h) (blk_ptr a) (blk_end a) rs"
    using assms(3) by (simp add: arena_good_def)
  have *: "arena_good (if p = 0 then rs else (p, n) # rs, a1, h1) \<and>
      (unat (blk_ptr a) mod 16 = 0 \<longrightarrow> unat p mod 16 = 0 \<and> unat (blk_ptr a1) mod 16 = 0)"
  proof (cases "n = 0")
    case True
    then show ?thesis using assms(3,4) by (simp add: arena_alloc_unzeroed_def)
  next
    case False
    note s = arena_round_16 [OF assms(2) False]
    have sum: "unat (x + ?s) = unat x + unat ?s" if "unat x \<le> 2 ^ 47" for x
      using s(2) that by (subst unat_add_lem [THEN iffD1]) auto
    note e = arena_inv_end [OF inv]
    show ?thesis
    proof (cases "blk_ptr a + ?s > blk_end a")
      case True
      obtain r a2 h2 where nb: "arena_new_block M a ?s h = (r, a2, h2)" by (metis prod_cases3)
      have b: "unat ?s \<le> 2 ^ 50" using s(2) by simp
      note nbi = arena_new_block_inv [OF assms(1) b inv nb]
      note sz = arena_block_size_bounds [OF b]
      show ?thesis
      proof (cases r)
        case None
        then show ?thesis using assms(3,4) False True nb nbi by (auto simp: arena_alloc_unzeroed_def)
      next
        case (Some blk)
        then have i: "arena_inv (heap_live h2) (blk_ptr blk) (blk_end blk) rs"
          and al: "unat (blk_ptr blk) mod 16 = 0" "blk_ptr blk \<noteq> 0"
          and en: "unat (blk_end blk) = unat (blk_ptr blk) + unat (arena_block_size ?s)"
          using nbi by auto
        have le: "unat (blk_ptr blk) \<le> 2 ^ 47" using arena_inv_end [OF i] by simp
        have res: "p = blk_ptr blk" "h1 = h2" "blk_ptr a1 = blk_ptr blk + ?s" "blk_end a1 = blk_end blk"
          using assms(4) False True nb Some by (auto simp: arena_alloc_unzeroed_def)
        have "arena_inv (heap_live h2) (blk_ptr blk + ?s) (blk_end blk) ((blk_ptr blk, n) # rs)"
          using s(1) sz(1) by (intro arena_inv_carve [OF i]) (simp_all add: sum [OF le] en)
        then show ?thesis
          using al s(3) by (auto simp: arena_good_def res sum [OF le])
      qed
    next
      case fits: False
      have le: "unat (blk_ptr a) \<le> 2 ^ 47" using e by simp
      have res: "p = blk_ptr a" "h1 = h" "blk_ptr a1 = blk_ptr a + ?s" "blk_end a1 = blk_end a"
        using assms(4) False fits by (auto simp: arena_alloc_unzeroed_def)
      have "arena_inv (heap_live h) (blk_ptr a + ?s) (blk_end a) ((blk_ptr a, n) # rs)"
        using s(1) fits by (intro arena_inv_carve [OF inv]) (simp_all add: sum [OF le] word_le_nat_alt not_less)
      then show ?thesis
        using s(3) e by (auto simp: arena_good_def res sum [OF le])
    qed
  qed
  then show "arena_good (if p = 0 then rs else (p, n) # rs, a1, h1)"
    "unat (blk_ptr a) mod 16 = 0 \<Longrightarrow> unat p mod 16 = 0 \<and> unat (blk_ptr a1) mod 16 = 0" by auto
qed


lemma arena_alloc_good:
  assumes "malloc_ok M" "unat n \<le> 2 ^ 46" "arena_good (rs, a, h)" "arena_alloc M a n h = (p, a1, h1)"
  shows "arena_good (if p = 0 then rs else (p, n) # rs, a1, h1)"
proof -
  obtain h2 where u: "arena_alloc_unzeroed M a n h = (p, a1, h2)" and h1: "heap_live h1 = heap_live h2"
    using assms(4) by (auto simp: arena_alloc_def case_prod_beta Let_def prod_eq_iff)
  show ?thesis
    using arena_alloc_unzeroed_good(1) [OF assms(1-3) u] by (simp add: arena_good_def h1)
qed

lemma arena_alloc_aligned_good:
  assumes "malloc_ok M" "unat n \<le> 2 ^ 46" "unat al \<le> 2 ^ 46" "arena_good (rs, a, h)"
    "arena_alloc_aligned M a n al h = (p, a1, h1)"
  shows "arena_good (if p = 0 then rs else (p, n) # rs, a1, h1)"
proof -
  define l where "l = (if al < 16 then 16 else al)"
  have l: "unat l \<le> 2 ^ 46" "l \<noteq> 0" using assms(3) by (auto simp: l_def word_less_nat_alt)
  define x where "x = ALIGN_UP (blk_ptr a) l"
  define pad where "pad = n + (x - blk_ptr a)"
  have eq: "arena_alloc_aligned M a n al h =
    (if blk_ptr a + pad > blk_end a then
       (case arena_new_block M a (pad + l) h of
          (None, a1, h1) \<Rightarrow> (0, a1, h1)
        | (Some block, a1, h1) \<Rightarrow>
            let aligned = ALIGN_UP (blk_ptr block) l
            in (aligned, a1\<lparr>blk_ptr := aligned + n, blk_end := blk_end block\<rparr>, heap_zero aligned n h1))
     else (x, a\<lparr>blk_ptr := x + n\<rparr>, heap_zero x n h))"
    by (simp only: arena_alloc_aligned_def l_def x_def pad_def Let_def)
  have inv: "arena_inv (heap_live h) (blk_ptr a) (blk_end a) rs"
    using assms(4) by (simp add: arena_good_def)
  note e = arena_inv_end [OF inv]
  have up: "unat q \<le> unat (ALIGN_UP q l)" "unat (ALIGN_UP q l) < unat q + unat l" if "unat q \<le> 2 ^ 47" for q
    using ALIGN_UP_bounds [of q l] that l by auto
  have sum: "unat (v + w) = unat v + unat w" if "unat v + unat w < 2 ^ 60" for v w :: u64
    using that by (subst unat_add_lem [THEN iffD1]) auto
  have px: "unat (blk_ptr a) \<le> unat x" "unat x < unat (blk_ptr a) + unat l"
    using up [of "blk_ptr a"] e by (auto simp: x_def)
  then have d: "unat (x - blk_ptr a) = unat x - unat (blk_ptr a)"
    by (simp add: unat_sub word_le_nat_alt)
  have pad: "unat pad = unat n + (unat x - unat (blk_ptr a))"
    using px l(1) assms(2) d unfolding pad_def by (subst sum) auto
  show ?thesis
  proof (cases "blk_ptr a + pad > blk_end a")
    case True
    obtain r a2 h2 where nb: "arena_new_block M a (pad + l) h = (r, a2, h2)" by (metis prod_cases3)
    have pl: "unat (pad + l) = unat pad + unat l"
      using pad px l(1) assms(2) by (intro sum) auto
    then have b: "unat (pad + l) \<le> 2 ^ 50" using pad px l(1) assms(2) by simp
    note nbi = arena_new_block_inv [OF assms(1) b inv nb]
    note sz = arena_block_size_bounds [OF b]
    show ?thesis
    proof (cases r)
      case None
      then show ?thesis using assms(4,5) True nb nbi
        by (auto simp: eq Let_def)
    next
      case (Some blk)
      then have i: "arena_inv (heap_live h2) (blk_ptr blk) (blk_end blk) rs"
        and en: "unat (blk_end blk) = unat (blk_ptr blk) + unat (arena_block_size (pad + l))"
        using nbi by auto
      have le: "unat (blk_ptr blk) \<le> 2 ^ 47" "0 < unat (blk_ptr blk)" using arena_inv_end [OF i] by auto
      let ?y = "ALIGN_UP (blk_ptr blk) l"
      have res: "p = ?y" "heap_live h1 = heap_live h2" "blk_ptr a1 = ?y + n" "blk_end a1 = blk_end blk"
        using assms(5) True nb Some
        by (auto simp: eq Let_def)
      note y = up [OF le(1)]
      have yn: "unat (?y + n) = unat ?y + unat n"
        using y le l(1) assms(2) by (intro sum) auto
      have "arena_inv (heap_live h2) (?y + n) (blk_end blk) ((?y, n) # rs)"
        using y sz(1) pl pad by (intro arena_inv_carve [OF i]) (auto simp: yn en)
      moreover have "?y \<noteq> 0" using y(1) le(2) by auto
      ultimately show ?thesis by (simp add: arena_good_def res)
    qed
  next
    case False
    have res: "p = x" "heap_live h1 = heap_live h" "blk_ptr a1 = x + n" "blk_end a1 = blk_end a"
      using assms(5) False
      by (auto simp: eq Let_def)
    have xn: "unat (x + n) = unat x + unat n"
      using px e l(1) assms(2) by (intro sum) auto
    have pp: "unat (blk_ptr a + pad) = unat x + unat n"
      using pad px e l(1) assms(2) by (subst sum) auto
    have "arena_inv (heap_live h) (x + n) (blk_end a) ((x, n) # rs)"
      using px False pp by (intro arena_inv_carve [OF inv]) (auto simp: xn word_le_nat_alt not_less)
    moreover have "x \<noteq> 0" using px(1) e by auto
    ultimately show ?thesis by (simp add: arena_good_def res)
  qed
qed

lemma arena_requests_good:
  assumes "malloc_ok M"
  shows "list_all req_ok rs \<Longrightarrow> arena_good s \<Longrightarrow> arena_good (arena_requests M rs s)"
proof (induction rs arbitrary: s)
  case (Cons r rs)
  obtain out a h where s: "s = (out, a, h)" by (cases s)
  obtain p a1 h1 where q: "arena_request M a r h = (p, a1, h1)" by (metis prod_cases3)
  have ok: "req_ok r" "list_all req_ok rs" using Cons.prems(1) by auto
  have g: "arena_good (out, a, h)" using Cons.prems(2) s by simp
  have "arena_good (if p = 0 then out else (p, req_size r) # out, a1, h1)"
  proof (cases r)
    case (Zeroed n)
    then show ?thesis using arena_alloc_good [OF assms _ g, of n p a1 h1] ok(1) q
      by (auto simp: req_ok_def split: if_splits)
  next
    case (Unzeroed n)
    then show ?thesis using arena_alloc_unzeroed_good(1) [OF assms _ g, of n p a1 h1] ok(1) q
      by (auto simp: req_ok_def split: if_splits)
  next
    case (Aligned n al)
    then show ?thesis using arena_alloc_aligned_good [OF assms _ _ g, of n al p a1 h1] ok(1) q
      by (auto simp: req_ok_def split: if_splits)
  qed
  then show ?case using Cons.IH [OF ok(2)] by (simp add: s q)
qed simp

lemma arena_create_good:
  assumes "malloc_ok M" "list_all (\<lambda>q. region_end q \<le> 2 ^ 47) (heap_live h)" "unat bs \<le> 2 ^ 46"
    "arena_create_with_size M bs h = (Some a, h0)"
  shows "arena_good ([], a, h0) \<and> unat (blk_ptr a) mod 16 = 0"
proof -
  let ?m = "M h (SIZEOF_ARENA + bs)"
  have nz: "?m \<noteq> 0" and a: "blk_ptr a = ?m + SIZEOF_ARENA" "blk_end a = ?m + SIZEOF_ARENA + bs"
    and h0: "heap_live h0 = (?m, SIZEOF_ARENA + bs) # heap_live h"
    using assms(4) by (auto simp: arena_create_with_size_def heap_malloc_def Let_def split: if_splits)
  have n: "unat (SIZEOF_ARENA + bs) = 32 + unat bs"
    using assms(3) by (subst unat_add_lem [THEN iffD1]) (auto simp: SIZEOF_ARENA_def)
  have m: "unat ?m mod 16 = 0" "unat ?m + 32 + unat bs \<le> 2 ^ 47"
    using assms(1) [unfolded malloc_ok_def, rule_format, OF nz] n by simp_all
  have b: "unat (?m + SIZEOF_ARENA) = unat ?m + 32"
    using m(2) by (subst unat_add_lem [THEN iffD1]) (auto simp: SIZEOF_ARENA_def)
  have e: "unat (?m + SIZEOF_ARENA + bs) = unat ?m + 32 + unat bs"
    using m(2) b by (subst unat_add_lem [THEN iffD1]) auto
  have "unat (blk_ptr a) mod 16 = 0" using m(1) unfolding a b by presburger
  moreover have "arena_good ([], a, h0)"
    using assms(2) m by (auto simp: arena_good_def arena_inv_def a h0 e b n region_end_def list_all_iff)
  ultimately show ?thesis by simp
qed


section \<open>A concrete \<open>malloc\<close>\<close>

text \<open>
  An allocator that meets the contract, for the concrete runs below: the next multiple of 16 above
  every live block.
\<close>

definition bump_malloc :: malloc where
  "bump_malloc h n =
     (let t = foldr (\<lambda>r. max (region_end r)) (heap_live h) 4096;
          p = (t + 15) div 16 * 16
      in if p + unat n \<le> 2 ^ 47 then of_nat p else 0)"

lemma foldr_max_ge: "r \<in> set L \<Longrightarrow> f r \<le> foldr (\<lambda>r. max (f r)) L (k :: nat)"
  by (induction L) (auto simp: max_def)

lemma bump_malloc_ok [simp]: "malloc_ok bump_malloc"
  unfolding malloc_ok_def
proof (intro allI impI)
  fix h n
  assume nz: "bump_malloc h n \<noteq> 0"
  define t where "t = foldr (\<lambda>r. max (region_end r)) (heap_live h) 4096"
  define p where "p = (t + 15) div 16 * 16"
  have le: "p + unat n \<le> 2 ^ 47" and b: "bump_malloc h n = of_nat p"
    using nz by (auto simp: bump_malloc_def Let_def p_def t_def split: if_splits)
  have p: "unat (of_nat p :: u64) = p"
    using le by (simp add: unat_of_nat)
  have "region_disjoint (of_nat p, n) r" if "r \<in> set (heap_live h)" for r
  proof -
    have "region_end r \<le> t" unfolding t_def by (rule foldr_max_ge [OF that])
    moreover have "t \<le> p" by (simp add: p_def)
    ultimately show ?thesis by (simp add: region_disjoint_def p)
  qed
  then show "unat (bump_malloc h n) mod 16 = 0 \<and> unat (bump_malloc h n) + unat n \<le> 2 ^ 47 \<and>
     (\<forall>r \<in> set (heap_live h). region_disjoint (bump_malloc h n, n) r)"
    using le by (simp add: b p) (simp add: p_def)
qed

definition empty_heap :: Heap where
  "empty_heap = \<lparr>heap_live = [], heap_mem = (\<lambda>_. NUL)\<rparr>"

section \<open>Properties\<close>

text \<open>C14: Whatever \<open>malloc\<close> answers within its contract, the regions that any sequence of
  requests (zeroed, unzeroed, aligned; none above 64 TB) obtains from a fresh arena lie in live heap
  blocks and overlap neither each other nor the part of the arena still free.\<close>
theorem arena_regions_live_and_disjoint:
  assumes "malloc_ok M" "list_all (\<lambda>q. region_end q \<le> 2 ^ 47) (heap_live h)"
    "arena_create M h = (Some a, h0)" "list_all req_ok reqs"
    "arena_requests M reqs ([], a, h0) = (out, a', h')"
  shows "(\<forall>r \<in> set out. \<exists>q \<in> set (heap_live h'). region_within r q) \<and>
    sorted_wrt region_disjoint out \<and>
    (\<forall>r \<in> set out. region_end r \<le> unat (blk_ptr a') \<or> unat (blk_end a') \<le> unat (fst r))"
proof -
  have "arena_good ([], a, h0)"
    using arena_create_good [OF assms(1,2) _ assms(3) [unfolded arena_create_def]]
    by (simp add: DEFAULT_BLOCK_SIZE_def)
  from arena_requests_good [OF assms(1,4) this] show ?thesis
    by (auto simp: assms(5) arena_good_def arena_inv_def)
qed

lemma arena_plain_aligned:
  assumes "malloc_ok M"
  shows "list_all (\<lambda>n. unat n \<le> 2 ^ 46) ns \<Longrightarrow> arena_good (out, a, h) \<Longrightarrow> unat (blk_ptr a) mod 16 = 0 \<Longrightarrow>
    \<forall>r \<in> set out. unat (fst r) mod 16 = 0 \<Longrightarrow>
    \<forall>r \<in> set (fst (arena_requests M (map Zeroed ns) (out, a, h))). unat (fst r) mod 16 = 0"
proof (induction ns arbitrary: out a h)
  case (Cons n ns)
  obtain p a1 h1 where q: "arena_alloc M a n h = (p, a1, h1)" by (metis prod_cases3)
  obtain h2 where u: "arena_alloc_unzeroed M a n h = (p, a1, h2)"
    using q by (auto simp: arena_alloc_def case_prod_beta Let_def prod_eq_iff)
  have n: "unat n \<le> 2 ^ 46" using Cons.prems(1) by simp
  note al = arena_alloc_unzeroed_good(2) [OF assms n Cons.prems(2) u Cons.prems(3)]
  have g: "arena_good (if p = 0 then out else (p, n) # out, a1, h1)"
    by (rule arena_alloc_good [OF assms n Cons.prems(2) q])
  have step: "arena_requests M (map Zeroed (n # ns)) (out, a, h) =
      arena_requests M (map Zeroed ns) (if p = 0 then out else (p, n) # out, a1, h1)"
    by (simp add: q)
  show ?case
    unfolding step
  proof (rule Cons.IH [OF _ g])
    show "list_all (\<lambda>n. unat n \<le> 2 ^ 46) ns" using Cons.prems(1) by simp
    show "unat (blk_ptr a1) mod 16 = 0" using al by blast
    show "\<forall>r \<in> set (if p = 0 then out else (p, n) # out). unat (fst r) mod 16 = 0"
      using al Cons.prems(4) by (simp split: if_splits)
  qed
qed simp

text \<open>In a run of plain allocations every address is a multiple of 16, as \<open>arena.h\<close> promises.\<close>
theorem arena_alloc_16_aligned:
  assumes "malloc_ok M" "list_all (\<lambda>q. region_end q \<le> 2 ^ 47) (heap_live h)"
    "arena_create M h = (Some a, h0)" "list_all (\<lambda>n. unat n \<le> 2 ^ 46) ns"
  shows "list_all (\<lambda>r. unat (fst r) mod 16 = 0) (fst (arena_requests M (map Zeroed ns) ([], a, h0)))"
proof -
  have "arena_good ([], a, h0)" "unat (blk_ptr a) mod 16 = 0"
    using arena_create_good [OF assms(1,2) _ assms(3) [unfolded arena_create_def]]
    by (simp_all add: DEFAULT_BLOCK_SIZE_def)
  from arena_plain_aligned [OF assms(1,4) this] show ?thesis
    by (simp add: list_all_iff del: fst_conv)
qed


definition demo_arena :: "Arena \<times> Heap" where
  "demo_arena = (let (r, h) = arena_create bump_malloc empty_heap in (the r, h))"

lemmas arena_eval = arena_alloc_def arena_alloc_unzeroed_def arena_alloc_aligned_def arena_new_block_def
  heap_malloc_def bump_malloc_def arena_block_size_def DEFAULT_BLOCK_SIZE_def SIZEOF_ARENA_def
  ALIGN_UP_def region_end_def heap_zero_def Let_def

lemma demo_arena_eval:
  "demo_arena = (\<lparr>blk_base = 4128, blk_ptr = 4128, blk_end = 69664, blk_next = []\<rparr>,
     \<lparr>heap_live = [(4096, 65568)], heap_mem = (\<lambda>_. NUL)\<rparr>)"
  by (simp add: demo_arena_def arena_create_def arena_create_with_size_def empty_heap_def arena_eval)

lemma demo_arena_create:
  "arena_create bump_malloc empty_heap = (Some (fst demo_arena), snd demo_arena)"
  by (simp add: demo_arena_eval arena_create_def arena_create_with_size_def empty_heap_def arena_eval)

text \<open>A run of three requests, the last of which needs a second block.\<close>

definition demo_run :: "region list \<times> Arena \<times> Heap" where
  "demo_run = arena_requests bump_malloc [Zeroed 24, Aligned 10 64, Unzeroed 70000] ([], demo_arena)"

lemma demo_run_eval: "fst demo_run = [(69696, 70000), (4160, 10), (4128, 24)]"
  by (simp add: demo_run_def demo_arena_eval arena_eval)

theorem arena_regions_live_and_disjoint_witness:
  "length (fst demo_run) = 3 \<and> sorted_wrt region_disjoint (fst demo_run) \<and>
   list_all (\<lambda>r. list_ex (region_within r) (heap_live (snd (snd demo_run)))) (fst demo_run)"
proof -
  have "list_all (\<lambda>q. region_end q \<le> 2 ^ 47) (heap_live empty_heap)" by (simp add: empty_heap_def)
  moreover have "list_all req_ok [Zeroed 24, Aligned 10 64, Unzeroed 70000]" by (simp add: req_ok_def)
  moreover have "arena_requests bump_malloc [Zeroed 24, Aligned 10 64, Unzeroed 70000] ([], fst demo_arena, snd demo_arena)
      = (fst demo_run, fst (snd demo_run), snd (snd demo_run))"
    by (simp only: demo_run_def prod.collapse)
  ultimately show ?thesis
    using arena_regions_live_and_disjoint [OF bump_malloc_ok _ demo_arena_create] demo_run_eval
    unfolding list_all_iff list_ex_iff
    by (metis length_Cons list.size(3) numeral_3_eq_3)
qed

theorem arena_alloc_16_aligned_witness:
  "list_all (\<lambda>r. unat (fst r) mod 16 = 0)
     (fst (arena_requests bump_malloc (map Zeroed [24, 1, 70000]) ([], fst demo_arena, snd demo_arena)))"
  by (rule arena_alloc_16_aligned [OF bump_malloc_ok _ demo_arena_create])
    (simp_all add: empty_heap_def)

text \<open>The alignment promise does not survive \<open>arena_alloc_aligned\<close>, which leaves the bump
  pointer where its object ends: the next plain allocation answers an address that is no multiple
  of 16.\<close>
theorem arena_alloc_misaligned_after_aligned:
  "fst (arena_requests bump_malloc [Aligned 10 64, Zeroed 8] ([], demo_arena)) = [(4170, 8), (4160, 10)]"
  by (simp add: demo_arena_eval arena_eval)

text \<open>A request within 15 bytes of \<open>SIZE_MAX\<close> rounds up to 0: the arena answers its bump
  pointer and reserves nothing, so the next request gets the same address.\<close>
theorem arena_alloc_huge_reserves_nothing:
  assumes "2 ^ 64 - 16 < unat n" "blk_ptr a \<le> blk_end a"
  shows "arena_alloc_unzeroed M a n h = (blk_ptr a, a, h)"
proof -
  have n: "unat n < 2 ^ 64" using unsigned_less [of n, where ?'a = nat] by simp
  have "unat (n + 15) = unat n + 15 - 2 ^ 64"
    using assms(1) n by (simp add: unat_word_ariths mod_if)
  then have lt: "unat (n + 15) < 16" using n by simp
  then have "take_bit 4 (n + 15) = n + 15"
    by (simp add: take_bit_eq_mod word_less_nat_alt mod_word_less)
  then have "(n + 15) AND 15 = n + 15"
    by (simp add: take_bit_eq_mask mask_eq_exp_minus_1)
  then have "unat ((n + 15) AND NOT 15) = 0" by (simp only: unat_and_not)
  then have "ALIGN_UP n 16 = 0" by (simp add: ALIGN_UP_def unat_eq_zero)
  moreover have "n \<noteq> 0" using assms(1) by auto
  ultimately show ?thesis using assms(2) by (simp add: arena_alloc_unzeroed_def leD)
qed

theorem arena_alloc_huge_reserves_nothing_witness:
  "arena_alloc_unzeroed bump_malloc (fst demo_arena) 0xFFFFFFFFFFFFFFFF (snd demo_arena)
     = (4128, fst demo_arena, snd demo_arena)"
  using arena_alloc_huge_reserves_nothing [of "0xFFFFFFFFFFFFFFFF" "fst demo_arena" bump_malloc "snd demo_arena"]
  by (simp add: demo_arena_eval)

text \<open>After a second block and a reset, the arena still carries the end of the freed block: it
  then hands out a region that lies in no live block.\<close>
theorem arena_reset_leaves_stale_end:
  "let (out, a, h) = arena_requests bump_malloc [Zeroed 65536, Zeroed 16] ([], demo_arena);
       (a1, h1) = arena_reset a h;
       (out1, a2, h2) = arena_requests bump_malloc [Unzeroed 65536, Unzeroed 48] ([], a1, h1)
   in out1 = [(69664, 48), (4128, 65536)] \<and> heap_live h2 = [(4096, 65568)] \<and>
      \<not> region_within (69664, 48) (4096, 65568)"
  by (simp add: demo_arena_eval arena_eval arena_reset_def heap_free_def region_within_def)

text \<open>A string copied into an arena reads back with its terminator, and no other byte of memory
  changes.\<close>
theorem arena_strndup_reads_back:
  assumes "arena_strndup M a s h = (p, a1, h1)" "p \<noteq> 0" "length s < 2 ^ 60"
  shows "heap_read p (length s + 1) h1 = s @ [NUL] \<and>
    (\<forall>x. unat (x - p) \<le> length s \<or> heap_mem h1 x = heap_mem h x)"
proof -
  have u: "unat (of_nat k :: u64) = k" if "k \<le> length s + 1" for k
    using that assms(3) by (simp add: unat_of_nat)
  let ?n = "of_nat (length s) :: u64"
  obtain h2 where al: "arena_alloc_unzeroed M a (?n + 1) h = (p, a1, h2)"
    using assms(1) by (auto simp: arena_strndup_def arena_alloc_def case_prod_beta Let_def prod_eq_iff)
  have keep: "heap_mem h2 = heap_mem h"
    using al by (auto simp: arena_alloc_unzeroed_def arena_new_block_def heap_malloc_def Let_def
        split: if_splits)
  have h1: "h1 = heap_store (p + ?n) [NUL] (heap_store p s (heap_zero p (?n + 1) h2))"
    using assms(1,2) al by (auto simp: arena_strndup_def arena_alloc_def)
  have n1: "unat (?n + 1) = length s + 1" using u [of "length s + 1"] by (simp add: add.commute)
  have "heap_mem h1 (p + of_nat i) = (s @ [NUL]) ! i" if "i \<le> length s" for i
  proof -
    have "p + of_nat i - (p + ?n) = of_nat i - ?n" by simp
    moreover have "unat (of_nat i - ?n :: u64) = 0 \<longleftrightarrow> i = length s"
      using u [of i] u [of "length s"] that by (metis eq_iff_diff_eq_0 le_add1 trans_le_add1 unat_eq_zero)
    ultimately show ?thesis
      using that u [of i] by (auto simp: h1 heap_store_def nth_append)
  qed
  then have "heap_read p (length s + 1) h1 = s @ [NUL]"
    by (intro nth_equalityI) (simp_all add: heap_read_def del: upt_Suc)
  moreover have "unat (x - p) \<le> length s \<or> heap_mem h1 x = heap_mem h x" for x
  proof (cases "unat (x - p) \<le> length s")
    case False
    have "unat (x - (p + ?n)) \<noteq> 0"
      using False u [of "length s"] by (auto simp: unat_eq_zero)
    with False n1 keep show ?thesis
      by (simp add: h1 heap_store_def heap_zero_def word_less_nat_alt)
  qed simp
  ultimately show ?thesis by blast
qed

theorem arena_strndup_reads_back_witness:
  "let (p, a1, h1) = arena_strndup bump_malloc (fst demo_arena) ''abc'' (snd demo_arena)
   in p = 4128 \<and> heap_read p (length ''abc'' + 1) h1 = ''abc'' @ [NUL]"
proof -
  obtain p a1 h1 where r: "arena_strndup bump_malloc (fst demo_arena) ''abc'' (snd demo_arena) = (p, a1, h1)"
    by (metis prod_cases3)
  then have "p = 4128" by (auto simp: demo_arena_eval arena_strndup_def arena_eval)
  then show ?thesis using arena_strndup_reads_back [OF r] r by simp
qed

text \<open>\<open>arena_used\<close> is the number of bytes taken as long as the arena has one block; with a
  second block it subtracts addresses of different blocks.\<close>
theorem arena_used_one_block:
  "arena_used (fst (snd (arena_requests bump_malloc [Zeroed 24, Unzeroed 100] ([], demo_arena)))) = 32 + 112 \<and>
   arena_used (fst (snd (arena_requests bump_malloc [Zeroed 65536, Zeroed 16] ([], demo_arena)))) = 65536 + 16 + 32"
  by (simp add: demo_arena_eval arena_eval arena_used_def)

end
