(* ===== verification/Vector.thy ===== *)
theory Vector
  imports Prelude
begin

text \<open>
  Growable arrays.  The locale \<open>doubling_buffer\<close> states the contract every one of them follows in
  this code base (the vector of \<open>src/vector.c\<close>, the node lists of \<open>src/ast.c\<close>, the instruction
  arrays of \<open>src/asm_ir.c\<close>, the symbol array of \<open>src/aelib.c\<close>): an append keeps what is stored and
  doubles the capacity when it is full, or fails and changes nothing.  The second part is the byte
  level model of \<open>src/vector.c\<close> itself, with its interpretation of the contract.

  Memory comes from a parameter \<open>fresh\<close>: the bytes of a new block of a given size, \<open>None\<close> when the
  allocation fails; \<open>fresh_ok\<close> says that a block has the size asked for.  Sizes are naturals: the
  product capacity times element size could only wrap after a block of 2 to the 63 bytes had been
  obtained.
\<close>

section \<open>The contract\<close>

locale doubling_buffer =
  fixes push :: "'x \<Rightarrow> 'b \<Rightarrow> 'b option"
    and elems :: "'b \<Rightarrow> 'x list"
    and capacity :: "'b \<Rightarrow> nat"
    and wf :: "'b \<Rightarrow> bool"
    and item_ok :: "'x \<Rightarrow> bool"
    and init_cap :: nat
  assumes init_pos: "0 < init_cap"
    and wf_capacity: "wf b \<Longrightarrow> length (elems b) \<le> capacity b"
    and push_step: "wf b \<Longrightarrow> item_ok x \<Longrightarrow> push x b = Some b' \<Longrightarrow>
      wf b' \<and> elems b' = elems b @ [x] \<and>
      capacity b' = (if length (elems b) < capacity b then capacity b
                     else if capacity b = 0 then init_cap else 2 * capacity b)"
begin

primrec push_all :: "'x list \<Rightarrow> 'b \<Rightarrow> 'b option" where
  "push_all [] b = Some b"
| "push_all (x # xs) b = (case push x b of None \<Rightarrow> None | Some b' \<Rightarrow> push_all xs b')"

lemma push_all_elems:
  "wf b \<Longrightarrow> list_all item_ok xs \<Longrightarrow> push_all xs b = Some b' \<Longrightarrow> wf b' \<and> elems b' = elems b @ xs"
proof (induction xs arbitrary: b)
  case (Cons x xs)
  then show ?case using push_step [of b x] by (fastforce split: option.splits)
qed simp

text \<open>The capacity never exceeds twice what is stored, or the first allocation.\<close>

lemma push_all_capacity:
  assumes "wf b" "list_all item_ok xs" "push_all xs b = Some b'"
    "capacity b \<le> max init_cap (2 * length (elems b))"
  shows "length (elems b') \<le> capacity b' \<and> capacity b' \<le> max init_cap (2 * length (elems b'))"
  using assms
proof (induction xs arbitrary: b)
  case Nil
  then show ?case using wf_capacity by auto
next
  case (Cons x xs)
  obtain b1 where b1: "push x b = Some b1" "push_all xs b1 = Some b'"
    using Cons.prems(3) by (auto split: option.splits)
  have st: "wf b1" "elems b1 = elems b @ [x]"
    "capacity b1 = (if length (elems b) < capacity b then capacity b
                    else if capacity b = 0 then init_cap else 2 * capacity b)"
    using push_step [OF Cons.prems(1) _ b1(1)] Cons.prems(2) by auto
  have "capacity b1 \<le> max init_cap (2 * length (elems b1))"
    using st Cons.prems(4) wf_capacity [OF Cons.prems(1)] by auto
  then show ?case using Cons.IH [OF st(1) _ b1(2)] Cons.prems(2) by simp
qed

text \<open>Amortised cost: the slots copied while pushing a list onto an empty buffer number less than
  twice its length plus the first allocation.\<close>

primrec copied :: "'x list \<Rightarrow> 'b \<Rightarrow> nat" where
  "copied [] b = 0"
| "copied (x # xs) b = (if length (elems b) < capacity b then 0 else length (elems b)) +
     (case push x b of None \<Rightarrow> 0 | Some b' \<Rightarrow> copied xs b')"

lemma copied_le:
  "wf b \<Longrightarrow> list_all item_ok xs \<Longrightarrow> push_all xs b = Some b' \<Longrightarrow> copied xs b + capacity b \<le> capacity b'"
proof (induction xs arbitrary: b)
  case (Cons x xs)
  obtain b1 where b1: "push x b = Some b1" "push_all xs b1 = Some b'"
    using Cons.prems(3) by (auto split: option.splits)
  have "wf b1" and c: "capacity b1 = (if length (elems b) < capacity b then capacity b
                    else if capacity b = 0 then init_cap else 2 * capacity b)"
    using push_step [OF Cons.prems(1) _ b1(1)] Cons.prems(2) by auto
  then have "copied xs b1 + capacity b1 \<le> capacity b'"
    using Cons.IH [OF _ _ b1(2)] Cons.prems(2) by simp
  then show ?case
    using c wf_capacity [OF Cons.prems(1)] by (auto simp: b1(1) split: if_splits)
qed simp

end

section \<open>\<open>src/vector.c\<close>\<close>

record Vector =
  vec_data :: string
  vec_len :: nat
  vec_cap :: nat
  vec_elem_size :: nat
  vec_arena :: bool

definition VEC_INIT_CAP :: nat where "VEC_INIT_CAP = 16"

type_synonym fresh = "nat \<Rightarrow> string option"

definition fresh_ok :: "fresh \<Rightarrow> bool" where
  "fresh_ok F \<longleftrightarrow> (\<forall>n b. F n = Some b \<longrightarrow> length b = n)"

definition vector_create :: "fresh \<Rightarrow> bool \<Rightarrow> nat \<Rightarrow> Vector option" where
  "vector_create F arena elem_size =
     (case F (VEC_INIT_CAP * elem_size) of
        None \<Rightarrow> None
      | Some d \<Rightarrow> Some \<lparr>vec_data = d, vec_len = 0, vec_cap = VEC_INIT_CAP,
                        vec_elem_size = elem_size, vec_arena = arena\<rparr>)"

definition vector_create_temp :: "fresh \<Rightarrow> nat \<Rightarrow> Vector option" where
  "vector_create_temp F elem_size = vector_create F False elem_size"

text \<open>In an arena the live elements are copied to a new block; otherwise \<open>realloc\<close> keeps the whole
  old block.\<close>

definition vector_grow :: "fresh \<Rightarrow> Vector \<Rightarrow> Vector option" where
  "vector_grow F v =
     (let new_cap = vec_cap v * 2;
          new_size = new_cap * vec_elem_size v;
          kept = (if vec_arena v then vec_len v * vec_elem_size v else length (vec_data v))
      in case F new_size of
           None \<Rightarrow> None
         | Some d \<Rightarrow> Some (v\<lparr>vec_data := take kept (vec_data v) @ drop kept d, vec_cap := new_cap\<rparr>))"

text \<open>A slot is the offset of its first byte in the data; \<open>memcpy\<close> writes one element there.\<close>

definition vec_write :: "Vector \<Rightarrow> nat \<Rightarrow> string \<Rightarrow> Vector" where
  "vec_write v i x = v\<lparr>vec_data := take (i * vec_elem_size v) (vec_data v) @ take (vec_elem_size v) x
     @ drop (i * vec_elem_size v + vec_elem_size v) (vec_data v)\<rparr>"

definition vector_push :: "fresh \<Rightarrow> Vector \<Rightarrow> string \<Rightarrow> (nat \<times> Vector) option" where
  "vector_push F v item =
     (case (if vec_len v \<ge> vec_cap v then vector_grow F v else Some v) of
        None \<Rightarrow> None
      | Some v1 \<Rightarrow> Some (vec_len v1 * vec_elem_size v1,
          (vec_write v1 (vec_len v1) item)\<lparr>vec_len := vec_len v1 + 1\<rparr>))"

definition vector_push_unsafe :: "fresh \<Rightarrow> Vector \<Rightarrow> (nat \<times> Vector) option" where
  "vector_push_unsafe F v =
     (case (if vec_len v \<ge> vec_cap v then vector_grow F v else Some v) of
        None \<Rightarrow> None
      | Some v1 \<Rightarrow> Some (vec_len v1 * vec_elem_size v1, v1\<lparr>vec_len := vec_len v1 + 1\<rparr>))"

definition vector_get :: "Vector \<Rightarrow> nat \<Rightarrow> nat option" where
  "vector_get v i = (if i \<ge> vec_len v then None else Some (i * vec_elem_size v))"

definition vector_set :: "Vector \<Rightarrow> nat \<Rightarrow> string \<Rightarrow> Vector" where
  "vector_set v i item = (if i \<ge> vec_len v then v else vec_write v i item)"

definition vector_pop :: "Vector \<Rightarrow> Vector" where
  "vector_pop v = (if vec_len v > 0 then v\<lparr>vec_len := vec_len v - 1\<rparr> else v)"

definition vector_clear :: "Vector \<Rightarrow> Vector" where
  "vector_clear v = v\<lparr>vec_len := 0\<rparr>"

section \<open>The elements a vector holds\<close>

definition vec_elem :: "Vector \<Rightarrow> nat \<Rightarrow> string" where
  "vec_elem v i = take (vec_elem_size v) (drop (i * vec_elem_size v) (vec_data v))"

definition vec_elems :: "Vector \<Rightarrow> string list" where
  "vec_elems v = map (vec_elem v) [0..<vec_len v]"

definition vec_wf :: "Vector \<Rightarrow> bool" where
  "vec_wf v \<longleftrightarrow> vec_len v \<le> vec_cap v \<and> 0 < vec_cap v \<and> length (vec_data v) = vec_cap v * vec_elem_size v"

lemma slot_room:
  assumes "i < vec_cap v" "vec_wf v"
  shows "i * vec_elem_size v + vec_elem_size v \<le> length (vec_data v)"
proof -
  have "(i + 1) * vec_elem_size v \<le> vec_cap v * vec_elem_size v"
    using assms(1) by (intro mult_le_mono1) simp
  then show ?thesis using assms(2) by (simp add: vec_wf_def)
qed

lemma slots_apart:
  assumes "j \<noteq> i" shows "j * n + n \<le> i * n \<or> i * n + n \<le> j * (n :: nat)"
proof -
  have "(j + 1) * n \<le> i * n \<or> (i + 1) * n \<le> j * n"
    using assms by (metis Suc_eq_plus1 Suc_leI linorder_neqE_nat mult_le_mono1)
  then show ?thesis by (simp add: add.commute)
qed

lemma slice_overwrite:
  assumes "k + length x \<le> length d" "j + n \<le> k \<or> k + length x \<le> j"
  shows "take n (drop j (take k d @ x @ drop (k + length x) d)) = take n (drop j d)"
  using assms(2)
proof
  assume "j + n \<le> k"
  then have "n \<le> k - j" "n \<le> length d - j" "j \<le> k" using assms(1) by auto
  then show ?thesis using assms(1) by (simp add: drop_take)
next
  assume j: "k + length x \<le> j"
  then have "drop j (take k d @ x @ drop (k + length x) d) = drop (j - k - length x) (drop (k + length x) d)"
    using assms(1) by (simp add: min_def)
  then show ?thesis using j by simp
qed

lemma vec_write_wf:
  assumes "vec_wf v" "i < vec_cap v" "length x = vec_elem_size v"
  shows "vec_wf (vec_write v i x)"
  using slot_room [OF assms(2,1)] assms by (auto simp: vec_write_def vec_wf_def)

lemma vec_elem_write:
  assumes "vec_wf v" "i < vec_cap v" "length x = vec_elem_size v" "j < vec_cap v"
  shows "vec_elem (vec_write v i x) j = (if j = i then x else vec_elem v j)"
proof -
  let ?n = "vec_elem_size v"
  note room = slot_room [OF assms(2,1)] slot_room [OF assms(4,1)]
  show ?thesis
  proof (cases "j = i")
    case True
    then show ?thesis using room assms(3) by (simp add: vec_elem_def vec_write_def)
  next
    case False
    then show ?thesis
      using slots_apart [OF False, of ?n] room assms(3)
        slice_overwrite [of "i * ?n" x "vec_data v" "j * ?n" ?n]
      by (auto simp: vec_elem_def vec_write_def)
  qed
qed

lemma vec_grow_wf:
  assumes "fresh_ok F" "vec_wf v" "vector_grow F v = Some v1"
  shows "vec_wf v1" "vec_elems v1 = vec_elems v" "vec_len v1 = vec_len v"
    "vec_elem_size v1 = vec_elem_size v" "vec_cap v1 = 2 * vec_cap v" "vec_arena v1 = vec_arena v"
proof -
  let ?n = "vec_elem_size v"
  define kept where "kept = (if vec_arena v then vec_len v * ?n else length (vec_data v))"
  obtain d where d: "F (vec_cap v * 2 * ?n) = Some d"
    and v1: "v1 = v\<lparr>vec_data := take kept (vec_data v) @ drop kept d, vec_cap := vec_cap v * 2\<rparr>"
    using assms(3) by (auto simp: vector_grow_def Let_def kept_def split: option.splits)
  have len: "length d = vec_cap v * 2 * ?n" using assms(1) d by (simp add: fresh_ok_def)
  have k: "vec_len v * ?n \<le> kept" "kept \<le> length (vec_data v)"
    using assms(2) by (auto simp: kept_def vec_wf_def)
  show "vec_wf v1" using assms(2) k len by (auto simp: v1 vec_wf_def)
  show "vec_len v1 = vec_len v" "vec_elem_size v1 = vec_elem_size v" "vec_cap v1 = 2 * vec_cap v"
    "vec_arena v1 = vec_arena v"
    by (simp_all add: v1)
  have "vec_elem v1 i = vec_elem v i" if "i < vec_len v" for i
  proof -
    have "(i + 1) * ?n \<le> vec_len v * ?n" using that by (intro mult_le_mono1) simp
    then have "i * ?n + ?n \<le> kept" using k by simp
    then have "?n \<le> kept - i * ?n" "?n \<le> length (vec_data v) - i * ?n" "i * ?n \<le> kept"
      using k by auto
    then show ?thesis using k by (simp add: vec_elem_def v1 drop_take)
  qed
  then show "vec_elems v1 = vec_elems v" by (simp add: vec_elems_def v1)
qed


lemma vector_push_step:
  assumes "fresh_ok F" "vec_wf v" "length x = vec_elem_size v" "vector_push F v x = Some (off, v1)"
  shows "vec_wf v1 \<and> vec_elems v1 = vec_elems v @ [x] \<and> vec_elem_size v1 = vec_elem_size v \<and>
    off = vec_len v * vec_elem_size v \<and> vec_arena v1 = vec_arena v \<and>
    vec_cap v1 = (if vec_len v < vec_cap v then vec_cap v else 2 * vec_cap v)"
proof -
  obtain v0 where v0: "(if vec_len v \<ge> vec_cap v then vector_grow F v else Some v) = Some v0"
    and off: "off = vec_len v0 * vec_elem_size v0"
    and v1: "v1 = (vec_write v0 (vec_len v0) x)\<lparr>vec_len := vec_len v0 + 1\<rparr>"
    using assms(4) unfolding vector_push_def by (auto split: option.splits)
  have g: "vec_wf v0" "vec_elems v0 = vec_elems v" "vec_len v0 = vec_len v"
    "vec_elem_size v0 = vec_elem_size v" "vec_arena v0 = vec_arena v"
    "vec_cap v0 = (if vec_len v < vec_cap v then vec_cap v else 2 * vec_cap v)"
    using v0 vec_grow_wf [OF assms(1,2)] assms(2) by (auto split: if_splits)
  have room: "vec_len v0 < vec_cap v0" using g(3,6) assms(2) by (auto simp: vec_wf_def)
  have x: "length x = vec_elem_size v0" using assms(3) g(4) by simp
  have wf: "vec_wf (vec_write v0 (vec_len v0) x)" by (rule vec_write_wf [OF g(1) room x])
  have el: "vec_elem v1 j = (if j = vec_len v0 then x else vec_elem v0 j)" if "j \<le> vec_len v0" for j
    using vec_elem_write [OF g(1) room x, of j] that room by (simp add: v1 vec_elem_def)
  have "vec_elems v1 = vec_elems v0 @ [x]"
    using el by (simp add: vec_elems_def v1 vec_write_def del: upt_Suc) (simp add: v1 vec_write_def)
  moreover have "vec_wf v1" using wf room by (simp add: v1 vec_wf_def vec_write_def)
  ultimately show ?thesis
    using g off by (simp add: v1 vec_write_def)
qed

text \<open>The vector meets the contract, for either kind of memory that keeps its promise.\<close>

definition zeroed :: fresh where "zeroed n = Some (replicate n NUL)"

lemma zeroed_ok [simp]: "fresh_ok zeroed"
  by (simp add: fresh_ok_def zeroed_def)

text \<open>Memory of a bounded machine: a block is granted up to a limit.\<close>

definition bounded_mem :: "nat \<Rightarrow> fresh" where
  "bounded_mem limit n = (if n \<le> limit then Some (replicate n NUL) else None)"

lemma bounded_mem_ok [simp]: "fresh_ok (bounded_mem limit)"
  by (simp add: fresh_ok_def bounded_mem_def)

interpretation vec: doubling_buffer
  "\<lambda>x v. map_option snd (vector_push (bounded_mem limit) v x)" vec_elems vec_cap
  "\<lambda>v. vec_wf v \<and> vec_elem_size v = esz" "\<lambda>x. length x = esz" VEC_INIT_CAP
  for limit esz :: nat
proof
  fix b x b'
  assume wf: "vec_wf b \<and> vec_elem_size b = esz" and x: "length x = esz"
    and "map_option snd (vector_push (bounded_mem limit) b x) = Some b'"
  then obtain off where p: "vector_push (bounded_mem limit) b x = Some (off, b')" by auto
  show "(vec_wf b' \<and> vec_elem_size b' = esz) \<and> vec_elems b' = vec_elems b @ [x] \<and>
    vec_cap b' = (if length (vec_elems b) < vec_cap b then vec_cap b
                  else if vec_cap b = 0 then VEC_INIT_CAP else 2 * vec_cap b)"
    using vector_push_step [OF bounded_mem_ok _ _ p] wf x by (auto simp: vec_wf_def vec_elems_def)
qed (auto simp: VEC_INIT_CAP_def vec_wf_def vec_elems_def)


section \<open>Properties\<close>

primrec vector_push_list :: "fresh \<Rightarrow> string list \<Rightarrow> Vector \<Rightarrow> Vector option" where
  "vector_push_list F [] v = Some v"
| "vector_push_list F (x # xs) v =
     (case vector_push F v x of None \<Rightarrow> None | Some (off, v1) \<Rightarrow> vector_push_list F xs v1)"

lemma vector_push_list_push_all:
  "vector_push_list (bounded_mem limit) xs v = vec.push_all limit xs v"
  by (induction xs arbitrary: v) (auto split: option.splits)

lemma vector_create_wf:
  assumes "fresh_ok F" "vector_create F ar esz = Some v"
  shows "vec_wf v \<and> vec_elem_size v = esz \<and> vec_elems v = [] \<and> vec_cap v = VEC_INIT_CAP"
  using assms by (auto simp: vector_create_def fresh_ok_def vec_wf_def vec_elems_def VEC_INIT_CAP_def
      split: option.splits)

text \<open>C15: Elements pushed onto a new vector read back in order through every growth, and the
  capacity stays within twice the length (or the first block); when memory runs out the push
  answers NULL instead.\<close>
theorem vector_pushes_read_back:
  assumes "vector_create (bounded_mem limit) ar esz = Some v" "list_all (\<lambda>x. length x = esz) xs"
    "vector_push_list (bounded_mem limit) xs v = Some v'"
  shows "vec_elems v' = xs \<and> vec_wf v' \<and> vec_cap v' \<le> max VEC_INIT_CAP (2 * length xs) \<and>
    (\<forall>i. vector_get v' i = (if i < length xs then Some (i * esz) else None))"
proof -
  have c: "vec_wf v" "vec_elem_size v = esz" "vec_elems v = []" "vec_cap v = VEC_INIT_CAP"
    using vector_create_wf [OF bounded_mem_ok assms(1)] by auto
  have all: "vec.push_all limit xs v = Some v'"
    using assms(3) by (simp add: vector_push_list_push_all)
  have e: "vec_wf v'" "vec_elem_size v' = esz" "vec_elems v' = xs"
    using vec.push_all_elems [OF _ assms(2) all] c by auto
  then have "vec_len v' = length xs" by (auto simp: vec_elems_def)
  then show ?thesis
    using e c vec.push_all_capacity [OF _ assms(2) all] by (auto simp: vector_get_def)
qed

theorem vector_pushes_read_back_witness:
  "let v' = the (vector_push_list (bounded_mem 4096) [''ab'', ''cd'', ''ef''] (the (vector_create_temp (bounded_mem 4096) 2)))
   in vec_elems v' = [''ab'', ''cd'', ''ef''] \<and> vector_get v' 2 = Some 4"
proof -
  let ?v = "the (vector_create_temp (bounded_mem 4096) 2)"
  have v: "vector_create (bounded_mem 4096) False 2 = Some ?v"
    by (simp add: vector_create_temp_def vector_create_def bounded_mem_def VEC_INIT_CAP_def)
  have "vector_push_list (bounded_mem 4096) [''ab'', ''cd'', ''ef''] ?v \<noteq> None"
    by (simp add: vector_create_temp_def vector_create_def bounded_mem_def VEC_INIT_CAP_def vector_push_def
        vec_write_def)
  then obtain v' where v': "vector_push_list (bounded_mem 4096) [''ab'', ''cd'', ''ef''] ?v = Some v'" by blast
  show ?thesis using vector_pushes_read_back [OF v _ v'] v' by simp
qed

text \<open>Set, pop and clear act on the stored elements as list update, removal of the last element
  and emptying; out of range, set does nothing.\<close>
theorem vector_set_pop_clear:
  assumes "vec_wf v" "length x = vec_elem_size v"
  shows "vec_elems (vector_set v i x) = (vec_elems v)[i := x] \<and>
    vec_elems (vector_pop v) = butlast (vec_elems v) \<and> vec_elems (vector_clear v) = [] \<and>
    vec_wf (vector_set v i x) \<and> vec_wf (vector_pop v) \<and> vec_wf (vector_clear v)"
proof -
  have "vec_elems (vector_set v i x) = (vec_elems v)[i := x]"
  proof (cases "i < vec_len v")
    case True
    then have room: "i < vec_cap v" using assms(1) by (simp add: vec_wf_def)
    have "vec_elem (vec_write v i x) j = (if j = i then x else vec_elem v j)" if "j < vec_len v" for j
      using vec_elem_write [OF assms(1) room assms(2), of j] that assms(1) by (simp add: vec_wf_def)
    then show ?thesis
      using True by (intro nth_equalityI) (auto simp: vec_elems_def vector_set_def nth_list_update vec_write_def)
  next
    case False
    then show ?thesis by (simp add: vector_set_def vec_elems_def list_update_beyond)
  qed
  moreover have "vec_elems (vector_pop v) = butlast (vec_elems v)"
    by (cases "vec_len v") (auto simp: vector_pop_def vec_elems_def vec_elem_def)
  moreover have "vec_wf (vector_set v i x)"
    using vec_write_wf [OF assms(1) _ assms(2), of i] assms(1) by (auto simp: vector_set_def vec_wf_def)
  ultimately show ?thesis
    using assms(1) by (auto simp: vector_clear_def vec_elems_def vector_pop_def vec_wf_def)
qed

theorem vector_set_pop_clear_witness:
  "vec_elems (vector_set \<lparr>vec_data = ''abcd'', vec_len = 2, vec_cap = 2, vec_elem_size = 2, vec_arena = True\<rparr> 1 ''xy'')
     = [''ab'', ''xy'']"
  using vector_set_pop_clear
    [of "\<lparr>vec_data = ''abcd'', vec_len = 2, vec_cap = 2, vec_elem_size = 2, vec_arena = True\<rparr>" "''xy''" 1]
  by (simp add: vec_wf_def) (simp add: vec_elems_def vec_elem_def upt_rec)

end
