(* ===== verification/Ast.thy ===== *)
theory Ast
  imports Str Tokens Vector
begin

text \<open>
  The abstract syntax tree of \<open>include/aether/ast.h\<close> and \<open>src/ast.c\<close>.  A node is a tag
  (\<open>NodeType\<close>), a location and one member of a union; here the constructor is the union member, named
  like its struct, and it carries the tag where several node types share the member (\<open>CallNode\<close> for
  \<open>NODE_CALL\<close> and \<open>NODE_EXPR_STMT\<close>, \<open>NodeList\<close> for blocks, \<open>TypeNode\<close>, \<open>StructDecl\<close>, \<open>LetDecl\<close>,
  \<open>Param\<close>); an import is a string literal whose tag was changed, a labelled \<open>break\<close> holds an identifier.  A NULL
  pointer is the constructor \<open>NULL\<close>, so an absent child, and a child a pass sets to NULL, are values of
  the model.  The field \<open>resolved\<close> of an identifier, a back pointer set by the semantic analysis,
  is not part of the tree and is left out.  A float literal is the decimal \<open>m * 10^e\<close> of its token.
\<close>

section \<open>The enumerations\<close>

datatype (plugins only: code) NodeType =
      NODE_PROGRAM | NODE_FUNC_DECL | NODE_PARAM | NODE_STRUCT_DECL | NODE_FIELD | NODE_ENUM_DECL
    | NODE_ENUM_VARIANT | NODE_CONST_DECL | NODE_IMPORT | NODE_MODULE_DECL | NODE_TYPE_ALIAS | NODE_TRAIT_DECL
    | NODE_IMPL_BLOCK | NODE_CLASS_DECL | NODE_POOL_DECL | NODE_PROTOCOL_DECL | NODE_BLOCK | NODE_LET
    | NODE_ASSIGN | NODE_IF | NODE_WHILE | NODE_FOR | NODE_RETURN | NODE_BREAK
    | NODE_CONTINUE | NODE_DEFER | NODE_EXPR_STMT | NODE_MATCH | NODE_MATCH_ARM | NODE_TRY
    | NODE_THROW | NODE_CATCH_ARM | NODE_LITERAL_INT | NODE_LITERAL_FLOAT | NODE_LITERAL_STRING | NODE_LITERAL_CHAR
    | NODE_LITERAL_BOOL | NODE_LITERAL_NONE | NODE_IDENT | NODE_BINARY_OP | NODE_UNARY_OP | NODE_CALL
    | NODE_INDEX | NODE_SLICE | NODE_FIELD_ACCESS | NODE_CAST | NODE_TERNARY | NODE_LAMBDA
    | NODE_ARRAY_LIT | NODE_TYPE_PRIMITIVE | NODE_TYPE_NAMED | NODE_TYPE_ARRAY | NODE_TYPE_SLICE | NODE_TYPE_TUPLE
    | NODE_TYPE_OPTIONAL | NODE_TYPE_REF | NODE_TYPE_PTR | NODE_TYPE_FN | NODE_TYPE_INFER | NODE_ASM_BLOCK
    | NODE_UNSAFE | NODE_ATTR | NODE_REGION | NODE_RUN_BLOCK | NODE_PROPERTY | NODE_TYPE_PARAM
    | NODE_SPAWN | NODE_YIELD

datatype (plugins only: code) BinOp =
      BIN_ADD | BIN_SUB | BIN_MUL | BIN_DIV | BIN_MOD | BIN_EQ | BIN_NEQ
    | BIN_LT | BIN_GT | BIN_LE | BIN_GE | BIN_AND | BIN_OR | BIN_BIT_AND
    | BIN_BIT_OR | BIN_BIT_XOR | BIN_SHL | BIN_SHR | BIN_ASSIGN | BIN_ADD_ASSIGN | BIN_SUB_ASSIGN
    | BIN_MUL_ASSIGN | BIN_DIV_ASSIGN | BIN_RANGE | BIN_RANGE_INCLUSIVE | BIN_CONCAT | BIN_OR_ELSE | BIN_POWER
    | BIN_CUSTOM | BIN_ERROR_CONTEXT

datatype (plugins only: code) UnaryOp =
      UNARY_NEG | UNARY_NOT | UNARY_BIT_NOT | UNARY_REF | UNARY_DEREF | UNARY_ADDR
    | UNARY_OWNED | UNARY_MUT | UNARY_HEAP | UNARY_INC | UNARY_DEC | UNARY_ARRAY_LEN

datatype (plugins only: code) PrimType =
      PRIM_VOID | PRIM_BOOL | PRIM_BYTE | PRIM_U8 | PRIM_U16 | PRIM_U32 | PRIM_U64 | PRIM_U128
    | PRIM_I8 | PRIM_I16 | PRIM_I32 | PRIM_I64 | PRIM_F32 | PRIM_F64 | PRIM_STRING

datatype (plugins only: code) AccessLevel =
      ACCESS_PUB | ACCESS_PRIVATE | ACCESS_INTERNAL

text \<open>All values, in the order of the enumerations.\<close>

definition node_types :: "NodeType list" where
  "node_types = [NODE_PROGRAM, NODE_FUNC_DECL, NODE_PARAM, NODE_STRUCT_DECL, NODE_FIELD, NODE_ENUM_DECL,
    NODE_ENUM_VARIANT, NODE_CONST_DECL, NODE_IMPORT, NODE_MODULE_DECL, NODE_TYPE_ALIAS, NODE_TRAIT_DECL,
    NODE_IMPL_BLOCK, NODE_CLASS_DECL, NODE_POOL_DECL, NODE_PROTOCOL_DECL, NODE_BLOCK, NODE_LET,
    NODE_ASSIGN, NODE_IF, NODE_WHILE, NODE_FOR, NODE_RETURN, NODE_BREAK,
    NODE_CONTINUE, NODE_DEFER, NODE_EXPR_STMT, NODE_MATCH, NODE_MATCH_ARM, NODE_TRY,
    NODE_THROW, NODE_CATCH_ARM, NODE_LITERAL_INT, NODE_LITERAL_FLOAT, NODE_LITERAL_STRING, NODE_LITERAL_CHAR,
    NODE_LITERAL_BOOL, NODE_LITERAL_NONE, NODE_IDENT, NODE_BINARY_OP, NODE_UNARY_OP, NODE_CALL,
    NODE_INDEX, NODE_SLICE, NODE_FIELD_ACCESS, NODE_CAST, NODE_TERNARY, NODE_LAMBDA,
    NODE_ARRAY_LIT, NODE_TYPE_PRIMITIVE, NODE_TYPE_NAMED, NODE_TYPE_ARRAY, NODE_TYPE_SLICE, NODE_TYPE_TUPLE,
    NODE_TYPE_OPTIONAL, NODE_TYPE_REF, NODE_TYPE_PTR, NODE_TYPE_FN, NODE_TYPE_INFER, NODE_ASM_BLOCK,
    NODE_UNSAFE, NODE_ATTR, NODE_REGION, NODE_RUN_BLOCK, NODE_PROPERTY, NODE_TYPE_PARAM,
    NODE_SPAWN, NODE_YIELD]"

definition binops :: "BinOp list" where
  "binops = [BIN_ADD, BIN_SUB, BIN_MUL, BIN_DIV, BIN_MOD, BIN_EQ,
    BIN_NEQ, BIN_LT, BIN_GT, BIN_LE, BIN_GE, BIN_AND,
    BIN_OR, BIN_BIT_AND, BIN_BIT_OR, BIN_BIT_XOR, BIN_SHL, BIN_SHR,
    BIN_ASSIGN, BIN_ADD_ASSIGN, BIN_SUB_ASSIGN, BIN_MUL_ASSIGN, BIN_DIV_ASSIGN, BIN_RANGE,
    BIN_RANGE_INCLUSIVE, BIN_CONCAT, BIN_OR_ELSE, BIN_POWER, BIN_CUSTOM, BIN_ERROR_CONTEXT]"

definition unaryops :: "UnaryOp list" where
  "unaryops = [UNARY_NEG, UNARY_NOT, UNARY_BIT_NOT, UNARY_REF, UNARY_DEREF, UNARY_ADDR,
    UNARY_OWNED, UNARY_MUT, UNARY_HEAP, UNARY_INC, UNARY_DEC, UNARY_ARRAY_LEN]"

definition primtypes :: "PrimType list" where
  "primtypes = [PRIM_VOID, PRIM_BOOL, PRIM_BYTE, PRIM_U8, PRIM_U16, PRIM_U32,
    PRIM_U64, PRIM_U128, PRIM_I8, PRIM_I16, PRIM_I32, PRIM_I64,
    PRIM_F32, PRIM_F64, PRIM_STRING]"

section \<open>Name helpers\<close>

fun node_type_name :: "NodeType \<Rightarrow> string" where
  "node_type_name NODE_PROGRAM = ''PROGRAM''"
| "node_type_name NODE_FUNC_DECL = ''FUNC_DECL''"
| "node_type_name NODE_PARAM = ''PARAM''"
| "node_type_name NODE_STRUCT_DECL = ''STRUCT_DECL''"
| "node_type_name NODE_FIELD = ''FIELD''"
| "node_type_name NODE_ENUM_DECL = ''ENUM_DECL''"
| "node_type_name NODE_ENUM_VARIANT = ''ENUM_VARIANT''"
| "node_type_name NODE_CONST_DECL = ''CONST_DECL''"
| "node_type_name NODE_IMPORT = ''IMPORT''"
| "node_type_name NODE_MODULE_DECL = ''MODULE_DECL''"
| "node_type_name NODE_TYPE_ALIAS = ''TYPE_ALIAS''"
| "node_type_name NODE_TRAIT_DECL = ''TRAIT_DECL''"
| "node_type_name NODE_IMPL_BLOCK = ''IMPL_BLOCK''"
| "node_type_name NODE_CLASS_DECL = ''CLASS_DECL''"
| "node_type_name NODE_POOL_DECL = ''POOL_DECL''"
| "node_type_name NODE_PROTOCOL_DECL = ''PROTOCOL_DECL''"
| "node_type_name NODE_BLOCK = ''BLOCK''"
| "node_type_name NODE_LET = ''LET''"
| "node_type_name NODE_ASSIGN = ''ASSIGN''"
| "node_type_name NODE_IF = ''IF''"
| "node_type_name NODE_WHILE = ''WHILE''"
| "node_type_name NODE_FOR = ''FOR''"
| "node_type_name NODE_RETURN = ''RETURN''"
| "node_type_name NODE_BREAK = ''BREAK''"
| "node_type_name NODE_CONTINUE = ''CONTINUE''"
| "node_type_name NODE_DEFER = ''DEFER''"
| "node_type_name NODE_EXPR_STMT = ''EXPR_STMT''"
| "node_type_name NODE_MATCH = ''MATCH''"
| "node_type_name NODE_MATCH_ARM = ''MATCH_ARM''"
| "node_type_name NODE_TRY = ''TRY''"
| "node_type_name NODE_THROW = ''THROW''"
| "node_type_name NODE_CATCH_ARM = ''CATCH_ARM''"
| "node_type_name NODE_LITERAL_INT = ''LITERAL_INT''"
| "node_type_name NODE_LITERAL_FLOAT = ''LITERAL_FLOAT''"
| "node_type_name NODE_LITERAL_STRING = ''LITERAL_STRING''"
| "node_type_name NODE_LITERAL_CHAR = ''LITERAL_CHAR''"
| "node_type_name NODE_LITERAL_BOOL = ''LITERAL_BOOL''"
| "node_type_name NODE_LITERAL_NONE = ''LITERAL_NONE''"
| "node_type_name NODE_IDENT = ''IDENT''"
| "node_type_name NODE_BINARY_OP = ''BINARY_OP''"
| "node_type_name NODE_UNARY_OP = ''UNARY_OP''"
| "node_type_name NODE_CALL = ''CALL''"
| "node_type_name NODE_INDEX = ''INDEX''"
| "node_type_name NODE_SLICE = ''SLICE''"
| "node_type_name NODE_FIELD_ACCESS = ''FIELD_ACCESS''"
| "node_type_name NODE_CAST = ''CAST''"
| "node_type_name NODE_TERNARY = ''TERNARY''"
| "node_type_name NODE_LAMBDA = ''LAMBDA''"
| "node_type_name NODE_ARRAY_LIT = ''ARRAY_LIT''"
| "node_type_name NODE_TYPE_PRIMITIVE = ''TYPE_PRIMITIVE''"
| "node_type_name NODE_TYPE_NAMED = ''TYPE_NAMED''"
| "node_type_name NODE_TYPE_ARRAY = ''TYPE_ARRAY''"
| "node_type_name NODE_TYPE_SLICE = ''TYPE_SLICE''"
| "node_type_name NODE_TYPE_TUPLE = ''TYPE_TUPLE''"
| "node_type_name NODE_TYPE_OPTIONAL = ''TYPE_OPTIONAL''"
| "node_type_name NODE_TYPE_REF = ''TYPE_REF''"
| "node_type_name NODE_TYPE_PTR = ''TYPE_PTR''"
| "node_type_name NODE_TYPE_FN = ''TYPE_FN''"
| "node_type_name NODE_TYPE_INFER = ''TYPE_INFER''"
| "node_type_name NODE_ASM_BLOCK = ''ASM_BLOCK''"
| "node_type_name NODE_ATTR = ''ATTR''"
| "node_type_name NODE_REGION = ''REGION''"
| "node_type_name NODE_RUN_BLOCK = ''RUN_BLOCK''"
| "node_type_name NODE_PROPERTY = ''PROPERTY''"
| "node_type_name NODE_SPAWN = ''SPAWN''"
| "node_type_name NODE_YIELD = ''YIELD''"
| "node_type_name _ = ''UNKNOWN''"

fun binop_name :: "BinOp \<Rightarrow> string" where
  "binop_name BIN_ADD = ''+''"
| "binop_name BIN_SUB = ''-''"
| "binop_name BIN_MUL = ''*''"
| "binop_name BIN_DIV = ''/''"
| "binop_name BIN_MOD = ''%''"
| "binop_name BIN_EQ = ''==''"
| "binop_name BIN_NEQ = ''!=''"
| "binop_name BIN_LT = ''<''"
| "binop_name BIN_GT = ''>''"
| "binop_name BIN_LE = ''<=''"
| "binop_name BIN_GE = ''>=''"
| "binop_name BIN_AND = ''&&''"
| "binop_name BIN_OR = ''||''"
| "binop_name BIN_BIT_AND = ''&''"
| "binop_name BIN_BIT_OR = ''|''"
| "binop_name BIN_BIT_XOR = ''^''"
| "binop_name BIN_SHL = ''<<''"
| "binop_name BIN_SHR = ''>>''"
| "binop_name BIN_ASSIGN = ''=''"
| "binop_name BIN_ADD_ASSIGN = ''+=''"
| "binop_name BIN_SUB_ASSIGN = ''-=''"
| "binop_name BIN_MUL_ASSIGN = ''*=''"
| "binop_name BIN_DIV_ASSIGN = ''/=''"
| "binop_name BIN_RANGE = ''..''"
| "binop_name BIN_RANGE_INCLUSIVE = ''..=''"
| "binop_name BIN_CONCAT = ''++''"
| "binop_name BIN_OR_ELSE = ''or''"
| "binop_name BIN_POWER = ''**''"
| "binop_name BIN_CUSTOM = ''custom''"
| "binop_name BIN_ERROR_CONTEXT = ''?''"

fun unaryop_name :: "UnaryOp \<Rightarrow> string" where
  "unaryop_name UNARY_NEG = ''-''"
| "unaryop_name UNARY_NOT = ''!''"
| "unaryop_name UNARY_BIT_NOT = ''~''"
| "unaryop_name UNARY_REF = ''ref''"
| "unaryop_name UNARY_DEREF = ''*''"
| "unaryop_name UNARY_ADDR = ''&''"
| "unaryop_name UNARY_OWNED = ''owned''"
| "unaryop_name UNARY_MUT = ''mut''"
| "unaryop_name UNARY_ARRAY_LEN = ''#''"
| "unaryop_name _ = ''?''"

fun primtype_name :: "PrimType \<Rightarrow> string" where
  "primtype_name PRIM_VOID = ''void''"
| "primtype_name PRIM_BOOL = ''bool''"
| "primtype_name PRIM_BYTE = ''byte''"
| "primtype_name PRIM_U8 = ''u8''"
| "primtype_name PRIM_U16 = ''u16''"
| "primtype_name PRIM_U32 = ''u32''"
| "primtype_name PRIM_U64 = ''u64''"
| "primtype_name PRIM_U128 = ''u128''"
| "primtype_name PRIM_I8 = ''i8''"
| "primtype_name PRIM_I16 = ''i16''"
| "primtype_name PRIM_I32 = ''i32''"
| "primtype_name PRIM_I64 = ''i64''"
| "primtype_name PRIM_F32 = ''f32''"
| "primtype_name PRIM_F64 = ''f64''"
| "primtype_name PRIM_STRING = ''string''"

section \<open>Nodes\<close>

text \<open>The fields of \<open>FuncDecl\<close> that are no nodes.\<close>

record FuncInfo =
  fi_is_asm :: bool
  fi_is_sys :: bool
  fi_is_pub :: bool
  fi_access :: AccessLevel
  fi_is_static :: bool
  fi_sys_index :: int
  fi_is_throws :: bool
  fi_is_operator :: bool
  fi_is_exported :: bool
  fi_is_kernel_layout :: bool
  fi_is_inline :: bool
  fi_is_force_inline :: bool
  fi_is_no_inline :: bool
  fi_is_impl_method :: bool
  fi_impl_type_name :: StringView
  fi_entry_addr :: int
  fi_has_layout :: bool
  fi_layout_start :: u64
  fi_layout_max :: u64
  fi_layout_bits :: int
  fi_layout_signature :: int
  fi_layout_file :: StringView
  fi_has_test :: bool
  fi_sig_hash :: u32

record TypeInfo =
  ti_name :: StringView
  ti_is_ref :: bool
  ti_is_owned :: bool
  ti_is_rc :: bool
  ti_is_mut :: bool
  ti_array_size :: int

record AttrInfo =
  at_name :: StringView
  at_int_value :: int
  at_has_layout_start :: bool
  at_layout_start :: int
  at_has_layout_max :: bool
  at_layout_max :: int
  at_layout_bits :: int
  at_layout_signature :: int
  at_layout_file :: StringView
  at_has_module_abi :: bool
  at_module_abi_version :: int
  at_has_test :: bool

datatype (plugins only: code) Literal =
    LitInt u64 bool
  | LitFloat nat int
  | LitString StringView
  | LitChar u32
  | LitBool bool
  | LitNone

text \<open>
  The arguments follow the fields of the structs; \<open>FuncDecl\<close>: name, params, return type, body,
  defers, type parameters, pre- and postconditions, the rest.
\<close>

datatype (plugins only: code size) AstNode =
    NULL
  | FuncDecl Location AstNode "AstNode list" AstNode AstNode "AstNode list" "AstNode list"
      "AstNode list" "AstNode list" FuncInfo
  | Param NodeType Location AstNode AstNode bool bool AstNode
  | LetDecl NodeType Location AstNode AstNode AstNode bool bool
  | IfNode Location AstNode AstNode AstNode AstNode bool AstNode
  | WhileNode Location AstNode AstNode
  | ForNode Location AstNode AstNode AstNode AstNode
  | MatchNode Location AstNode "AstNode list"
  | MatchArm Location AstNode "AstNode list" "AstNode list" AstNode
  | ReturnNode Location AstNode
  | BinaryOpNode NodeType Location BinOp AstNode AstNode StringView
  | UnaryOpNode Location UnaryOp AstNode
  | CallNode NodeType Location AstNode "AstNode list"
  | IdentNode Location StringView
  | LabelNode NodeType Location StringView
  | LiteralNode Location Literal
  | ImportNode Location StringView
  | IndexNode Location AstNode AstNode
  | SliceNode Location AstNode AstNode AstNode
  | FieldAccess Location AstNode AstNode
  | TypeNode NodeType Location PrimType AstNode "AstNode list" AstNode "AstNode list" TypeInfo
  | LambdaNode Location "AstNode list" AstNode AstNode AstNode
  | ArrayLit Location "AstNode list"
  | StructDecl NodeType Location AstNode "AstNode list" "AstNode list" "AstNode list" bool
  | EnumDecl Location AstNode "AstNode list" bool
  | EnumVariant Location AstNode "AstNode list"
  | AsmBlock Location AstNode "AstNode list" "AstNode list" "AstNode list"
  | DeferNode Location AstNode
  | SpawnNode Location AstNode
  | RegionNode Location StringView AstNode
  | TraitDecl Location AstNode "AstNode list" bool
  | ImplBlock Location StringView StringView "AstNode list"
  | ModuleDecl Location AstNode "AstNode list" int
  | PoolDecl Location AstNode u64 u64 u64
  | ProtocolDecl Location AstNode "AstNode list"
  | TryNode Location AstNode "AstNode list" AstNode
  | ThrowNode Location AstNode
  | CatchArm Location AstNode AstNode AstNode bool
  | AttrNode Location AttrInfo
  | NodeList NodeType Location "AstNode list"
  | TypeParam Location AstNode AstNode
  | NoData NodeType Location

fun lit_type :: "Literal \<Rightarrow> NodeType" where
  "lit_type (LitInt _ _) = NODE_LITERAL_INT"
| "lit_type (LitFloat _ _) = NODE_LITERAL_FLOAT"
| "lit_type (LitString _) = NODE_LITERAL_STRING"
| "lit_type (LitChar _) = NODE_LITERAL_CHAR"
| "lit_type (LitBool _) = NODE_LITERAL_BOOL"
| "lit_type LitNone = NODE_LITERAL_NONE"

text \<open>The field \<open>type\<close> of a node; reading it through NULL is undefined.\<close>

fun node_type :: "AstNode \<Rightarrow> NodeType option" where
  "node_type NULL = None"
| "node_type (FuncDecl _ _ _ _ _ _ _ _ _ _) = Some NODE_FUNC_DECL"
| "node_type (Param t _ _ _ _ _ _) = Some t"
| "node_type (LetDecl t _ _ _ _ _ _) = Some t"
| "node_type (IfNode _ _ _ _ _ _ _) = Some NODE_IF"
| "node_type (WhileNode _ _ _) = Some NODE_WHILE"
| "node_type (ForNode _ _ _ _ _) = Some NODE_FOR"
| "node_type (MatchNode _ _ _) = Some NODE_MATCH"
| "node_type (MatchArm _ _ _ _ _) = Some NODE_MATCH_ARM"
| "node_type (ReturnNode _ _) = Some NODE_RETURN"
| "node_type (BinaryOpNode t _ _ _ _ _) = Some t"
| "node_type (UnaryOpNode _ _ _) = Some NODE_UNARY_OP"
| "node_type (CallNode t _ _ _) = Some t"
| "node_type (IdentNode _ _) = Some NODE_IDENT"
| "node_type (LabelNode t _ _) = Some t"
| "node_type (LiteralNode _ l) = Some (lit_type l)"
| "node_type (ImportNode _ _) = Some NODE_IMPORT"
| "node_type (IndexNode _ _ _) = Some NODE_INDEX"
| "node_type (SliceNode _ _ _ _) = Some NODE_SLICE"
| "node_type (FieldAccess _ _ _) = Some NODE_FIELD_ACCESS"
| "node_type (TypeNode t _ _ _ _ _ _ _) = Some t"
| "node_type (LambdaNode _ _ _ _ _) = Some NODE_LAMBDA"
| "node_type (ArrayLit _ _) = Some NODE_ARRAY_LIT"
| "node_type (StructDecl t _ _ _ _ _ _) = Some t"
| "node_type (EnumDecl _ _ _ _) = Some NODE_ENUM_DECL"
| "node_type (EnumVariant _ _ _) = Some NODE_ENUM_VARIANT"
| "node_type (AsmBlock _ _ _ _ _) = Some NODE_ASM_BLOCK"
| "node_type (DeferNode _ _) = Some NODE_DEFER"
| "node_type (SpawnNode _ _) = Some NODE_SPAWN"
| "node_type (RegionNode _ _ _) = Some NODE_REGION"
| "node_type (TraitDecl _ _ _ _) = Some NODE_TRAIT_DECL"
| "node_type (ImplBlock _ _ _ _) = Some NODE_IMPL_BLOCK"
| "node_type (ModuleDecl _ _ _ _) = Some NODE_MODULE_DECL"
| "node_type (PoolDecl _ _ _ _ _) = Some NODE_POOL_DECL"
| "node_type (ProtocolDecl _ _ _) = Some NODE_PROTOCOL_DECL"
| "node_type (TryNode _ _ _ _) = Some NODE_TRY"
| "node_type (ThrowNode _ _) = Some NODE_THROW"
| "node_type (CatchArm _ _ _ _ _) = Some NODE_CATCH_ARM"
| "node_type (AttrNode _ _) = Some NODE_ATTR"
| "node_type (NodeList t _ _) = Some t"
| "node_type (TypeParam _ _ _) = Some NODE_TYPE_PARAM"
| "node_type (NoData t _) = Some t"

section \<open>Node creation\<close>

text \<open>
  Each constructor function takes whether the arena grants the node (\<open>node_create\<close> answers NULL
  otherwise).  \<open>arena_alloc\<close> zeroes the node, so a field not set is zero, NULL or empty.
\<close>

definition NO_LOCATION :: Location where
  "NO_LOCATION = \<lparr>loc_file = [], loc_line = 0, loc_col = 0, loc_len = 0\<rparr>"

text \<open>The field \<open>loc\<close> of a node, likewise.\<close>

fun node_loc :: "AstNode \<Rightarrow> Location" where
  "node_loc NULL = NO_LOCATION"
| "node_loc (FuncDecl loc _ _ _ _ _ _ _ _ _) = loc"
| "node_loc (Param _ loc _ _ _ _ _) = loc"
| "node_loc (LetDecl _ loc _ _ _ _ _) = loc"
| "node_loc (IfNode loc _ _ _ _ _ _) = loc"
| "node_loc (WhileNode loc _ _) = loc"
| "node_loc (ForNode loc _ _ _ _) = loc"
| "node_loc (MatchNode loc _ _) = loc"
| "node_loc (MatchArm loc _ _ _ _) = loc"
| "node_loc (ReturnNode loc _) = loc"
| "node_loc (BinaryOpNode _ loc _ _ _ _) = loc"
| "node_loc (UnaryOpNode loc _ _) = loc"
| "node_loc (CallNode _ loc _ _) = loc"
| "node_loc (IdentNode loc _) = loc"
| "node_loc (LabelNode _ loc _) = loc"
| "node_loc (LiteralNode loc _) = loc"
| "node_loc (ImportNode loc _) = loc"
| "node_loc (IndexNode loc _ _) = loc"
| "node_loc (SliceNode loc _ _ _) = loc"
| "node_loc (FieldAccess loc _ _) = loc"
| "node_loc (TypeNode _ loc _ _ _ _ _ _) = loc"
| "node_loc (LambdaNode loc _ _ _ _) = loc"
| "node_loc (ArrayLit loc _) = loc"
| "node_loc (StructDecl _ loc _ _ _ _ _) = loc"
| "node_loc (EnumDecl loc _ _ _) = loc"
| "node_loc (EnumVariant loc _ _) = loc"
| "node_loc (AsmBlock loc _ _ _ _) = loc"
| "node_loc (DeferNode loc _) = loc"
| "node_loc (SpawnNode loc _) = loc"
| "node_loc (RegionNode loc _ _) = loc"
| "node_loc (TraitDecl loc _ _ _) = loc"
| "node_loc (ImplBlock loc _ _ _) = loc"
| "node_loc (ModuleDecl loc _ _ _) = loc"
| "node_loc (PoolDecl loc _ _ _ _) = loc"
| "node_loc (ProtocolDecl loc _ _) = loc"
| "node_loc (TryNode loc _ _ _) = loc"
| "node_loc (ThrowNode loc _) = loc"
| "node_loc (CatchArm loc _ _ _ _) = loc"
| "node_loc (AttrNode loc _) = loc"
| "node_loc (NodeList _ loc _) = loc"
| "node_loc (TypeParam loc _ _) = loc"
| "node_loc (NoData _ loc) = loc"

definition SV0 :: StringView where "SV0 = \<lparr>sv_data = [], sv_len = 0\<rparr>"

definition ti_zero :: TypeInfo where
  "ti_zero = \<lparr>ti_name = SV0, ti_is_ref = False, ti_is_owned = False, ti_is_rc = False,
     ti_is_mut = False, ti_array_size = 0\<rparr>"

definition fi_zero :: FuncInfo where
  "fi_zero = \<lparr>fi_is_asm = False, fi_is_sys = False, fi_is_pub = False, fi_access = ACCESS_PUB,
     fi_is_static = False, fi_sys_index = 0, fi_is_throws = False, fi_is_operator = False,
     fi_is_exported = False, fi_is_kernel_layout = False, fi_is_inline = False,
     fi_is_force_inline = False, fi_is_no_inline = False, fi_is_impl_method = False,
     fi_impl_type_name = SV0, fi_entry_addr = 0, fi_has_layout = False, fi_layout_start = 0,
     fi_layout_max = 0, fi_layout_bits = 0, fi_layout_signature = 0, fi_layout_file = SV0,
     fi_has_test = False, fi_sig_hash = 0\<rparr>"

definition node_create :: "bool \<Rightarrow> AstNode \<Rightarrow> AstNode" where
  "node_create granted n = (if granted then n else NULL)"

definition node_program :: "bool \<Rightarrow> AstNode" where
  "node_program m = node_create m (NodeList NODE_PROGRAM NO_LOCATION [])"

definition node_func_decl :: "bool \<Rightarrow> Location \<Rightarrow> AstNode \<Rightarrow> bool \<Rightarrow> bool \<Rightarrow> AstNode" where
  "node_func_decl m loc name is_pub is_static =
     node_create m (FuncDecl loc name [] NULL NULL [] [] [] []
       (fi_zero\<lparr>fi_is_pub := is_pub, fi_is_static := is_static, fi_sys_index := -1, fi_entry_addr := -1\<rparr>))"

definition node_param :: "bool \<Rightarrow> Location \<Rightarrow> AstNode \<Rightarrow> AstNode \<Rightarrow> bool \<Rightarrow> bool \<Rightarrow> AstNode" where
  "node_param m loc name type is_mut is_varargs = node_create m (Param NODE_PARAM loc name type is_mut is_varargs NULL)"

definition node_let :: "bool \<Rightarrow> Location \<Rightarrow> AstNode \<Rightarrow> AstNode \<Rightarrow> AstNode \<Rightarrow> bool \<Rightarrow> AstNode" where
  "node_let m loc name type val is_mut = node_create m (LetDecl NODE_LET loc name type val is_mut False)"

definition node_if :: "bool \<Rightarrow> Location \<Rightarrow> AstNode \<Rightarrow> AstNode \<Rightarrow> AstNode \<Rightarrow> AstNode \<Rightarrow> AstNode" where
  "node_if m loc cond then_block elif_chain else_block =
     node_create m (IfNode loc cond then_block elif_chain else_block False NULL)"

definition node_while :: "bool \<Rightarrow> Location \<Rightarrow> AstNode \<Rightarrow> AstNode \<Rightarrow> AstNode" where
  "node_while m loc cond body = node_create m (WhileNode loc cond body)"

definition node_for :: "bool \<Rightarrow> Location \<Rightarrow> AstNode \<Rightarrow> AstNode \<Rightarrow> AstNode \<Rightarrow> AstNode" where
  "node_for m loc var iterable body = node_create m (ForNode loc var iterable body NULL)"

definition node_return :: "bool \<Rightarrow> Location \<Rightarrow> AstNode \<Rightarrow> AstNode" where
  "node_return m loc val = node_create m (ReturnNode loc val)"

definition node_break :: "bool \<Rightarrow> Location \<Rightarrow> AstNode" where
  "node_break m loc = node_create m (NoData NODE_BREAK loc)"

definition node_continue :: "bool \<Rightarrow> Location \<Rightarrow> AstNode" where
  "node_continue m loc = node_create m (NoData NODE_CONTINUE loc)"

definition node_block :: "bool \<Rightarrow> Location \<Rightarrow> AstNode" where
  "node_block m loc = node_create m (NodeList NODE_BLOCK loc [])"

definition node_ident :: "bool \<Rightarrow> Location \<Rightarrow> StringView \<Rightarrow> AstNode" where
  "node_ident m loc name = node_create m (IdentNode loc name)"

definition node_int_literal :: "bool \<Rightarrow> Location \<Rightarrow> u64 \<Rightarrow> AstNode" where
  "node_int_literal m loc v = node_create m (LiteralNode loc (LitInt v False))"

definition node_float_literal :: "bool \<Rightarrow> Location \<Rightarrow> nat \<Rightarrow> int \<Rightarrow> AstNode" where
  "node_float_literal m loc mant e = node_create m (LiteralNode loc (LitFloat mant e))"

definition node_string_literal :: "bool \<Rightarrow> Location \<Rightarrow> StringView \<Rightarrow> AstNode" where
  "node_string_literal m loc v = node_create m (LiteralNode loc (LitString v))"

definition node_char_literal :: "bool \<Rightarrow> Location \<Rightarrow> u32 \<Rightarrow> AstNode" where
  "node_char_literal m loc v = node_create m (LiteralNode loc (LitChar v))"

definition node_bool_literal :: "bool \<Rightarrow> Location \<Rightarrow> bool \<Rightarrow> AstNode" where
  "node_bool_literal m loc v = node_create m (LiteralNode loc (LitBool v))"

definition node_none_literal :: "bool \<Rightarrow> Location \<Rightarrow> AstNode" where
  "node_none_literal m loc = node_create m (LiteralNode loc LitNone)"

definition node_binary :: "bool \<Rightarrow> Location \<Rightarrow> BinOp \<Rightarrow> AstNode \<Rightarrow> AstNode \<Rightarrow> AstNode" where
  "node_binary m loc op l r = node_create m (BinaryOpNode NODE_BINARY_OP loc op l r SV0)"

definition node_unary :: "bool \<Rightarrow> Location \<Rightarrow> UnaryOp \<Rightarrow> AstNode \<Rightarrow> AstNode" where
  "node_unary m loc op operand = node_create m (UnaryOpNode loc op operand)"

definition node_call :: "bool \<Rightarrow> Location \<Rightarrow> AstNode \<Rightarrow> AstNode" where
  "node_call m loc callee = node_create m (CallNode NODE_CALL loc callee [])"

definition node_index :: "bool \<Rightarrow> Location \<Rightarrow> AstNode \<Rightarrow> AstNode \<Rightarrow> AstNode" where
  "node_index m loc target index = node_create m (IndexNode loc target index)"

definition node_field_access :: "bool \<Rightarrow> Location \<Rightarrow> AstNode \<Rightarrow> AstNode \<Rightarrow> AstNode" where
  "node_field_access m loc target field = node_create m (FieldAccess loc target field)"

definition node_type_prim :: "bool \<Rightarrow> Location \<Rightarrow> PrimType \<Rightarrow> AstNode" where
  "node_type_prim m loc prim = node_create m (TypeNode NODE_TYPE_PRIMITIVE loc prim NULL [] NULL [] ti_zero)"

definition node_type_named :: "bool \<Rightarrow> Location \<Rightarrow> StringView \<Rightarrow> AstNode" where
  "node_type_named m loc name =
     node_create m (TypeNode NODE_TYPE_NAMED loc PRIM_VOID NULL [] NULL [] (ti_zero\<lparr>ti_name := name\<rparr>))"

definition node_match :: "bool \<Rightarrow> Location \<Rightarrow> AstNode \<Rightarrow> AstNode" where
  "node_match m loc val = node_create m (MatchNode loc val [])"

definition node_match_arm :: "bool \<Rightarrow> Location \<Rightarrow> AstNode \<Rightarrow> AstNode \<Rightarrow> AstNode" where
  "node_match_arm m loc pattern body = node_create m (MatchArm loc pattern [] [] body)"

definition node_asm_block :: "bool \<Rightarrow> Location \<Rightarrow> AstNode \<Rightarrow> AstNode" where
  "node_asm_block m loc text = node_create m (AsmBlock loc text [] [] [])"

definition node_struct_decl :: "bool \<Rightarrow> Location \<Rightarrow> AstNode \<Rightarrow> bool \<Rightarrow> AstNode" where
  "node_struct_decl m loc name is_pub = node_create m (StructDecl NODE_STRUCT_DECL loc name [] [] [] is_pub)"

definition node_enum_decl :: "bool \<Rightarrow> Location \<Rightarrow> AstNode \<Rightarrow> bool \<Rightarrow> AstNode" where
  "node_enum_decl m loc name is_pub = node_create m (EnumDecl loc name [] is_pub)"

definition node_defer :: "bool \<Rightarrow> Location \<Rightarrow> AstNode \<Rightarrow> AstNode" where
  "node_defer m loc body = node_create m (DeferNode loc body)"

definition node_region :: "bool \<Rightarrow> Location \<Rightarrow> StringView \<Rightarrow> AstNode \<Rightarrow> AstNode" where
  "node_region m loc name body = node_create m (RegionNode loc name body)"

definition node_spawn :: "bool \<Rightarrow> Location \<Rightarrow> AstNode \<Rightarrow> AstNode" where
  "node_spawn m loc call = node_create m (SpawnNode loc call)"

definition node_yield :: "bool \<Rightarrow> Location \<Rightarrow> AstNode" where
  "node_yield m loc = node_create m (NoData NODE_YIELD loc)"

definition node_expr_stmt :: "bool \<Rightarrow> Location \<Rightarrow> AstNode \<Rightarrow> AstNode" where
  "node_expr_stmt m loc expr = node_create m (CallNode NODE_EXPR_STMT loc expr [])"

definition node_try :: "bool \<Rightarrow> Location \<Rightarrow> AstNode \<Rightarrow> AstNode" where
  "node_try m loc body = node_create m (TryNode loc body [] NULL)"

definition node_throw :: "bool \<Rightarrow> Location \<Rightarrow> AstNode \<Rightarrow> AstNode" where
  "node_throw m loc val = node_create m (ThrowNode loc val)"

definition node_catch_arm :: "bool \<Rightarrow> Location \<Rightarrow> AstNode \<Rightarrow> AstNode \<Rightarrow> AstNode \<Rightarrow> bool \<Rightarrow> AstNode" where
  "node_catch_arm m loc type var body is_catch_all = node_create m (CatchArm loc type var body is_catch_all)"

section \<open>Node lists\<close>

text \<open>
  An \<open>AstNodeList\<close> under construction: its items and its capacity.  \<open>granted\<close> says whether
  \<open>realloc\<close> finds memory for a number of items; a failed append leaves the list as it is, and so
  does NULL.
\<close>

record AstNodeList =
  nl_items :: "AstNode list"
  nl_cap :: nat

definition node_list_append :: "(nat \<Rightarrow> bool) \<Rightarrow> AstNodeList \<Rightarrow> AstNode \<Rightarrow> AstNodeList" where
  "node_list_append granted l node =
     (if node = NULL then l
      else if length (nl_items l) \<ge> nl_cap l then
        let new_cap = (if nl_cap l \<noteq> 0 then nl_cap l * 2 else 8)
        in if granted new_cap then \<lparr>nl_items = nl_items l @ [node], nl_cap = new_cap\<rparr> else l
      else l\<lparr>nl_items := nl_items l @ [node]\<rparr>)"

definition node_list_append_sorted :: "(nat \<Rightarrow> bool) \<Rightarrow> AstNodeList \<Rightarrow> AstNode \<Rightarrow> AstNodeList" where
  "node_list_append_sorted granted l node = node_list_append granted l node"

interpretation node_list: doubling_buffer
  "\<lambda>x l. Some (node_list_append (\<lambda>_. True) l x)" nl_items nl_cap
  "\<lambda>l. length (nl_items l) \<le> nl_cap l" "\<lambda>x. x \<noteq> NULL" 8
  by unfold_locales (auto simp: node_list_append_def Let_def)

section \<open>Properties\<close>

lemma binops_all: "op \<in> set binops"
  by (cases op) (simp_all add: binops_def)

lemma unaryops_all: "op \<in> set unaryops"
  by (cases op) (simp_all add: unaryops_def)

text \<open>Appending nodes one by one builds the list of the nodes that are not NULL, in order; the
  array never holds more than twice what it needs (or 8 slots).\<close>
theorem node_list_append_builds_list:
  "let l = fold (\<lambda>x l. node_list_append (\<lambda>_. True) l x) xs \<lparr>nl_items = [], nl_cap = 0\<rparr>
   in nl_items l = filter (\<lambda>x. x \<noteq> NULL) xs \<and> length (nl_items l) \<le> nl_cap l \<and>
      nl_cap l \<le> max 8 (2 * length (nl_items l))"
proof -
  let ?ys = "filter (\<lambda>x. x \<noteq> NULL) xs" and ?e = "\<lparr>nl_items = [], nl_cap = 0\<rparr>"
  have skip: "fold (\<lambda>x l. node_list_append (\<lambda>_. True) l x) xs l
      = fold (\<lambda>x l. node_list_append (\<lambda>_. True) l x) (filter (\<lambda>x. x \<noteq> NULL) xs) l" for l
    by (induction xs arbitrary: l) (auto simp: node_list_append_def)
  have all: "node_list.push_all xs l = Some (fold (\<lambda>x l. node_list_append (\<lambda>_. True) l x) xs l)" for xs l
    by (induction xs arbitrary: l) simp_all
  show ?thesis
    using node_list.push_all_elems [of ?e ?ys, OF _ _ all] node_list.push_all_capacity [of ?e ?ys, OF _ _ all]
    by (simp add: skip [of ?e] list_all_iff)
qed

text \<open>\<open>node_type_name\<close> names every node type but unsafe blocks and type parameters, for which it
  says UNKNOWN; no two named types share a name, and no two binary operators share one.\<close>
theorem node_type_names:
  "filter (\<lambda>t. node_type_name t = ''UNKNOWN'') node_types = [NODE_UNSAFE, NODE_TYPE_PARAM] \<and>
   distinct (map node_type_name (filter (\<lambda>t. node_type_name t \<noteq> ''UNKNOWN'') node_types)) \<and>
   distinct (map binop_name binops) \<and> distinct (map primtype_name primtypes)"
  by (simp add: node_types_def binops_def primtypes_def)

text \<open>\<open>unaryop_name\<close> has no name for the heap, increment and decrement operators: it
  prints a question mark.\<close>
theorem unaryop_unnamed:
  "filter (\<lambda>t. unaryop_name t = ''?'') unaryops = [UNARY_HEAP, UNARY_INC, UNARY_DEC]"
  by (simp add: unaryops_def)

end
