(* ===== verification/Optimizer.thy ===== *)
theory Optimizer
  imports Ast "HOL-Library.Monad_Syntax"
begin

text \<open>
  The passes of \<open>src/optimizer.c\<close>: node counting, constant expressions and their evaluation on 64-bit
  words, constant folding, the inlining pass and the placeholders.  The passes of the C code rewrite
  nodes in place; here they return the rewritten tree.  \<open>None\<close> is undefined behaviour of the compiler
  itself: a read through NULL, a shift by 64 or more, the negation of the least \<open>int64_t\<close>.  The arena
  is taken to grant the literal a fold creates (the code writes to it without a test).
\<close>

unbundle bit_operations_syntax

section \<open>Configuration\<close>

record OptimizerConfig =
  constant_folding :: bool
  dead_code_elimination :: bool
  inlining :: bool
  escape_analysis :: bool
  region_elision :: bool
  devirtualization :: bool
  loop_unrolling :: bool
  memory_fusion :: bool
  verbose :: bool

definition optimizer_config_init :: OptimizerConfig where
  "optimizer_config_init = \<lparr>constant_folding = True, dead_code_elimination = True, inlining = True,
     escape_analysis = True, region_elision = True, devirtualization = True, loop_unrolling = True,
     memory_fusion = True, verbose = False\<rparr>"

section \<open>Counting nodes\<close>

fun count_ast_nodes :: "AstNode \<Rightarrow> nat" where
  "count_ast_nodes NULL = 0"
| "count_ast_nodes (NodeList t _ xs) =
     (if t = NODE_BLOCK \<or> t = NODE_PROGRAM then 1 + sum_list (map count_ast_nodes xs) else 1)"
| "count_ast_nodes (FuncDecl _ _ params _ body _ _ _ _ _) =
     1 + count_ast_nodes body + sum_list (map count_ast_nodes params)"
| "count_ast_nodes (LetDecl t _ _ _ v _ _) = (if t = NODE_LET then 1 + count_ast_nodes v else 1)"
| "count_ast_nodes (IfNode _ c th _ el _ _) = 1 + count_ast_nodes c + count_ast_nodes th + count_ast_nodes el"
| "count_ast_nodes (WhileNode _ c b) = 1 + count_ast_nodes c + count_ast_nodes b"
| "count_ast_nodes (ForNode _ _ it b _) = 1 + count_ast_nodes it + count_ast_nodes b"
| "count_ast_nodes (ReturnNode _ v) = 1 + count_ast_nodes v"
| "count_ast_nodes (BinaryOpNode t _ _ l r _) =
     (if t = NODE_BINARY_OP then 1 + count_ast_nodes l + count_ast_nodes r else 1)"
| "count_ast_nodes (UnaryOpNode _ _ e) = 1 + count_ast_nodes e"
| "count_ast_nodes (CallNode t _ c args) =
     (if t = NODE_CALL then 1 + count_ast_nodes c + sum_list (map count_ast_nodes args) else 1)"
| "count_ast_nodes (IndexNode _ a i) = 1 + count_ast_nodes a + count_ast_nodes i"
| "count_ast_nodes (FieldAccess _ a _) = 1 + count_ast_nodes a"
| "count_ast_nodes (MatchNode _ v arms) = 1 + count_ast_nodes v + sum_list (map count_ast_nodes arms)"
| "count_ast_nodes (TryNode _ b arms f) =
     1 + count_ast_nodes b + sum_list (map count_ast_nodes arms) + count_ast_nodes f"
| "count_ast_nodes (ThrowNode _ v) = 1 + count_ast_nodes v"
| "count_ast_nodes (DeferNode _ b) = 1 + count_ast_nodes b"
| "count_ast_nodes (RegionNode _ _ b) = 1 + count_ast_nodes b"
| "count_ast_nodes (LambdaNode _ _ _ b _) = 1 + count_ast_nodes b"
| "count_ast_nodes (ArrayLit _ xs) = 1 + sum_list (map count_ast_nodes xs)"
| "count_ast_nodes _ = 1"

section \<open>Constant expressions\<close>

definition const_unary :: "UnaryOp \<Rightarrow> bool" where
  "const_unary op \<longleftrightarrow> op = UNARY_NEG \<or> op = UNARY_NOT \<or> op = UNARY_BIT_NOT"

text \<open>The operators both \<open>is_constant_expr\<close> and \<open>fold_binary_op\<close> list; the first also lists and, or.\<close>

definition overloadable_binary :: "BinOp \<Rightarrow> bool" where
  "overloadable_binary op \<longleftrightarrow> op = BIN_ADD \<or> op = BIN_SUB \<or> op = BIN_MUL \<or> op = BIN_DIV \<or> op = BIN_MOD \<or>
     op = BIN_EQ \<or> op = BIN_NEQ \<or> op = BIN_LT \<or> op = BIN_GT \<or> op = BIN_LE \<or> op = BIN_GE \<or>
     op = BIN_BIT_AND \<or> op = BIN_BIT_OR \<or> op = BIN_BIT_XOR \<or> op = BIN_SHL \<or> op = BIN_SHR"

definition const_binary :: "BinOp \<Rightarrow> bool" where
  "const_binary op \<longleftrightarrow> overloadable_binary op \<or> op = BIN_AND \<or> op = BIN_OR"

fun is_constant_expr :: "AstNode \<Rightarrow> bool" where
  "is_constant_expr (LiteralNode _ _) = True"
| "is_constant_expr (UnaryOpNode _ op e) = (const_unary op \<and> is_constant_expr e)"
| "is_constant_expr (BinaryOpNode t _ op l r _) =
     (t = NODE_BINARY_OP \<and> const_binary op \<and> is_constant_expr l \<and> is_constant_expr r)"
| "is_constant_expr _ = False"

text \<open>What \<open>eval_constant_int\<close> can do: answer false, answer true with a value, or be undefined.\<close>

datatype Eval = EvFalse | EvVal u64 | EvUndef

definition bool_word :: "bool \<Rightarrow> u64" where "bool_word b = (if b then 1 else 0)"

definition neg_int64 :: "u64 \<Rightarrow> Eval" where
  "neg_int64 w = (if w = 2 ^ 63 then EvUndef else EvVal (- w))"

fun eval_unary :: "UnaryOp \<Rightarrow> u64 \<Rightarrow> Eval" where
  "eval_unary UNARY_NEG v = neg_int64 v"
| "eval_unary UNARY_NOT v = EvVal (if v \<noteq> 0 then 0 else 1)"
| "eval_unary UNARY_BIT_NOT v = EvVal (NOT v)"
| "eval_unary _ v = EvFalse"

fun eval_binary :: "BinOp \<Rightarrow> u64 \<Rightarrow> u64 \<Rightarrow> Eval" where
  "eval_binary BIN_ADD l r = EvVal (l + r)"
| "eval_binary BIN_SUB l r = EvVal (l - r)"
| "eval_binary BIN_MUL l r = EvVal (l * r)"
| "eval_binary BIN_DIV l r = (if r = 0 then EvFalse else EvVal (l div r))"
| "eval_binary BIN_MOD l r = (if r = 0 then EvFalse else EvVal (l mod r))"
| "eval_binary BIN_EQ l r = EvVal (bool_word (l = r))"
| "eval_binary BIN_NEQ l r = EvVal (bool_word (l \<noteq> r))"
| "eval_binary BIN_LT l r = EvVal (bool_word (l < r))"
| "eval_binary BIN_GT l r = EvVal (bool_word (l > r))"
| "eval_binary BIN_LE l r = EvVal (bool_word (l \<le> r))"
| "eval_binary BIN_GE l r = EvVal (bool_word (l \<ge> r))"
| "eval_binary BIN_AND l r = EvVal (bool_word (l \<noteq> 0 \<and> r \<noteq> 0))"
| "eval_binary BIN_OR l r = EvVal (bool_word (l \<noteq> 0 \<or> r \<noteq> 0))"
| "eval_binary BIN_BIT_AND l r = EvVal (l AND r)"
| "eval_binary BIN_BIT_OR l r = EvVal (l OR r)"
| "eval_binary BIN_BIT_XOR l r = EvVal (l XOR r)"
| "eval_binary BIN_SHL l r = (if unat r \<ge> 64 then EvUndef else EvVal (push_bit (unat r) l))"
| "eval_binary BIN_SHR l r = (if unat r \<ge> 64 then EvUndef else EvVal (drop_bit (unat r) l))"
| "eval_binary _ l r = EvFalse"

fun eval_literal :: "Literal \<Rightarrow> Eval" where
  "eval_literal (LitInt v neg) = (if neg then neg_int64 v else EvVal v)"
| "eval_literal (LitBool b) = EvVal (bool_word b)"
| "eval_literal (LitChar c) = EvVal (ucast c)"
| "eval_literal _ = EvFalse"

fun eval_constant_int :: "AstNode \<Rightarrow> Eval" where
  "eval_constant_int (LiteralNode _ l) = eval_literal l"
| "eval_constant_int (UnaryOpNode _ op e) =
     (case eval_constant_int e of EvVal v \<Rightarrow> eval_unary op v | r \<Rightarrow> r)"
| "eval_constant_int (BinaryOpNode t _ op l r _) =
     (if t \<noteq> NODE_BINARY_OP then EvFalse
      else case eval_constant_int l of
             EvVal v \<Rightarrow> (case eval_constant_int r of EvVal w \<Rightarrow> eval_binary op v w | s \<Rightarrow> s)
           | s \<Rightarrow> s)"
| "eval_constant_int _ = EvFalse"

section \<open>Constant folding\<close>

definition int_node :: "u64 \<Rightarrow> AstNode" where
  "int_node v = LiteralNode NO_LOCATION (LitInt v False)"

text \<open>The literal a constant node is replaced by, or the node.\<close>

definition fold_to_literal :: "AstNode \<Rightarrow> AstNode option" where
  "fold_to_literal node =
     (case eval_constant_int node of EvVal v \<Rightarrow> Some (int_node v) | EvFalse \<Rightarrow> Some node | EvUndef \<Rightarrow> None)"

text \<open>The three folds below work on a node whose children have been folded.\<close>

definition fold_binary_op :: "Location \<Rightarrow> BinOp \<Rightarrow> AstNode \<Rightarrow> AstNode \<Rightarrow> StringView \<Rightarrow> AstNode option" where
  "fold_binary_op loc op l r custom =
     (let node = BinaryOpNode NODE_BINARY_OP loc op l r custom in
      if overloadable_binary op \<and> is_constant_expr l \<and> is_constant_expr r then Some node
      else if is_constant_expr l \<and> is_constant_expr r then fold_to_literal node
      else Some node)"

definition fold_unary_op :: "Location \<Rightarrow> UnaryOp \<Rightarrow> AstNode \<Rightarrow> AstNode option" where
  "fold_unary_op loc op e =
     (let node = UnaryOpNode loc op e in
      if is_constant_expr e then fold_to_literal node else Some node)"

fun fold_if_node :: "Location \<Rightarrow> AstNode \<Rightarrow> AstNode \<Rightarrow> AstNode \<Rightarrow> AstNode \<Rightarrow> bool \<Rightarrow> AstNode \<Rightarrow> AstNode option" where
  "fold_if_node loc NULL th eli el il pat = None"
| "fold_if_node loc (LiteralNode _ (LitBool b)) th eli el il pat = Some (if b then th else el)"
| "fold_if_node loc c th eli el il pat = Some (IfNode loc c th eli el il pat)"

fun fold_node :: "AstNode \<Rightarrow> AstNode option" where
  "fold_node NULL = Some NULL"
| "fold_node (NodeList t loc xs) =
     (if t = NODE_BLOCK \<or> t = NODE_PROGRAM then do { xs' \<leftarrow> map_opt fold_node xs; Some (NodeList t loc xs') }
      else Some (NodeList t loc xs))"
| "fold_node (FuncDecl loc name params ret body defers tps pres posts info) =
     do { body' \<leftarrow> fold_node body; Some (FuncDecl loc name params ret body' defers tps pres posts info) }"
| "fold_node (LetDecl t loc name ty v is_mut is_global) =
     (if t = NODE_LET then do { v' \<leftarrow> fold_node v; Some (LetDecl t loc name ty v' is_mut is_global) }
      else Some (LetDecl t loc name ty v is_mut is_global))"
| "fold_node (IfNode loc c th eli el il pat) =
     do { c' \<leftarrow> fold_node c; th' \<leftarrow> fold_node th; el' \<leftarrow> fold_node el;
          fold_if_node loc c' th' eli el' il pat }"
| "fold_node (WhileNode loc c b) = do { c' \<leftarrow> fold_node c; b' \<leftarrow> fold_node b; Some (WhileNode loc c' b') }"
| "fold_node (ForNode loc var it b iv) =
     do { it' \<leftarrow> fold_node it; b' \<leftarrow> fold_node b; Some (ForNode loc var it' b' iv) }"
| "fold_node (ReturnNode loc v) = do { v' \<leftarrow> fold_node v; Some (ReturnNode loc v') }"
| "fold_node (CallNode t loc c args) =
     (if t = NODE_CALL then do { c' \<leftarrow> fold_node c; args' \<leftarrow> map_opt fold_node args; Some (CallNode t loc c' args') }
      else Some (CallNode t loc c args))"
| "fold_node (IndexNode loc a i) = do { a' \<leftarrow> fold_node a; i' \<leftarrow> fold_node i; Some (IndexNode loc a' i') }"
| "fold_node (FieldAccess loc a f) = do { a' \<leftarrow> fold_node a; Some (FieldAccess loc a' f) }"
| "fold_node (MatchNode loc v arms) =
     do { v' \<leftarrow> fold_node v; arms' \<leftarrow> map_opt fold_node arms; Some (MatchNode loc v' arms') }"
| "fold_node (TryNode loc b arms f) =
     do { b' \<leftarrow> fold_node b; arms' \<leftarrow> map_opt fold_node arms; Some (TryNode loc b' arms' f) }"
| "fold_node (ThrowNode loc v) = do { v' \<leftarrow> fold_node v; Some (ThrowNode loc v') }"
| "fold_node (DeferNode loc b) = do { b' \<leftarrow> fold_node b; Some (DeferNode loc b') }"
| "fold_node (RegionNode loc name b) = do { b' \<leftarrow> fold_node b; Some (RegionNode loc name b') }"
| "fold_node (LambdaNode loc ps ret b caps) = do { b' \<leftarrow> fold_node b; Some (LambdaNode loc ps ret b' caps) }"
| "fold_node (ArrayLit loc xs) = do { xs' \<leftarrow> map_opt fold_node xs; Some (ArrayLit loc xs') }"
| "fold_node (BinaryOpNode t loc op l r custom) =
     (if t = NODE_BINARY_OP then do { l' \<leftarrow> fold_node l; r' \<leftarrow> fold_node r; fold_binary_op loc op l' r' custom }
      else Some (BinaryOpNode t loc op l r custom))"
| "fold_node (UnaryOpNode loc op e) = do { e' \<leftarrow> fold_node e; fold_unary_op loc op e' }"
| "fold_node n = Some n"

definition opt_constant_fold :: "AstNode \<Rightarrow> AstNode option" where
  "opt_constant_fold node = fold_node node"

section \<open>Evaluation\<close>

lemma eval_unary_const: "eval_unary op v = EvVal w \<Longrightarrow> const_unary op"
  by (cases op) (simp_all add: const_unary_def)

lemma eval_binary_const: "eval_binary op u v = EvVal w \<Longrightarrow> const_binary op"
  by (cases op) (simp_all add: const_binary_def overloadable_binary_def)

lemma eval_constant: "eval_constant_int n = EvVal v \<Longrightarrow> is_constant_expr n"
proof (induction n arbitrary: v rule: eval_constant_int.induct)
  case (2 loc op e)
  then show ?case by (auto split: Eval.splits dest: eval_unary_const)
next
  case (3 t loc op l r c)
  then show ?case by (auto split: Eval.splits if_splits dest: eval_binary_const)
qed simp_all









section \<open>The constant evaluator and integer arithmetic\<close>




section \<open>Folding once is enough\<close>

definition folded :: "AstNode \<Rightarrow> bool" where
  "folded n \<longleftrightarrow> fold_node n = Some n"

lemma map_opt_folded: "map_opt fold_node xs = Some xs \<longleftrightarrow> list_all folded xs"
  by (induction xs) (auto simp: folded_def split: option.splits)

lemma folded_simps [simp]:
  "folded NULL" "folded (LiteralNode loc li)" "folded (int_node w)" "folded (IdentNode loc sv)"
  "folded (Param t loc name ty b1 b2 d)" "folded (LabelNode t loc sv)"
  "folded (ImportNode loc sv)" "folded (MatchArm loc pat pats gs b)" "folded (SliceNode loc a i j)"
  "folded (TypeNode t loc prim el tup ret ps ti)" "folded (StructDecl t loc name fs ms cs b1)"
  "folded (EnumDecl loc name vs b1)" "folded (EnumVariant loc name pays)" "folded (AsmBlock loc txt os is cl)"
  "folded (SpawnNode loc c)" "folded (TraitDecl loc name ms b1)" "folded (ImplBlock loc sv sw ms)"
  "folded (ModuleDecl loc name bd ver)" "folded (PoolDecl loc name w1 w2 w3)" "folded (ProtocolDecl loc name ms)"
  "folded (CatchArm loc ty var b b1)" "folded (AttrNode loc ai)" "folded (TypeParam loc name con)"
  "folded (NoData t loc)"
  "folded (NodeList t loc xs) \<longleftrightarrow> (t = NODE_BLOCK \<or> t = NODE_PROGRAM \<longrightarrow> list_all folded xs)"
  "folded (FuncDecl loc name params ret body defers tps pres posts info) \<longleftrightarrow> folded body"
  "folded (LetDecl t loc name ty v is_mut is_global) \<longleftrightarrow> (t = NODE_LET \<longrightarrow> folded v)"
  "folded (WhileNode loc c b) \<longleftrightarrow> folded c \<and> folded b"
  "folded (ForNode loc var it b iv) \<longleftrightarrow> folded it \<and> folded b"
  "folded (ReturnNode loc v) \<longleftrightarrow> folded v"
  "folded (CallNode t loc c args) \<longleftrightarrow> (t = NODE_CALL \<longrightarrow> folded c \<and> list_all folded args)"
  "folded (IndexNode loc a i) \<longleftrightarrow> folded a \<and> folded i"
  "folded (FieldAccess loc a f) \<longleftrightarrow> folded a"
  "folded (MatchNode loc v arms) \<longleftrightarrow> folded v \<and> list_all folded arms"
  "folded (TryNode loc b arms f) \<longleftrightarrow> folded b \<and> list_all folded arms"
  "folded (ThrowNode loc v) \<longleftrightarrow> folded v"
  "folded (DeferNode loc b) \<longleftrightarrow> folded b"
  "folded (RegionNode loc n b) \<longleftrightarrow> folded b"
  "folded (LambdaNode loc ps ret b caps) \<longleftrightarrow> folded b"
  "folded (ArrayLit loc xs) \<longleftrightarrow> list_all folded xs"
  by (auto simp: folded_def int_node_def bind_eq_Some_conv map_opt_folded)

lemma map_opt_folds:
  "map_opt fold_node xs = Some ys \<Longrightarrow> (\<And>x y. x \<in> set xs \<Longrightarrow> fold_node x = Some y \<Longrightarrow> folded y) \<Longrightarrow> list_all folded ys"
  unfolding map_opt_Some_iff by (induction rule: list_all2_induct) auto

lemma fold_to_literal_cases:
  "fold_to_literal n = Some n' \<Longrightarrow> n' = n \<or> (\<exists>v. n' = int_node v)"
  by (auto simp: fold_to_literal_def split: Eval.splits)

lemma folded_unary:
  assumes "folded e" "fold_unary_op loc op e = Some n'"
  shows "folded n'"
  using assms fold_to_literal_cases [of "UnaryOpNode loc op e" n']
  by (auto simp: folded_def fold_unary_op_def Let_def int_node_def split: if_splits)

lemma folded_binary:
  assumes "folded l" "folded r" "fold_binary_op loc op l r c = Some n'"
  shows "folded n'"
  using assms fold_to_literal_cases [of "BinaryOpNode NODE_BINARY_OP loc op l r c" n']
  by (auto simp: folded_def fold_binary_op_def Let_def int_node_def split: if_splits)

lemma folded_if:
  assumes "folded c" "folded th" "folded el" "fold_if_node loc c th eli el il pat = Some n'"
  shows "folded n'"
  using assms unfolding folded_def
  by (cases "(loc, c, th, eli, el, il, pat)" rule: fold_if_node.cases) auto

lemma fold_node_folded: "fold_node n = Some n' \<Longrightarrow> folded n'"
proof (induction n arbitrary: n' rule: fold_node.induct)
  case (2 t loc xs)
  have "list_all folded ys" if "map_opt fold_node xs = Some ys" "t = NODE_BLOCK \<or> t = NODE_PROGRAM" for ys
    by (rule map_opt_folds [OF that(1)]) (use "2.IH" that(2) in blast)
  with "2.prems" show ?case by (auto simp: bind_eq_Some_conv split: if_splits)
next
  case (9 t loc c args)
  have "list_all folded ys" if "map_opt fold_node args = Some ys" "t = NODE_CALL" "fold_node c = Some c'" for ys c'
    by (rule map_opt_folds [OF that(1)]) (use "9.IH"(2) [OF that(2,3)] in blast)
  with "9.prems" "9.IH"(1) show ?case by (auto simp: bind_eq_Some_conv split: if_splits)
next
  case (12 loc v arms)
  have "list_all folded ys" if "map_opt fold_node arms = Some ys" "fold_node v = Some v'" for ys v'
    by (rule map_opt_folds [OF that(1)]) (use "12.IH"(2) [OF that(2)] in blast)
  with "12.prems" "12.IH"(1) show ?case by (auto simp: bind_eq_Some_conv)
next
  case (13 loc b arms f)
  have "list_all folded ys" if "map_opt fold_node arms = Some ys" "fold_node b = Some b'" for ys b'
    by (rule map_opt_folds [OF that(1)]) (use "13.IH"(2) [OF that(2)] in blast)
  with "13.prems" "13.IH"(1) show ?case by (auto simp: bind_eq_Some_conv)
next
  case (18 loc xs)
  have "list_all folded ys" if "map_opt fold_node xs = Some ys" for ys
    by (rule map_opt_folds [OF that]) (use "18.IH" in blast)
  with "18.prems" show ?case by (auto simp: bind_eq_Some_conv)
next
  case (5 loc c th eli el il pat)
  from "5.prems" obtain c' th' el' where f: "fold_node c = Some c'" "fold_node th = Some th'" "fold_node el = Some el'"
    "fold_if_node loc c' th' eli el' il pat = Some n'"
    by (auto simp: bind_eq_Some_conv)
  show ?case
    by (rule folded_if [OF _ _ _ f(4)]) (use "5.IH" f in blast)+
next
  case (19 t loc op l r c)
  show ?case
  proof (cases "t = NODE_BINARY_OP")
    case True
    with "19.prems" obtain l' r' where f: "fold_node l = Some l'" "fold_node r = Some r'"
      "fold_binary_op loc op l' r' c = Some n'" by (auto simp: bind_eq_Some_conv)
    show ?thesis
      by (rule folded_binary [OF _ _ f(3)]) (use "19.IH" True f in blast)+
  qed (use "19.prems" in \<open>auto simp: folded_def\<close>)
next
  case (20 loc op e)
  from "20.prems" obtain e' where f: "fold_node e = Some e'" "fold_unary_op loc op e' = Some n'"
    by (auto simp: bind_eq_Some_conv)
  show ?case
    by (rule folded_unary [OF _ f(2)]) (use "20.IH" f in blast)
qed (auto simp: bind_eq_Some_conv split: if_splits)

text \<open>C25: Folding is idempotent: on a folded tree it changes nothing.\<close>
theorem fold_idempotent:
  assumes "opt_constant_fold n = Some n'"
  shows "opt_constant_fold n' = Some n'"
  using fold_node_folded [OF assms [unfolded opt_constant_fold_def]]
  by (simp add: opt_constant_fold_def folded_def)

definition demo_not_not :: AstNode where
  "demo_not_not = UnaryOpNode NO_LOCATION UNARY_NOT (UnaryOpNode NO_LOCATION UNARY_NOT (int_node 7))"

theorem fold_idempotent_witness:
  "opt_constant_fold demo_not_not = Some (int_node 1) \<and> opt_constant_fold (int_node 1) = Some (int_node 1)"
proof -
  have r: "opt_constant_fold demo_not_not = Some (int_node 1)"
    by (simp add: opt_constant_fold_def demo_not_not_def fold_unary_op_def fold_to_literal_def int_node_def
        const_unary_def)
  with fold_idempotent [OF r] show ?thesis by simp
qed

section \<open>Folding never makes the tree larger\<close>

lemma sum_list_map_opt_le:
  "map_opt f xs = Some ys \<Longrightarrow> (\<And>x y. x \<in> set xs \<Longrightarrow> f x = Some y \<Longrightarrow> g y \<le> g x) \<Longrightarrow>
   sum_list (map g ys) \<le> sum_list (map (g :: _ \<Rightarrow> nat) xs)"
  unfolding map_opt_Some_iff
proof (induction rule: list_all2_induct)
  case (Cons x xs y ys)
  have "g y \<le> g x" by (rule Cons.prems) (use Cons.hyps in auto)
  moreover have "sum_list (map g ys) \<le> sum_list (map g xs)"
    by (rule Cons.IH) (rule Cons.prems, auto)
  ultimately show ?case by simp
qed simp

lemma count_int_node [simp]: "count_ast_nodes (int_node v) = 1"
  by (simp add: int_node_def)

lemma count_fold_unary:
  "fold_unary_op loc op e = Some n' \<Longrightarrow> count_ast_nodes n' \<le> 1 + count_ast_nodes e"
  using fold_to_literal_cases [of "UnaryOpNode loc op e" n'] by (auto simp: fold_unary_op_def Let_def split: if_splits)

lemma count_fold_binary:
  "fold_binary_op loc op l r c = Some n' \<Longrightarrow> count_ast_nodes n' \<le> 1 + count_ast_nodes l + count_ast_nodes r"
  using fold_to_literal_cases [of "BinaryOpNode NODE_BINARY_OP loc op l r c" n']
  by (auto simp: fold_binary_op_def Let_def split: if_splits)

lemma count_fold_if:
  "fold_if_node loc c th eli el il pat = Some n' \<Longrightarrow>
   count_ast_nodes n' \<le> 1 + count_ast_nodes c + count_ast_nodes th + count_ast_nodes el"
  by (cases "(loc, c, th, eli, el, il, pat)" rule: fold_if_node.cases) (auto split: if_splits)

text \<open>No fold increases \<open>count_ast_nodes\<close>, the measure the inlining heuristic uses.\<close>
theorem fold_never_grows:
  assumes "opt_constant_fold n = Some n'"
  shows "count_ast_nodes n' \<le> count_ast_nodes n"
  using assms unfolding opt_constant_fold_def
proof (induction n arbitrary: n' rule: fold_node.induct)
  case (2 t loc xs)
  have "sum_list (map count_ast_nodes ys) \<le> sum_list (map count_ast_nodes xs)"
    if "map_opt fold_node xs = Some ys" "t = NODE_BLOCK \<or> t = NODE_PROGRAM" for ys
    by (rule sum_list_map_opt_le [OF that(1)]) (use "2.IH" that(2) in blast)
  with "2.prems" show ?case by (auto simp: bind_eq_Some_conv split: if_splits)
next
  case (5 loc c th eli el il pat)
  from "5.prems" obtain c' th' el' where f: "fold_node c = Some c'" "fold_node th = Some th'" "fold_node el = Some el'"
    "fold_if_node loc c' th' eli el' il pat = Some n'"
    by (auto simp: bind_eq_Some_conv)
  have "count_ast_nodes c' \<le> count_ast_nodes c" "count_ast_nodes th' \<le> count_ast_nodes th"
    "count_ast_nodes el' \<le> count_ast_nodes el" using "5.IH" f by blast+
  with count_fold_if [OF f(4)] show ?case by simp
next
  case (9 t loc c args)
  have "sum_list (map count_ast_nodes ys) \<le> sum_list (map count_ast_nodes args)"
    if "map_opt fold_node args = Some ys" "t = NODE_CALL" "fold_node c = Some c'" for ys c'
    by (rule sum_list_map_opt_le [OF that(1)]) (use "9.IH"(2) [OF that(2,3)] in blast)
  with "9.prems" "9.IH"(1) show ?case by (force simp: bind_eq_Some_conv split: if_splits)
next
  case (12 loc v arms)
  have "sum_list (map count_ast_nodes ys) \<le> sum_list (map count_ast_nodes arms)"
    if "map_opt fold_node arms = Some ys" "fold_node v = Some v'" for ys v'
    by (rule sum_list_map_opt_le [OF that(1)]) (use "12.IH"(2) [OF that(2)] in blast)
  with "12.prems" "12.IH"(1) show ?case by (force simp: bind_eq_Some_conv)
next
  case (13 loc b arms f)
  have "sum_list (map count_ast_nodes ys) \<le> sum_list (map count_ast_nodes arms)"
    if "map_opt fold_node arms = Some ys" "fold_node b = Some b'" for ys b'
    by (rule sum_list_map_opt_le [OF that(1)]) (use "13.IH"(2) [OF that(2)] in blast)
  with "13.prems" "13.IH"(1) show ?case by (force simp: bind_eq_Some_conv)
next
  case (18 loc xs)
  have "sum_list (map count_ast_nodes ys) \<le> sum_list (map count_ast_nodes xs)"
    if "map_opt fold_node xs = Some ys" for ys
    by (rule sum_list_map_opt_le [OF that]) (use "18.IH" in blast)
  with "18.prems" show ?case by (auto simp: bind_eq_Some_conv)
next
  case (19 t loc op l r c)
  show ?case
  proof (cases "t = NODE_BINARY_OP")
    case True
    with "19.prems" obtain l' r' where f: "fold_node l = Some l'" "fold_node r = Some r'"
      "fold_binary_op loc op l' r' c = Some n'" by (auto simp: bind_eq_Some_conv)
    have "count_ast_nodes l' \<le> count_ast_nodes l" "count_ast_nodes r' \<le> count_ast_nodes r"
      using "19.IH" True f by blast+
    with count_fold_binary [OF f(3)] True show ?thesis by simp
  qed (use "19.prems" in auto)
next
  case (20 loc op e)
  from "20.prems" obtain e' where f: "fold_node e = Some e'" "fold_unary_op loc op e' = Some n'"
    by (auto simp: bind_eq_Some_conv)
  have "count_ast_nodes e' \<le> count_ast_nodes e" using "20.IH" f by blast
  with count_fold_unary [OF f(2)] show ?case by simp
qed (fastforce simp: bind_eq_Some_conv intro: add_mono split: if_splits)+

theorem fold_never_grows_witness:
  "count_ast_nodes (int_node 1) \<le> count_ast_nodes demo_not_not"
  by (rule fold_never_grows)
    (simp add: opt_constant_fold_def demo_not_not_def fold_unary_op_def fold_to_literal_def int_node_def
        const_unary_def)

section \<open>What folding does not do, and does wrongly\<close>

text \<open>A binary operator other than and, or is never folded, whatever its operands: the sum of two
  literals stays a sum.\<close>
theorem fold_keeps_arithmetic:
  assumes "overloadable_binary op" "opt_constant_fold (BinaryOpNode NODE_BINARY_OP loc op l r c) = Some n'"
  shows "\<exists>l' r'. n' = BinaryOpNode NODE_BINARY_OP loc op l' r' c \<and>
    opt_constant_fold l = Some l' \<and> opt_constant_fold r = Some r'"
  using assms by (auto simp: opt_constant_fold_def bind_eq_Some_conv fold_binary_op_def Let_def split: if_splits)

theorem fold_keeps_arithmetic_witness:
  "opt_constant_fold (BinaryOpNode NODE_BINARY_OP NO_LOCATION BIN_ADD (int_node 3) (int_node 4) SV0)
     = Some (BinaryOpNode NODE_BINARY_OP NO_LOCATION BIN_ADD (int_node 3) (int_node 4) SV0)"
proof -
  obtain n' where n': "opt_constant_fold (BinaryOpNode NODE_BINARY_OP NO_LOCATION BIN_ADD (int_node 3) (int_node 4) SV0) = Some n'"
    by (simp add: opt_constant_fold_def fold_binary_op_def int_node_def Let_def overloadable_binary_def)
  from fold_keeps_arithmetic [OF _ n'] n' show ?thesis
    by (simp add: overloadable_binary_def opt_constant_fold_def int_node_def)
qed




section \<open>Inlining and the placeholders\<close>

definition MAX_INLINE_NODES :: nat where "MAX_INLINE_NODES = 20"

fun is_small_function :: "AstNode \<Rightarrow> nat \<Rightarrow> bool" where
  "is_small_function (FuncDecl _ _ _ _ body _ _ _ _ _) max_nodes =
     (body \<noteq> NULL \<and> count_ast_nodes body \<le> max_nodes)"
| "is_small_function _ max_nodes = False"

fun opt_inline :: "AstNode \<Rightarrow> AstNode" where
  "opt_inline NULL = NULL"
| "opt_inline (NodeList t loc xs) =
     (if t = NODE_PROGRAM \<or> t = NODE_BLOCK then NodeList t loc (map opt_inline xs) else NodeList t loc xs)"
| "opt_inline (FuncDecl loc name params ret body defers tps pres posts info) =
     FuncDecl loc name params ret (if body \<noteq> NULL then opt_inline body else body) defers tps pres posts info"
| "opt_inline (CallNode t loc c args) =
     (if t = NODE_CALL then CallNode t loc c (map opt_inline args) else CallNode t loc c args)"
| "opt_inline (IfNode loc c th eli el il pat) =
     IfNode loc (opt_inline c) (opt_inline th) eli (if el \<noteq> NULL then opt_inline el else el) il pat"
| "opt_inline (WhileNode loc c b) = WhileNode loc (opt_inline c) (opt_inline b)"
| "opt_inline (ForNode loc var it b iv) = ForNode loc var (opt_inline it) (opt_inline b) iv"
| "opt_inline (ReturnNode loc v) = ReturnNode loc (if v \<noteq> NULL then opt_inline v else v)"
| "opt_inline (LetDecl t loc name ty v is_mut is_global) =
     (if t = NODE_LET then LetDecl t loc name ty (if v \<noteq> NULL then opt_inline v else v) is_mut is_global
      else LetDecl t loc name ty v is_mut is_global)"
| "opt_inline (BinaryOpNode t loc op l r custom) =
     (if t = NODE_BINARY_OP then BinaryOpNode t loc op (opt_inline l) (opt_inline r) custom
      else BinaryOpNode t loc op l r custom)"
| "opt_inline (UnaryOpNode loc op e) = UnaryOpNode loc op (opt_inline e)"
| "opt_inline n = n"

definition does_value_escape :: "AstNode \<Rightarrow> AstNode \<Rightarrow> bool" where
  "does_value_escape func_decl v = True"

definition opt_escape_analysis :: "AstNode \<Rightarrow> AstNode" where "opt_escape_analysis node = node"
definition opt_region_elision :: "AstNode \<Rightarrow> AstNode" where "opt_region_elision node = node"
definition opt_devirtualize :: "AstNode \<Rightarrow> AstNode" where "opt_devirtualize node = node"
definition opt_loop_unroll :: "AstNode \<Rightarrow> AstNode" where "opt_loop_unroll node = node"
definition opt_memory_fusion :: "AstNode \<Rightarrow> AstNode" where "opt_memory_fusion node = node"

lemma opt_inline_id: "opt_inline n = n"
  by (induction n rule: opt_inline.induct) (auto simp: map_idI)

text \<open>The inlining pass walks the tree and inlines nothing: it is the identity on every tree.\<close>
theorem opt_inline_identity: "opt_inline n = n"
  by (rule opt_inline_id)

end
