(* ===== verification/DeadCode.thy ===== *)
theory DeadCode
  imports Optimizer
begin

text \<open>
  Dead code elimination of \<open>src/optimizer.c\<close> and the pass pipeline \<open>optimize\<close>.

  The symbol table of the C code stores, for each declaration, a pointer to the local buffer
  \<open>name_buf\<close> of the call that entered it; the buffer is dead when the table is searched.  What a search
  reads there is undefined, so it is a parameter: \<open>R st n i\<close> are the bytes found through entry \<open>i\<close> of
  table \<open>st\<close> when node \<open>n\<close> is processed.  \<open>kept_names\<close> is the reading in which the buffers keep
  their contents; the theorems say which facts need it and which hold for every \<open>R\<close>.  \<open>None\<close> is a read
  through NULL (or of the wrong union member) by the compiler.
\<close>

section \<open>The symbol table\<close>

record SymbolEntry =
  se_name :: string
  se_used :: bool

type_synonym SymbolTable = "SymbolEntry list"

type_synonym name_reader = "SymbolTable \<Rightarrow> AstNode \<Rightarrow> nat \<Rightarrow> string"

definition kept_names :: name_reader where
  "kept_names st n i = se_name (st ! i)"

definition MAX_SYMBOLS :: nat where "MAX_SYMBOLS = 4096"

text \<open>\<open>find_symbol\<close>: the first entry whose name reads as the one looked for.\<close>

definition find_symbol :: "name_reader \<Rightarrow> AstNode \<Rightarrow> SymbolTable \<Rightarrow> string \<Rightarrow> nat option" where
  "find_symbol R n st name = List.find (\<lambda>i. R st n i = name) [0..<length st]"

definition add_symbol :: "SymbolTable \<Rightarrow> string \<Rightarrow> SymbolTable" where
  "add_symbol st name =
     (if length st \<ge> MAX_SYMBOLS then st else st @ [\<lparr>se_name = name, se_used = False\<rparr>])"

text \<open>\<open>node->data.ident.name\<close> of a name node, copied into a buffer of 256 bytes and read back as a C string.\<close>

fun ident_name :: "AstNode \<Rightarrow> StringView option" where
  "ident_name (IdentNode _ sv) = Some sv"
| "ident_name _ = None"

definition name_buf :: "StringView \<Rightarrow> string" where
  "name_buf sv = take (if sv_len sv < 255 then sv_len sv else 255) (sv_data sv)"

definition c_str :: "string \<Rightarrow> string" where
  "c_str s = takeWhile (\<lambda>c. c \<noteq> NUL) s"

definition entry_flags :: "FuncInfo \<Rightarrow> bool" where
  "entry_flags fi \<longleftrightarrow> fi_is_exported fi \<or> fi_is_sys fi \<or> fi_entry_addr fi \<ge> 0"

definition is_main :: "string \<Rightarrow> bool" where "is_main buf \<longleftrightarrow> buf = ''main''"

section \<open>Collecting uses\<close>

definition dce_declare :: "AstNode \<Rightarrow> FuncInfo \<Rightarrow> SymbolTable \<Rightarrow> SymbolTable option" where
  "dce_declare name info st =
     do { sv \<leftarrow> ident_name name;
          let buf = name_buf sv in
          let is_entry = is_main buf \<or> entry_flags info \<or> fi_has_test info in
          Some (if \<not> is_entry then add_symbol st (c_str buf) else st) }"

definition dce_collect_ident :: "name_reader \<Rightarrow> AstNode \<Rightarrow> SymbolTable \<Rightarrow> SymbolTable" where
  "dce_collect_ident R n st =
     (case ident_name n of
        None \<Rightarrow> st
      | Some sv \<Rightarrow> (case find_symbol R n st (c_str (name_buf sv)) of
            None \<Rightarrow> st
          | Some i \<Rightarrow> st[i := (st ! i)\<lparr>se_used := True\<rparr>]))"

text \<open>The first loop over a program: declare its functions.\<close>

fun dce_declare_decl :: "AstNode \<Rightarrow> SymbolTable \<Rightarrow> SymbolTable option" where
  "dce_declare_decl NULL st = None"
| "dce_declare_decl (FuncDecl _ name _ _ _ _ _ _ _ info) st = dce_declare name info st"
| "dce_declare_decl _ st = Some st"

text \<open>The body the second loop over a program visits.\<close>

fun decl_body :: "AstNode \<Rightarrow> AstNode" where
  "decl_body (FuncDecl _ _ _ _ body _ _ _ _ _) = body"
| "decl_body _ = NULL"

lemma size_decl_body: "size (decl_body n) \<le> size n"
  by (cases n) auto

lemma size_in_list: "x \<in> set xs \<Longrightarrow> size x \<le> size_list size xs"
  by (induction xs) auto

function (sequential) dce_collect :: "name_reader \<Rightarrow> AstNode \<Rightarrow> SymbolTable \<Rightarrow> SymbolTable option" where
  "dce_collect R NULL st = Some st"
| "dce_collect R (FuncDecl loc name params ret body defers tps pres posts info) st =
     do { st1 \<leftarrow> dce_declare name info st; dce_collect R body st1 }"
| "dce_collect R (LetDecl t loc name ty v is_mut is_global) st =
     (if t = NODE_LET then
        do { sv \<leftarrow> ident_name name; dce_collect R v (add_symbol st (c_str (name_buf sv))) }
      else Some st)"
| "dce_collect R (IdentNode loc sv) st = Some (dce_collect_ident R (IdentNode loc sv) st)"
| "dce_collect R (NodeList t loc xs) st =
     (if t = NODE_PROGRAM then
        do { st1 \<leftarrow> fold_opt dce_declare_decl xs st;
             fold_opt (\<lambda>x. dce_collect R (decl_body x)) xs st1 }
      else if t = NODE_BLOCK then fold_opt (dce_collect R) xs st
      else Some st)"
| "dce_collect R (IfNode loc c th eli el il pat) st =
     do { st1 \<leftarrow> dce_collect R c st; st2 \<leftarrow> dce_collect R th st1; dce_collect R el st2 }"
| "dce_collect R (WhileNode loc c b) st = do { st1 \<leftarrow> dce_collect R c st; dce_collect R b st1 }"
| "dce_collect R (ForNode loc var it b iv) st = do { st1 \<leftarrow> dce_collect R it st; dce_collect R b st1 }"
| "dce_collect R (ReturnNode loc v) st = dce_collect R v st"
| "dce_collect R (CallNode t loc c args) st =
     (if t = NODE_CALL then do { st1 \<leftarrow> dce_collect R c st; fold_opt (dce_collect R) args st1 }
      else dce_collect R c st)"
| "dce_collect R (BinaryOpNode t loc op l r custom) st =
     (if t = NODE_BINARY_OP then do { st1 \<leftarrow> dce_collect R l st; dce_collect R r st1 } else Some st)"
| "dce_collect R (UnaryOpNode loc op e) st = dce_collect R e st"
| "dce_collect R (IndexNode loc a i) st = do { st1 \<leftarrow> dce_collect R a st; dce_collect R i st1 }"
| "dce_collect R (FieldAccess loc a f) st = dce_collect R a st"
| "dce_collect R (MatchNode loc v arms) st =
     do { st1 \<leftarrow> dce_collect R v st; fold_opt (dce_collect R) arms st1 }"
| "dce_collect R (TryNode loc b arms f) st =
     do { st1 \<leftarrow> dce_collect R b st; st2 \<leftarrow> fold_opt (dce_collect R) arms st1; dce_collect R f st2 }"
| "dce_collect R (ThrowNode loc v) st = dce_collect R v st"
| "dce_collect R (DeferNode loc b) st = dce_collect R b st"
| "dce_collect R (RegionNode loc name b) st = dce_collect R b st"
| "dce_collect R (LambdaNode loc ps ret b caps) st = dce_collect R b st"
| "dce_collect R (ArrayLit loc xs) st = fold_opt (dce_collect R) xs st"
| "dce_collect R _ st = Some st"
  by pat_completeness auto

termination
  by (relation "measure (\<lambda>(R, n, st). size n)")
    (auto simp: less_Suc_eq_le dest!: size_in_list intro: le_trans [OF size_decl_body])

section \<open>Removing declarations\<close>

text \<open>An initialiser that is kept for its effects.\<close>

definition let_has_side_effects :: "AstNode \<Rightarrow> bool" where
  "let_has_side_effects v \<longleftrightarrow> v \<noteq> NULL \<and>
     (node_type v = Some NODE_CALL \<or> node_type v = Some NODE_ASM_BLOCK \<or> node_type v = Some NODE_BINARY_OP)"

definition unused_entry :: "name_reader \<Rightarrow> AstNode \<Rightarrow> SymbolTable \<Rightarrow> string \<Rightarrow> bool" where
  "unused_entry R n st name =
     (case find_symbol R n st name of None \<Rightarrow> False | Some i \<Rightarrow> \<not> se_used (st ! i))"

text \<open>Whether a statement of a block or program is kept.\<close>

fun dce_keep :: "name_reader \<Rightarrow> SymbolTable \<Rightarrow> AstNode \<Rightarrow> bool option" where
  "dce_keep R st NULL = None"
| "dce_keep R st (FuncDecl loc name params ret body defers tps pres posts info) =
     do { sv \<leftarrow> ident_name name;
          let buf = name_buf sv in
          let n = FuncDecl loc name params ret body defers tps pres posts info in
          Some (is_main buf \<or> entry_flags info \<or> \<not> unused_entry R n st (c_str buf)) }"
| "dce_keep R st (LetDecl t loc name ty v is_mut is_global) =
     (if t = NODE_LET then
        do { sv \<leftarrow> ident_name name;
             let n = LetDecl t loc name ty v is_mut is_global in
             Some (\<not> unused_entry R n st (c_str (name_buf sv)) \<or> let_has_side_effects v) }
      else Some True)"
| "dce_keep R st _ = Some True"

text \<open>The loop over the statements: a kept one is cleaned and moved down.\<close>

fun keep_map :: "('a \<Rightarrow> bool option) \<Rightarrow> ('a \<Rightarrow> 'a option) \<Rightarrow> 'a list \<Rightarrow> 'a list option" where
  "keep_map k f [] = Some []"
| "keep_map k f (x # xs) =
     (case k x of None \<Rightarrow> None
      | Some b \<Rightarrow> if b then do { y \<leftarrow> f x; ys \<leftarrow> keep_map k f xs; Some (y # ys) } else keep_map k f xs)"

lemma keep_map_cong [fundef_cong]:
  "xs = ys \<Longrightarrow> k = k' \<Longrightarrow> (\<And>x. x \<in> set ys \<Longrightarrow> f x = g x) \<Longrightarrow> keep_map k f xs = keep_map k' g ys"
  by (induction ys arbitrary: xs) (auto split: option.splits)

fun dce_remove_dead :: "name_reader \<Rightarrow> SymbolTable \<Rightarrow> AstNode \<Rightarrow> AstNode option" where
  "dce_remove_dead R st NULL = Some NULL"
| "dce_remove_dead R st (NodeList t loc xs) =
     (if t = NODE_PROGRAM \<or> t = NODE_BLOCK
      then do { ys \<leftarrow> keep_map (dce_keep R st) (dce_remove_dead R st) xs; Some (NodeList t loc ys) }
      else Some (NodeList t loc xs))"
| "dce_remove_dead R st (FuncDecl loc name params ret body defers tps pres posts info) =
     do { body' \<leftarrow> dce_remove_dead R st body;
          Some (FuncDecl loc name params ret body' defers tps pres posts info) }"
| "dce_remove_dead R st (IfNode loc c th eli el il pat) =
     do { c' \<leftarrow> dce_remove_dead R st c; th' \<leftarrow> dce_remove_dead R st th; el' \<leftarrow> dce_remove_dead R st el;
          Some (IfNode loc c' th' eli el' il pat) }"
| "dce_remove_dead R st (WhileNode loc c b) =
     do { c' \<leftarrow> dce_remove_dead R st c; b' \<leftarrow> dce_remove_dead R st b; Some (WhileNode loc c' b') }"
| "dce_remove_dead R st (ForNode loc var it b iv) =
     do { it' \<leftarrow> dce_remove_dead R st it; b' \<leftarrow> dce_remove_dead R st b; Some (ForNode loc var it' b' iv) }"
| "dce_remove_dead R st (CallNode t loc c args) =
     (if t = NODE_EXPR_STMT then do { c' \<leftarrow> dce_remove_dead R st c; Some (CallNode t loc c' args) }
      else Some (CallNode t loc c args))"
| "dce_remove_dead R st n = Some n"

definition opt_dead_code_elim :: "name_reader \<Rightarrow> AstNode \<Rightarrow> AstNode option" where
  "opt_dead_code_elim R n =
     (if n = NULL then Some NULL else do { st \<leftarrow> dce_collect R n []; dce_remove_dead R st n })"

section \<open>The pipeline\<close>

definition optimize :: "name_reader \<Rightarrow> OptimizerConfig \<Rightarrow> AstNode \<Rightarrow> AstNode option" where
  "optimize R cfg program =
     (if program = NULL then Some NULL
      else do {
        p1 \<leftarrow> (if constant_folding cfg then opt_constant_fold program else Some program);
        p2 \<leftarrow> (if dead_code_elimination cfg then opt_dead_code_elim R p1 else Some p1);
        let p3 = (if inlining cfg then opt_inline p2 else p2);
        let p4 = (if escape_analysis cfg then opt_escape_analysis p3 else p3);
        let p5 = (if region_elision cfg then opt_region_elision p4 else p4);
        let p6 = (if devirtualization cfg then opt_devirtualize p5 else p5);
        let p7 = (if loop_unrolling cfg then opt_loop_unroll p6 else p6);
        let p8 = (if memory_fusion cfg then opt_memory_fusion p7 else p7);
        Some p8 })"

section \<open>The pipeline is folding followed by elimination\<close>

lemma optimize_unfold:
  "optimize R cfg program =
     (if program = NULL then Some NULL
      else do { p \<leftarrow> (if constant_folding cfg then opt_constant_fold program else Some program);
                if dead_code_elimination cfg then opt_dead_code_elim R p else Some p })"
  by (simp add: optimize_def opt_inline_id opt_escape_analysis_def opt_region_elision_def
      opt_devirtualize_def opt_loop_unroll_def opt_memory_fusion_def Let_def)

text \<open>Whatever the other six flags say, \<open>optimize\<close> is constant folding followed by dead code
  elimination.\<close>
theorem optimize_is_fold_then_dce:
  "optimize R cfg program =
     (if program = NULL then Some NULL
      else do { p \<leftarrow> (if constant_folding cfg then opt_constant_fold program else Some program);
                if dead_code_elimination cfg then opt_dead_code_elim R p else Some p })"
  by (rule optimize_unfold)

section \<open>Entry points survive\<close>

text \<open>A declaration without its body, and the declarations every run must keep.\<close>

fun decl_head :: "AstNode \<Rightarrow> AstNode" where
  "decl_head (FuncDecl loc name params ret body defers tps pres posts info) =
     FuncDecl loc name params ret NULL defers tps pres posts info"
| "decl_head n = n"

fun entry_decl :: "AstNode \<Rightarrow> bool" where
  "entry_decl (FuncDecl _ name _ _ _ _ _ _ _ info) =
     (entry_flags info \<or> (case ident_name name of Some sv \<Rightarrow> is_main (name_buf sv) | None \<Rightarrow> False))"
| "entry_decl _ = False"

lemma entry_decl_head [simp]: "entry_decl (decl_head n) = entry_decl n"
  by (cases n) auto

lemma dce_keep_entry: "dce_keep R st n = Some b \<Longrightarrow> entry_decl n \<Longrightarrow> b"
  by (cases n) (auto simp: bind_eq_Some_conv Let_def)

lemma remove_entry:
  "dce_remove_dead R st n = Some m \<Longrightarrow> entry_decl m = entry_decl n \<and> (entry_decl n \<longrightarrow> decl_head m = decl_head n)"
  by (cases n) (auto simp: bind_eq_Some_conv split: if_splits)

lemma keep_map_entries:
  "keep_map (dce_keep R st) (dce_remove_dead R st) xs = Some ys \<Longrightarrow>
   map decl_head (filter entry_decl ys) = map decl_head (filter entry_decl xs)"
proof (induction xs arbitrary: ys)
  case (Cons x xs)
  then show ?case
    using dce_keep_entry [of R st x] remove_entry [of R st x]
    by (auto simp: bind_eq_Some_conv split: option.splits if_splits)
qed simp

lemma remove_program:
  assumes "opt_dead_code_elim R (NodeList NODE_PROGRAM loc xs) = Some p"
  obtains st ys where "dce_collect R (NodeList NODE_PROGRAM loc xs) [] = Some st"
    "keep_map (dce_keep R st) (dce_remove_dead R st) xs = Some ys" "p = NodeList NODE_PROGRAM loc ys"
  using assms by (auto simp: opt_dead_code_elim_def bind_eq_Some_conv simp del: dce_collect.simps)

text \<open>C10: whatever is read through the dead name buffers, elimination keeps every function that is
  called main, exported, a system function or placed at an address, in order and with its header.\<close>
theorem dce_keeps_entry_points:
  assumes "opt_dead_code_elim R (NodeList NODE_PROGRAM loc xs) = Some p"
  shows "\<exists>ys. p = NodeList NODE_PROGRAM loc ys \<and>
    map decl_head (filter entry_decl ys) = map decl_head (filter entry_decl xs)"
  using assms by (rule remove_program) (auto dest: keep_map_entries)

definition ident :: "string \<Rightarrow> AstNode" where
  "ident s = IdentNode NO_LOCATION \<lparr>sv_data = s, sv_len = length s\<rparr>"

definition plain_func :: "string \<Rightarrow> AstNode list \<Rightarrow> AstNode" where
  "plain_func s body = FuncDecl NO_LOCATION (ident s) [] NULL (NodeList NODE_BLOCK NO_LOCATION body) [] [] [] []
     (fi_zero\<lparr>fi_sys_index := -1, fi_entry_addr := -1\<rparr>)"

definition call_stmt :: "string \<Rightarrow> AstNode" where
  "call_stmt s = CallNode NODE_EXPR_STMT NO_LOCATION (CallNode NODE_CALL NO_LOCATION (ident s) []) []"

definition prog :: "AstNode list \<Rightarrow> AstNode" where
  "prog xs = NodeList NODE_PROGRAM NO_LOCATION xs"

lemmas demo_defs = ident_def plain_func_def call_stmt_def prog_def fi_zero_def name_buf_def c_str_def is_main_def
  entry_flags_def dce_declare_def add_symbol_def MAX_SYMBOLS_def dce_collect_ident_def find_symbol_def
  kept_names_def unused_entry_def opt_dead_code_elim_def upt_rec Let_def

theorem dce_keeps_entry_points_witness:
  "\<exists>ys. opt_dead_code_elim kept_names (prog [plain_func ''f'' [], plain_func ''main'' [ReturnNode NO_LOCATION NULL]])
      = Some (NodeList NODE_PROGRAM NO_LOCATION ys) \<and>
    map decl_head (filter entry_decl ys) = [decl_head (plain_func ''main'' [])]"
proof -
  let ?xs = "[plain_func ''f'' [], plain_func ''main'' [ReturnNode NO_LOCATION NULL]]"
  have "opt_dead_code_elim kept_names (prog ?xs) \<noteq> None"
    by (simp add: demo_defs)
  then obtain p where p: "opt_dead_code_elim kept_names (NodeList NODE_PROGRAM NO_LOCATION ?xs) = Some p"
    by (auto simp: prog_def)
  have e: "map decl_head (filter entry_decl ?xs) = [decl_head (plain_func ''main'' [])]"
    by (simp add: demo_defs)
  show ?thesis using dce_keeps_entry_points [OF p] p e by (auto simp: prog_def)
qed

section \<open>Functions that are referenced survive\<close>


text \<open>The entry a search for a name meets, and the names a table has decided about.\<close>

definition entry_of :: "SymbolTable \<Rightarrow> string \<Rightarrow> SymbolEntry option" where
  "entry_of st s = List.find (\<lambda>e. se_name e = s) st"

definition dead_in :: "SymbolTable \<Rightarrow> string \<Rightarrow> bool" where
  "dead_in st s \<longleftrightarrow> (case entry_of st s of None \<Rightarrow> False | Some e \<Rightarrow> \<not> se_used e)"

definition settled :: "string \<Rightarrow> SymbolTable \<Rightarrow> bool" where
  "settled s st \<longleftrightarrow> entry_of st s \<noteq> None \<or> length st \<ge> MAX_SYMBOLS"





text \<open>A step of the collection from one table to the next, \<open>U\<close> being whether it meets the name.\<close>

definition table_step :: "string \<Rightarrow> bool \<Rightarrow> SymbolTable \<Rightarrow> SymbolTable \<Rightarrow> bool" where
  "table_step s U st st' \<longleftrightarrow> (settled s st \<longrightarrow> settled s st' \<and> (U \<or> \<not> dead_in st s \<longrightarrow> \<not> dead_in st' s))"

lemma table_step_refl [simp]: "table_step s False st st"
  by (simp add: table_step_def)



















section \<open>What elimination gets wrong\<close>


text \<open>Nothing protects a referenced function when a dead name buffer has been overwritten by the
  time main is searched: with a reader that finds other bytes during the collection, it is removed.\<close>
theorem dce_depends_on_dead_buffers:
  "opt_dead_code_elim (\<lambda>st n i. if node_type n = Some NODE_IDENT then ''?'' else se_name (st ! i))
     (prog [plain_func ''f'' [], plain_func ''main'' [call_stmt ''f'']])
   = Some (prog [plain_func ''main'' [call_stmt ''f'']])"
  by (simp add: demo_defs)


end
