(* ===== verification/Parser.thy ===== *)
theory Parser
  imports Ast Lexer "HOL-Library.Monad_Syntax"
begin

text \<open>
  The recursive-descent parser of \<open>src/parser.c\<close>: its state, token management, types, patterns,
  attributes, expressions and statements.  The declarations are in \<open>ParserDecl\<close>.

  A parsing function takes the parser and returns the node and the parser behind it.  The functions
  are mutually recursive and one of their loops may not end, so each takes the functions it calls as
  a record \<open>calls\<close> (open recursion): \<open>calls_at n\<close>, in \<open>ParserDecl\<close>, ties the knot with fuel \<open>n\<close>, and
  \<open>None\<close> is the value of a call that runs out of it.  The loops of the code whose rounds call a parsing
  function take their fuel from the record as well (\<open>loop\<close>); a loop that only drops tokens is
  \<open>skip_tokens\<close>, which always ends.

  \<open>has_current\<close> is set by the first \<open>parser_advance\<close> and never cleared.  \<open>parser_parse\<close> and \<open>parse_expr\<close>
  prime the parser before they look at a token, so the tests \<open>if (!p->has_current)\<close> elsewhere find
  it primed; \<open>parser_check\<close> reads through \<open>parser_prime\<close> and leaves the state alone.  Error messages
  go to \<open>stderr\<close> and are not modelled; memory is assumed to be granted, as the code does.
\<close>

section \<open>State and token management\<close>

record Parser =
  p_lexer :: Lexer
  p_current :: Token
  p_previous :: Token
  p_has_current :: bool
  p_error_count :: int
  panic_mode :: bool

type_synonym 'a res = "('a \<times> Parser) option"

definition parser_on :: "Lexer \<Rightarrow> Parser" where
  "parser_on l = \<lparr>p_lexer = l, p_current = zero_token, p_previous = zero_token, p_has_current = False,
     p_error_count = 0, panic_mode = False\<rparr>"

definition parser_create :: "(nat \<Rightarrow> bool) \<Rightarrow> string \<Rightarrow> nat \<Rightarrow> string option \<Rightarrow> Parser option" where
  "parser_create alloc source len filename =
     (if \<not> alloc 0 then None
      else map_option parser_on (lexer_create (\<lambda>i. alloc (Suc i)) source len filename))"

definition parser_advance :: "Parser \<Rightarrow> Parser" where
  "parser_advance p =
     (let l = snd (lexer_advance (p_lexer p))
      in p\<lparr>p_previous := p_current p, p_lexer := l, p_current := l_current l, p_has_current := True\<rparr>)"

definition parser_prime :: "Parser \<Rightarrow> Parser" where
  "parser_prime p = (if p_has_current p then p else parser_advance p)"

definition parser_check :: "Parser \<Rightarrow> TokenType \<Rightarrow> bool" where
  "parser_check p ty \<longleftrightarrow> tok_type (p_current (parser_prime p)) = ty"

definition parser_check_any :: "Parser \<Rightarrow> TokenType list \<Rightarrow> bool" where
  "parser_check_any p tys \<longleftrightarrow> list_ex (\<lambda>ty. tok_type (p_current (parser_prime p)) = ty) tys"

definition parser_match :: "Parser \<Rightarrow> TokenType \<Rightarrow> bool \<times> Parser" where
  "parser_match p ty = (if parser_check p ty then (True, parser_advance p) else (False, p))"

definition parser_error :: "Parser \<Rightarrow> Parser" where
  "parser_error p = p\<lparr>p_error_count := p_error_count p + 1, panic_mode := True\<rparr>"

definition parser_expect :: "Parser \<Rightarrow> TokenType \<Rightarrow> Parser" where
  "parser_expect p ty = (if parser_check p ty then parser_advance p else parser_error p)"

text \<open>
  What is left to parse: two for every byte the scanner has not read, the buffered tokens, and for a
  string literal its length again, since its text is parsed a second time when it is interpolated.
\<close>

definition token_weight :: "Token \<Rightarrow> nat" where
  "token_weight tok =
     (if tok_type tok = TOKEN_EOF then 0
      else if tok_type tok = TOKEN_STRING_LITERAL then max 1 (2 * sv_len (tok_text tok)) else 1)"

definition p_left :: "Parser \<Rightarrow> nat" where
  "p_left p = token_weight (p_current p)
     + (if has_next (p_lexer p) then token_weight (l_next (p_lexer p)) else 0)
     + 2 * (t_end (l_tok (p_lexer p)) - t_pos (l_tok (p_lexer p)))"

lemma token_weight_next:
  "token_weight (fst (tokenizer_next t)) + 2 * (t_end (snd (tokenizer_next t)) - t_pos (snd (tokenizer_next t)))
     \<le> 2 * (t_end t - t_pos t)"
proof (cases "tok_type (fst (tokenizer_next t)) = TOKEN_EOF")
  case True
  then show ?thesis using tokenizer_next_frame [of t] by (auto simp: token_weight_def fwd_def)
next
  case False
  note frame = tokenizer_next_frame [of t]
  from tokenizer_next_span [OF False] obtain s where s: "t_pos t \<le> s" "s < t_pos (snd (tokenizer_next t))" "s < t_end t"
    and tx: "tok_type (fst (tokenizer_next t)) \<notin> {TOKEN_ERROR, OP TOKEN_HASH} \<Longrightarrow>
      tok_text (fst (tokenizer_next t)) = sv_from_parts (drop s (t_src t)) (t_pos (snd (tokenizer_next t)) - s)"
    by metis
  show ?thesis
  proof (cases "tok_type (fst (tokenizer_next t)) = TOKEN_STRING_LITERAL")
    case True
    then have "t_pos (snd (tokenizer_next t)) \<le> t_end t"
      using tokenizer_next_overrun(2) [of t] s by (force simp: overrun_type_def)
    with True s tx frame show ?thesis by (auto simp: token_weight_def fwd_def)
  next
    case False
    with s frame show ?thesis by (auto simp: token_weight_def fwd_def)
  qed
qed

lemma p_left_advance:
  "p_left (parser_advance p) + token_weight (p_current p) \<le> p_left p"
  using token_weight_next [of "l_tok (p_lexer p)"]
  by (auto simp: p_left_def parser_advance_def lexer_advance_def Let_def case_prod_beta)

lemma token_weight_pos: "tok_type tok \<noteq> TOKEN_EOF \<Longrightarrow> 0 < token_weight tok"
  by (auto simp: token_weight_def max_def)

text \<open>Dropping tokens while they satisfy a condition: \<open>while (parser_match(p, T));\<close> and its kin.\<close>

function skip_tokens :: "(TokenType \<Rightarrow> bool) \<Rightarrow> Parser \<Rightarrow> Parser" where
  "skip_tokens P p =
     (if tok_type (p_current p) \<noteq> TOKEN_EOF \<and> P (tok_type (p_current p))
      then skip_tokens P (parser_advance p) else p)"
  by pat_completeness auto
termination
  by (relation "measure (\<lambda>(P, p). p_left p)")
    (auto intro: less_le_trans [OF _ p_left_advance] simp: token_weight_pos)

declare skip_tokens.simps [simp del]

abbreviation skip_newlines :: "Parser \<Rightarrow> Parser" where
  "skip_newlines \<equiv> skip_tokens (\<lambda>ty. ty = TOKEN_NEWLINE)"

section \<open>Synchronization\<close>

definition STMT_START :: "TokenType list" where
  "STMT_START = [KW TOKEN_KW_LET, KW TOKEN_KW_IF, KW TOKEN_KW_WHILE, KW TOKEN_KW_FOR, KW TOKEN_KW_RETURN,
     KW TOKEN_KW_BREAK, KW TOKEN_KW_CONTINUE, KW TOKEN_KW_DEFER, KW TOKEN_KW_MATCH, KW TOKEN_KW_ASM,
     KW TOKEN_KW_FUNC, KW TOKEN_KW_STRUCT, KW TOKEN_KW_ENUM, KW TOKEN_KW_CONST, KW TOKEN_KW_IMPORT,
     KW TOKEN_KW_MODULE, KW TOKEN_KW_PUB, KW TOKEN_KW_STATIC, KW TOKEN_KW_UNSAFE, KW TOKEN_KW_TRY,
     KW TOKEN_KW_THROW, KW TOKEN_KW_TYPE, KW TOKEN_KW_SPAWN, KW TOKEN_KW_YIELD, OP TOKEN_AT, OP TOKEN_RBRACE]"

definition parser_at_stmt_start :: "Parser \<Rightarrow> bool" where
  "parser_at_stmt_start p = parser_check_any p STMT_START"

definition parser_sync :: "Parser \<Rightarrow> Parser" where
  "parser_sync p = skip_tokens (\<lambda>ty. ty \<notin> set STMT_START) (p\<lparr>panic_mode := False\<rparr>)"

section \<open>Loops and callees\<close>

text \<open>A loop whose round says whether to go on.\<close>

fun loop :: "nat \<Rightarrow> ('s \<Rightarrow> (bool \<times> 's) option) \<Rightarrow> 's \<Rightarrow> 's option" where
  "loop 0 step s = None"
| "loop (Suc n) step s = do { (go, s) \<leftarrow> step s; if go then loop n step s else Some s }"

record calls =
  c_fuel :: nat
  c_type :: "Parser \<Rightarrow> AstNode res"
  c_expr :: "nat \<Rightarrow> Parser \<Rightarrow> AstNode res"
  c_prefix :: "Parser \<Rightarrow> AstNode res"
  c_infix :: "AstNode \<Rightarrow> Parser \<Rightarrow> AstNode res"
  c_arm :: "Parser \<Rightarrow> AstNode res"
  c_block :: "Parser \<Rightarrow> AstNode res"
  c_stmt :: "Parser \<Rightarrow> AstNode res"
  c_decl :: "AstNode list \<Rightarrow> Parser \<Rightarrow> AstNode list res"

fun is_null :: "AstNode \<Rightarrow> bool" where
  "is_null NULL = True"
| "is_null _ = False"

lemma is_null_iff [simp]: "is_null n \<longleftrightarrow> n = NULL"
  by (cases n) simp_all

text \<open>\<open>node_list_append\<close> drops NULL.\<close>

definition append_node :: "AstNode list \<Rightarrow> AstNode \<Rightarrow> AstNode list" where
  "append_node xs n = (if is_null n then xs else xs @ [n])"

text \<open>The members of the union \<open>val\<close>; the scanner writes \<open>int_value\<close> for integers and characters and
  \<open>float_value\<close> for floats.  A cast to \<open>int\<close> keeps the low 32 bits.\<close>

definition int_value :: "Token \<Rightarrow> u64" where
  "int_value tok = (case tok_val tok of IntVal v \<Rightarrow> v | _ \<Rightarrow> 0)"

definition float_node :: "Location \<Rightarrow> TokVal \<Rightarrow> AstNode" where
  "float_node loc v = (case v of FloatVal m e \<Rightarrow> node_float_literal True loc m e | _ \<Rightarrow> node_float_literal True loc 0 0)"

definition to_int :: "u64 \<Rightarrow> int" where
  "to_int v = sint (ucast v :: u32)"

definition tok_ident :: "Token \<Rightarrow> AstNode" where
  "tok_ident tok = node_ident True (tok_loc tok) (tok_text tok)"

definition SV :: "string \<Rightarrow> StringView" where "SV s = sv_from_cstr s"

section \<open>Types\<close>

definition prim_names :: "(string \<times> PrimType) list" where
  "prim_names = [(''void'', PRIM_VOID), (''bool'', PRIM_BOOL), (''byte'', PRIM_BYTE), (''u8'', PRIM_U8),
     (''u16'', PRIM_U16), (''u32'', PRIM_U32), (''u64'', PRIM_U64), (''u128'', PRIM_U128), (''i8'', PRIM_I8),
     (''i16'', PRIM_I16), (''i32'', PRIM_I32), (''i64'', PRIM_I64), (''f32'', PRIM_F32), (''f64'', PRIM_F64),
     (''string'', PRIM_STRING), (''int'', PRIM_I64), (''float'', PRIM_F32), (''double'', PRIM_F64),
     (''char'', PRIM_BYTE)]"

definition prim_named :: "StringView \<Rightarrow> PrimType option" where
  "prim_named name = map_option snd (List.find (\<lambda>(s, prim). sv_eq_cstr name s) prim_names)"

text \<open>A type node: tag, location, element type, tuple types, return type, parameter types.\<close>

definition mk_type :: "NodeType \<Rightarrow> Location \<Rightarrow> AstNode \<Rightarrow> TypeInfo \<Rightarrow> AstNode" where
  "mk_type ty loc elem info = node_create True (TypeNode ty loc PRIM_VOID elem [] NULL [] info)"

definition type_infer :: "Location \<Rightarrow> AstNode" where
  "type_infer loc = mk_type NODE_TYPE_INFER loc NULL ti_zero"

text \<open>The comma-separated types before a closing parenthesis.\<close>

definition type_list_step :: "calls \<Rightarrow> AstNode list \<times> Parser \<Rightarrow> (bool \<times> AstNode list \<times> Parser) option" where
  "type_list_step K = (\<lambda>(ts, p).
     if parser_check p (OP TOKEN_RPAREN) \<or> parser_check p TOKEN_EOF then Some (False, ts, p)
     else do { (t, p) \<leftarrow> c_type K p;
               let (more, p) = parser_match p (OP TOKEN_COMMA);
               Some (more, append_node ts t, p) })"

definition type_list :: "calls \<Rightarrow> AstNode list \<Rightarrow> Parser \<Rightarrow> AstNode list res" where
  "type_list K ts p = loop (c_fuel K) (type_list_step K) (ts, p)"

text \<open>\<open>func(params): rettype\<close>, behind the keyword.\<close>

definition parse_type_fn :: "calls \<Rightarrow> Parser \<Rightarrow> AstNode res" where
  "parse_type_fn K p =
     (let loc = tok_loc (p_previous p)
      in do {
        (ps, p) \<leftarrow> (if parser_check p (OP TOKEN_LPAREN)
                   then do { (ps, p) \<leftarrow> type_list K [] (parser_advance p);
                             Some (ps, parser_expect p (OP TOKEN_RPAREN)) }
                   else Some ([], p));
        (rty, p) \<leftarrow> (if parser_check p (OP TOKEN_COLON) then c_type K (parser_advance p) else Some (NULL, p));
        Some (node_create True (TypeNode NODE_TYPE_FN loc PRIM_VOID NULL [] rty ps ti_zero), p) })"

text \<open>An identifier: a primitive type, an inferred type, or a named type.\<close>

definition parse_type_name :: "Parser \<Rightarrow> AstNode \<times> Parser" where
  "parse_type_name p =
     (let name = tok_text (p_current p); p' = parser_advance p; loc = tok_loc (p_previous p')
      in (case prim_named name of
            Some prim \<Rightarrow> node_type_prim True loc prim
          | None \<Rightarrow>
              if sv_len name = 1 \<and> sv_data name ! 0 = CHR ''_'' then type_infer loc
              else if sv_eq_cstr name ''auto'' then type_infer loc
              else node_type_named True loc name, p'))"

text \<open>A prefix keyword or symbol and the type behind it; the node is located at the last token of the type.\<close>

definition parse_type_ref :: "calls \<Rightarrow> NodeType \<Rightarrow> TypeInfo \<Rightarrow> Parser \<Rightarrow> AstNode res" where
  "parse_type_ref K ty info p =
     do { (inner, p) \<leftarrow> c_type K (parser_advance p);
          Some (mk_type ty (tok_loc (p_previous p)) inner info, p) }"

definition parse_type_array :: "calls \<Rightarrow> Parser \<Rightarrow> AstNode res" where
  "parse_type_array K p =
     do { (elem, p) \<leftarrow> c_type K (parser_advance p);
          if parser_check p (OP TOKEN_COMMA) \<or> parser_check p (OP TOKEN_SEMICOLON)
          then let p = parser_advance p; sz = p_current p; p = parser_advance p;
                   n = (if tok_type sz = TOKEN_INT_LITERAL then to_int (int_value sz) else 0);
                   t = mk_type NODE_TYPE_ARRAY (tok_loc (p_previous p)) elem (ti_zero\<lparr>ti_array_size := n\<rparr>)
               in Some (t, parser_expect p (OP TOKEN_RBRACKET))
          else let p = parser_expect p (OP TOKEN_RBRACKET)
               in Some (mk_type NODE_TYPE_SLICE (tok_loc (p_previous p)) elem ti_zero, p) }"

text \<open>A tuple of types, or one type in parentheses.\<close>

definition parse_type_tuple :: "calls \<Rightarrow> Parser \<Rightarrow> AstNode res" where
  "parse_type_tuple K p =
     do { (first, p) \<leftarrow> c_type K (parser_advance p);
          if parser_check p (OP TOKEN_COMMA)
          then let p = parser_advance p; loc = tok_loc (p_previous p)
               in do { (ts, p) \<leftarrow> type_list K (append_node [] first) p;
                       Some (node_create True (TypeNode NODE_TYPE_TUPLE loc PRIM_VOID NULL ts NULL [] ti_zero),
                             parser_expect p (OP TOKEN_RPAREN)) }
          else Some (first, parser_expect p (OP TOKEN_RPAREN)) }"

text \<open>
  The tests in the order of the code.  The one for the word \<open>ptr\<close> and the second one for \<open>func\<close> come
  after tests that already caught every identifier and every \<open>func\<close>.
\<close>

definition parse_type_base :: "calls \<Rightarrow> Parser \<Rightarrow> AstNode res" where
  "parse_type_base K p =
     (if parser_check p (KW TOKEN_KW_FUNC) then parse_type_fn K (parser_advance p)
      else if parser_check p TOKEN_IDENT then Some (parse_type_name p)
      else if parser_check p (KW TOKEN_KW_DYN) then parse_type_ref K NODE_TYPE_REF (ti_zero\<lparr>ti_is_ref := True\<rparr>) p
      else if parser_check p TOKEN_IDENT \<and> sv_eq_cstr (tok_text (p_current p)) ''ptr''
      then parse_type_ref K NODE_TYPE_PTR ti_zero p
      else if parser_check p (OP TOKEN_STAR) then parse_type_ref K NODE_TYPE_PTR ti_zero p
      else if parser_check p (OP TOKEN_LBRACKET) then parse_type_array K p
      else if parser_check p (KW TOKEN_KW_REF) then parse_type_ref K NODE_TYPE_REF ti_zero p
      else if parser_check p (KW TOKEN_KW_OWNED) then parse_type_ref K NODE_TYPE_REF (ti_zero\<lparr>ti_is_owned := True\<rparr>) p
      else if parser_check p (KW TOKEN_KW_RC) then parse_type_ref K NODE_TYPE_REF (ti_zero\<lparr>ti_is_rc := True\<rparr>) p
      else if parser_check p (KW TOKEN_KW_FUNC) then parse_type_fn K (parser_advance p)
      else if parser_check p (OP TOKEN_LPAREN) then parse_type_tuple K p
      else Some (NULL, parser_advance (parser_error p)))"

definition optional_ends :: "TokenType list" where
  "optional_ends = [TOKEN_NEWLINE, OP TOKEN_EQ, OP TOKEN_RPAREN, OP TOKEN_COMMA, OP TOKEN_SEMICOLON,
     OP TOKEN_RBRACE, TOKEN_EOF, OP TOKEN_COLON, OP TOKEN_RBRACKET]"

definition parser_peek :: "Parser \<Rightarrow> Token \<times> Parser" where
  "parser_peek p = (let (tok, l) = lexer_peek_next (p_lexer p) in (tok, p\<lparr>p_lexer := l\<rparr>))"

definition parse_type_postfix :: "AstNode \<Rightarrow> Parser \<Rightarrow> AstNode \<times> Parser" where
  "parse_type_postfix base p =
     (if parser_check p (OP TOKEN_QUESTION)
      then let (peek, p) = parser_peek p
           in if tok_type peek \<in> set optional_ends
              then let p = parser_advance p in (mk_type NODE_TYPE_OPTIONAL (tok_loc (p_previous p)) base ti_zero, p)
              else (base, p)
      else (base, p))"

definition parse_type :: "calls \<Rightarrow> Parser \<Rightarrow> AstNode res" where
  "parse_type K p = do { (base, p) \<leftarrow> parse_type_base K p; Some (parse_type_postfix base p) }"

definition parse_type_annotation :: "calls \<Rightarrow> Parser \<Rightarrow> AstNode res" where
  "parse_type_annotation K p =
     (if parser_check p (OP TOKEN_COLON) then c_type K (parser_advance p) else Some (NULL, p))"

section \<open>Patterns\<close>

definition pattern_range :: "Token \<Rightarrow> Parser \<Rightarrow> AstNode \<times> Parser" where
  "pattern_range t p =
     (let (inclusive, p) = parser_match p (OP TOKEN_DOT_DOT_EQ);
          p = (if \<not> inclusive then snd (parser_match p (OP TOKEN_DOT_DOT)) else p)
      in if parser_check p TOKEN_INT_LITERAL
         then let end_t = p_current p
              in (node_binary True (tok_loc t) (if inclusive then BIN_RANGE_INCLUSIVE else BIN_RANGE)
                    (node_int_literal True (tok_loc t) (int_value t))
                    (node_int_literal True (tok_loc end_t) (int_value end_t)), parser_advance p)
         else (NULL, parser_error p))"

definition parse_pattern :: "Parser \<Rightarrow> AstNode \<times> Parser" where
  "parse_pattern p =
     (let t = p_current p; p' = parser_advance p
      in if parser_check p (KW TOKEN_KW_TRUE) then (node_bool_literal True (tok_loc (p_previous p')) True, p')
         else if parser_check p (KW TOKEN_KW_FALSE) then (node_bool_literal True (tok_loc (p_previous p')) False, p')
         else if parser_check p (KW TOKEN_KW_NONE) then (node_none_literal True (tok_loc (p_previous p')), p')
         else if parser_check p TOKEN_INT_LITERAL
         then if parser_check p' (OP TOKEN_DOT_DOT) \<or> parser_check p' (OP TOKEN_DOT_DOT_EQ)
              then pattern_range t p'
              else (node_int_literal True (tok_loc t) (int_value t), p')
         else if parser_check p TOKEN_STRING_LITERAL then (node_string_literal True (tok_loc t) (tok_text t), p')
         else if parser_check p TOKEN_IDENT
         then if sv_eq_cstr (tok_text t) ''_'' then (node_ident True (tok_loc (p_previous p')) (SV ''_''), p')
              else (tok_ident t, p')
         else if tok_type t \<in> {OP TOKEN_COMMA, OP TOKEN_ARROW, TOKEN_NEWLINE, OP TOKEN_RBRACE} then (NULL, p)
         else (NULL, parser_error p))"

section \<open>Attributes\<close>

definition attr_new :: "StringView \<Rightarrow> AttrInfo" where
  "attr_new name = \<lparr>at_name = name, at_int_value = -1, at_has_layout_start = False, at_layout_start = 0,
     at_has_layout_max = False, at_layout_max = 0, at_layout_bits = 0, at_layout_signature = 0,
     at_layout_file = SV0, at_has_module_abi = False, at_module_abi_version = -1, at_has_test = False\<rparr>"

definition attr_int :: "StringView \<Rightarrow> u64 \<Rightarrow> AttrInfo \<Rightarrow> AttrInfo" where
  "attr_int key v a =
     (if sv_eq_cstr key ''start'' then a\<lparr>at_has_layout_start := True, at_layout_start := sint v\<rparr>
      else if sv_eq_cstr key ''max'' then a\<lparr>at_has_layout_max := True, at_layout_max := sint v\<rparr>
      else if sv_eq_cstr key ''bits'' then a\<lparr>at_layout_bits := to_int v\<rparr>
      else if sv_eq_cstr key ''signature'' then a\<lparr>at_layout_signature := to_int v\<rparr>
      else if sv_eq_cstr key ''version'' then a\<lparr>at_has_module_abi := True, at_module_abi_version := sint v\<rparr>
      else a)"

text \<open>One \<open>key = value\<close> and the separators behind it.\<close>

definition attr_value :: "StringView \<Rightarrow> AttrInfo \<times> Parser \<Rightarrow> AttrInfo \<times> Parser" where
  "attr_value key = (\<lambda>(a, p).
     if parser_check p TOKEN_INT_LITERAL then (attr_int key (int_value (p_current p)) a, parser_advance p)
     else if parser_check p TOKEN_STRING_LITERAL
     then (a\<lparr>at_layout_file := tok_text (p_current p)\<rparr>, parser_advance p)
     else (a, parser_advance p))"

definition attr_pair_step :: "AttrInfo \<times> Parser \<Rightarrow> (bool \<times> AttrInfo \<times> Parser) option" where
  "attr_pair_step = (\<lambda>(a, p).
     if parser_check p (OP TOKEN_RPAREN) \<or> parser_check p TOKEN_EOF then Some (False, a, p)
     else let p = skip_newlines p
          in if parser_check p (OP TOKEN_RPAREN) then Some (False, a, p)
             else let key = tok_text (p_current p); p = parser_advance p;
                      (a, p) = (if parser_check p (OP TOKEN_EQ) \<or> parser_check p (OP TOKEN_COLON)
                                then attr_value key (a, parser_advance p) else (a, p));
                      p = skip_newlines (skip_tokens (\<lambda>ty. ty = OP TOKEN_COMMA) p)
                  in Some (True, a, p))"

definition attr_args :: "nat \<Rightarrow> AttrInfo \<Rightarrow> Parser \<Rightarrow> AttrInfo res" where
  "attr_args n a p =
     (if parser_check p TOKEN_IDENT \<or> parser_check p (KW TOKEN_KW_LAYOUT) \<or> parser_check p (KW TOKEN_KW_ENTRY)
      then loop n attr_pair_step (a, p)
      else if parser_check p TOKEN_INT_LITERAL
      then Some (a\<lparr>at_int_value := sint (int_value (p_current p))\<rparr>, parser_advance p)
      else Some (a, skip_tokens (\<lambda>ty. ty \<noteq> OP TOKEN_RPAREN) p))"

definition parse_attribute :: "calls \<Rightarrow> Parser \<Rightarrow> AstNode res" where
  "parse_attribute K p =
     (if parser_check p TOKEN_IDENT \<or> parser_check p (KW TOKEN_KW_EXPORT) \<or> parser_check p (KW TOKEN_KW_ENTRY) \<or>
         parser_check p (KW TOKEN_KW_LAYOUT)
      then let t = p_current p; p = parser_advance p
           in do { (a, p) \<leftarrow> (if parser_check p (OP TOKEN_LPAREN)
                             then do { (a, p) \<leftarrow> attr_args (c_fuel K) (attr_new (tok_text t)) (parser_advance p);
                                       Some (a, parser_expect p (OP TOKEN_RPAREN)) }
                             else Some (attr_new (tok_text t), p));
                   Some (node_create True (AttrNode (tok_loc t) a), p) }
      else Some (NULL, p))"

section \<open>Precedences and operators\<close>

definition PREC_MIN :: nat where "PREC_MIN = 0"
definition PREC_ASSIGNMENT :: nat where "PREC_ASSIGNMENT = 1"
definition PREC_TERNARY :: nat where "PREC_TERNARY = 2"
definition PREC_LOGICAL_OR :: nat where "PREC_LOGICAL_OR = 3"
definition PREC_LOGICAL_AND :: nat where "PREC_LOGICAL_AND = 4"
definition PREC_COMPARISON :: nat where "PREC_COMPARISON = 5"
definition PREC_CAST :: nat where "PREC_CAST = 6"
definition PREC_BIT_OR :: nat where "PREC_BIT_OR = 7"
definition PREC_BIT_XOR :: nat where "PREC_BIT_XOR = 8"
definition PREC_BIT_AND :: nat where "PREC_BIT_AND = 9"
definition PREC_SHIFT :: nat where "PREC_SHIFT = 10"
definition PREC_RANGE :: nat where "PREC_RANGE = 11"
definition PREC_TERM :: nat where "PREC_TERM = 12"
definition PREC_FACTOR :: nat where "PREC_FACTOR = 13"
definition PREC_UNARY :: nat where "PREC_UNARY = 14"
definition PREC_CALL :: nat where "PREC_CALL = 15"
definition PREC_PRIMARY :: nat where "PREC_PRIMARY = 16"

lemmas prec_defs = PREC_MIN_def PREC_ASSIGNMENT_def PREC_TERNARY_def PREC_LOGICAL_OR_def PREC_LOGICAL_AND_def
  PREC_COMPARISON_def PREC_CAST_def PREC_BIT_OR_def PREC_BIT_XOR_def PREC_BIT_AND_def PREC_SHIFT_def
  PREC_RANGE_def PREC_TERM_def PREC_FACTOR_def PREC_UNARY_def PREC_CALL_def PREC_PRIMARY_def

definition precedences :: "(TokenType \<times> nat) list" where
  "precedences =
     [(OP TOKEN_LPAREN, PREC_CALL), (OP TOKEN_LBRACKET, PREC_CALL), (OP TOKEN_DOT, PREC_CALL),
      (OP TOKEN_COLON_COLON, PREC_CALL), (OP TOKEN_EQ, PREC_ASSIGNMENT), (OP TOKEN_PLUS_EQ, PREC_ASSIGNMENT),
      (OP TOKEN_MINUS_EQ, PREC_ASSIGNMENT), (OP TOKEN_STAR_EQ, PREC_ASSIGNMENT),
      (OP TOKEN_SLASH_EQ, PREC_ASSIGNMENT), (OP TOKEN_PIPE_PIPE, PREC_LOGICAL_OR),
      (KW TOKEN_KW_OR, PREC_LOGICAL_OR), (OP TOKEN_AND_AND, PREC_LOGICAL_AND), (KW TOKEN_KW_AND, PREC_LOGICAL_AND),
      (OP TOKEN_EQ_EQ, PREC_COMPARISON), (OP TOKEN_BANG_EQ, PREC_COMPARISON), (OP TOKEN_LT, PREC_COMPARISON),
      (OP TOKEN_GT, PREC_COMPARISON), (OP TOKEN_LT_EQ, PREC_COMPARISON), (OP TOKEN_GT_EQ, PREC_COMPARISON),
      (KW TOKEN_KW_AS, PREC_CAST), (OP TOKEN_PIPE, PREC_BIT_OR), (OP TOKEN_CARET, PREC_BIT_XOR),
      (OP TOKEN_AMPERSAND, PREC_BIT_AND), (OP TOKEN_LT_LT, PREC_SHIFT), (OP TOKEN_GT_GT, PREC_SHIFT),
      (OP TOKEN_DOT_DOT, PREC_RANGE), (OP TOKEN_DOT_DOT_EQ, PREC_RANGE), (OP TOKEN_PLUS, PREC_TERM),
      (OP TOKEN_MINUS, PREC_TERM), (OP TOKEN_STAR, PREC_FACTOR), (OP TOKEN_SLASH, PREC_FACTOR),
      (OP TOKEN_PERCENT, PREC_FACTOR), (OP TOKEN_STAR_STAR, PREC_FACTOR), (OP TOKEN_QUESTION, PREC_TERNARY),
      (OP TOKEN_UNICODE_OP, PREC_TERM)]"

definition token_precedence :: "TokenType \<Rightarrow> nat" where
  "token_precedence ty = (case map_of precedences ty of Some prec \<Rightarrow> prec | None \<Rightarrow> PREC_MIN)"

definition infix_ops :: "(TokenType \<times> BinOp) list" where
  "infix_ops =
     [(OP TOKEN_PLUS, BIN_ADD), (OP TOKEN_MINUS, BIN_SUB), (OP TOKEN_STAR, BIN_MUL), (OP TOKEN_STAR_STAR, BIN_POWER),
      (OP TOKEN_SLASH, BIN_DIV), (OP TOKEN_PERCENT, BIN_MOD), (OP TOKEN_EQ_EQ, BIN_EQ), (OP TOKEN_BANG_EQ, BIN_NEQ),
      (OP TOKEN_LT, BIN_LT), (OP TOKEN_GT, BIN_GT), (OP TOKEN_LT_EQ, BIN_LE), (OP TOKEN_GT_EQ, BIN_GE),
      (OP TOKEN_AND_AND, BIN_AND), (KW TOKEN_KW_AND, BIN_AND), (OP TOKEN_PIPE_PIPE, BIN_OR), (KW TOKEN_KW_OR, BIN_OR),
      (OP TOKEN_AMPERSAND, BIN_BIT_AND), (OP TOKEN_PIPE, BIN_BIT_OR), (OP TOKEN_CARET, BIN_BIT_XOR),
      (OP TOKEN_LT_LT, BIN_SHL), (OP TOKEN_GT_GT, BIN_SHR), (OP TOKEN_DOT_DOT, BIN_RANGE),
      (OP TOKEN_DOT_DOT_EQ, BIN_RANGE_INCLUSIVE), (OP TOKEN_EQ, BIN_ASSIGN), (OP TOKEN_PLUS_EQ, BIN_ADD_ASSIGN),
      (OP TOKEN_MINUS_EQ, BIN_SUB_ASSIGN), (OP TOKEN_STAR_EQ, BIN_MUL_ASSIGN), (OP TOKEN_SLASH_EQ, BIN_DIV_ASSIGN),
      (OP TOKEN_UNICODE_OP, BIN_CUSTOM)]"

abbreviation parse_expr :: "calls \<Rightarrow> Parser \<Rightarrow> AstNode res" where
  "parse_expr K \<equiv> c_expr K PREC_MIN"

section \<open>String interpolation\<close>

text \<open>\<open>\{\<close> and \<open>\}\<close> become braces in the literal text.\<close>

fun unescape_braces :: "string \<Rightarrow> string" where
  "unescape_braces (c # d # s) =
     (if c = BSLASH \<and> (d = CHR ''{'' \<or> d = CHR ''}'') then d # unescape_braces s else c # unescape_braces (d # s))"
| "unescape_braces s = s"

text \<open>A quoted copy of the text in a buffer of its own, with its NUL.\<close>

definition quoted_text :: "string \<Rightarrow> StringView" where
  "quoted_text s = (let q = DQUOTE # s @ [DQUOTE] in sv_from_parts (q @ [NUL]) (length q))"

definition concat_piece :: "Location \<Rightarrow> AstNode \<Rightarrow> AstNode \<Rightarrow> AstNode" where
  "concat_piece loc result n = (if is_null result then n else node_binary True loc BIN_CONCAT result n)"

definition literal_piece :: "Location \<Rightarrow> string \<Rightarrow> nat \<Rightarrow> nat \<Rightarrow> AstNode \<Rightarrow> AstNode" where
  "literal_piece loc s i j result =
     (if j > i
      then concat_piece loc result
             (node_string_literal True loc (quoted_text (unescape_braces (subbytes s i j))))
      else result)"

text \<open>The matching brace: the position where the scan stops and the depth left.\<close>

function brace_end :: "string \<Rightarrow> nat \<Rightarrow> nat \<Rightarrow> nat \<Rightarrow> nat \<times> nat" where
  "brace_end s e i depth =
     (if i < e \<and> depth > 0
      then if s ! i = BSLASH \<and> i + 1 < e \<and> (s ! (i + 1) = CHR ''{'' \<or> s ! (i + 1) = CHR ''}'')
           then brace_end s e (i + 2) depth
           else let depth = (if s ! i = CHR ''{'' then depth + 1 else if s ! i = CHR ''}'' then depth - 1 else depth)
                in brace_end s e (if depth > 0 then i + 1 else i) depth
      else (i, depth))"
  by pat_completeness auto
termination
  by (relation "measure (\<lambda>(s, e, i, d). 2 * (e - i) + d)") (auto split: if_splits)

declare brace_end.simps [simp del]

lemma brace_end_ge: "i \<le> fst (brace_end s e i d)"
proof (induction s e i d rule: brace_end.induct)
  case (1 s e i d)
  show ?case
    unfolding brace_end.simps [of s e i d] using "1.IH"
    by (auto simp: Let_def intro: le_trans [rotated] split: if_splits)
qed

text \<open>
  The loop over the text \<open>s\<close> of length \<open>e\<close>: \<open>i\<close> is \<open>cur\<close>, \<open>st\<close> is \<open>p_start\<close>.  An expression is parsed by a
  parser of its own on the bytes between the braces; its errors stay with it.
\<close>

definition interp_expr :: "calls \<Rightarrow> Location \<Rightarrow> string \<Rightarrow> nat \<Rightarrow> nat \<Rightarrow> AstNode \<Rightarrow> AstNode option" where
  "interp_expr K loc s i j result =
     (if j > i
      then case lexer_create (\<lambda>_. True) (drop i s) (j - i) (Some (loc_file loc)) of
             None \<Rightarrow> Some result
           | Some l \<Rightarrow> do { (n, _) \<leftarrow> parse_expr K (parser_on l);
                            Some (if is_null n then result else concat_piece loc result n) }
      else Some result)"

function interp_loop ::
    "calls \<Rightarrow> Location \<Rightarrow> string \<Rightarrow> nat \<Rightarrow> nat \<Rightarrow> nat \<Rightarrow> AstNode \<Rightarrow> bool \<Rightarrow> (nat \<times> AstNode \<times> bool) option" where
  "interp_loop K loc s e i st result found =
     (if i < e
      then if s ! i = CHR ''{'' \<and> (i = 0 \<or> s ! (i - 1) \<noteq> BSLASH)
           then let result = literal_piece loc s st i result; (j, depth) = brace_end s e (i + 1) 1
                in if depth = 0
                   then case interp_expr K loc s (i + 1) j result of
                          None \<Rightarrow> None
                        | Some result \<Rightarrow> interp_loop K loc s e (j + 1) (j + 1) result True
                   else interp_loop K loc s e (i + 1) (i + 1) result True
           else interp_loop K loc s e (i + 1) st result found
      else Some (st, result, found))"
  by pat_completeness auto
termination
proof (relation "measure (\<lambda>(K, loc, s, e, i, st, r, f). e - i)", goal_cases)
  case (2 K loc s e i st r f r' jd j depth r'')
  have "Suc i \<le> j" using brace_end_ge [of "i + 1" s e 1] 2 by (metis add.commute fst_conv plus_1_eq_Suc)
  with 2 show ?case by auto
qed auto

declare interp_loop.simps [simp del]

definition parse_string_literal :: "calls \<Rightarrow> Token \<Rightarrow> AstNode option" where
  "parse_string_literal K token =
     (let loc = tok_loc token; d = sv_data (tok_text token); n = sv_len (tok_text token);
          strip = (n \<ge> 2 \<and> d ! 0 = DQUOTE \<and> d ! (n - 1) = DQUOTE);
          s = (if strip then drop 1 d else d); e = (if strip then n - 2 else n)
      in do { (st, result, found) \<leftarrow> interp_loop K loc s e 0 0 NULL False;
              Some (if found
                    then let result = literal_piece loc s st e result
                         in if is_null result then node_string_literal True loc (SV [DQUOTE, DQUOTE]) else result
                    else node_string_literal True loc (tok_text token)) })"

section \<open>Prefix expressions\<close>

definition token_in :: "Parser \<Rightarrow> TokenType list \<Rightarrow> bool" where
  "token_in p tys \<longleftrightarrow> tok_type (p_current p) \<in> set tys"

text \<open>The arms of a \<open>match\<close>, up to its closing brace.\<close>

definition match_arms_step :: "calls \<Rightarrow> AstNode list \<times> Parser \<Rightarrow> (bool \<times> AstNode list \<times> Parser) option" where
  "match_arms_step K = (\<lambda>(arms, p).
     if parser_check p (OP TOKEN_RBRACE) \<or> parser_check p TOKEN_EOF then Some (False, arms, p)
     else if token_in p [TOKEN_NEWLINE, OP TOKEN_SEMICOLON] then Some (True, arms, parser_advance p)
     else do { (arm, p) \<leftarrow> c_arm K p; Some (True, append_node arms arm, p) })"

text \<open>\<open>match value { arms }\<close> behind the keyword, as a statement and as an expression.\<close>

definition parse_match :: "calls \<Rightarrow> Parser \<Rightarrow> AstNode res" where
  "parse_match K p =
     do { (v, p) \<leftarrow> parse_expr K p;
          let loc = tok_loc (p_previous p);
          if parser_check p (OP TOKEN_LBRACE)
          then do { (arms, p) \<leftarrow> loop (c_fuel K) (match_arms_step K) ([], parser_advance p);
                    Some (node_create True (MatchNode loc v arms), parser_expect p (OP TOKEN_RBRACE)) }
          else Some (node_match True loc v, p) }"

definition array_step :: "calls \<Rightarrow> AstNode list \<times> Parser \<Rightarrow> (bool \<times> AstNode list \<times> Parser) option" where
  "array_step K = (\<lambda>(es, p).
     if parser_check p (OP TOKEN_RBRACKET) \<or> parser_check p TOKEN_EOF then Some (False, es, p)
     else do { (e, p) \<leftarrow> parse_expr K p;
               let (more, p) = parser_match p (OP TOKEN_COMMA);
               Some (more, append_node es e, p) })"

definition parse_array_lit :: "calls \<Rightarrow> Location \<Rightarrow> Parser \<Rightarrow> AstNode res" where
  "parse_array_lit K loc p =
     do { (es, p) \<leftarrow> loop (c_fuel K) (array_step K) ([], p);
          Some (node_create True (ArrayLit loc es), parser_expect p (OP TOKEN_RBRACKET)) }"

definition lambda_param_step :: "calls \<Rightarrow> AstNode list \<times> Parser \<Rightarrow> (bool \<times> AstNode list \<times> Parser) option" where
  "lambda_param_step K = (\<lambda>(ps, p).
     if parser_check p (OP TOKEN_PIPE) \<or> parser_check p TOKEN_EOF then Some (False, ps, p)
     else do {
       (ps, p) \<leftarrow> (if parser_check p TOKEN_IDENT
                  then let pt = p_current p; p = parser_advance p
                       in do { (ty, p) \<leftarrow> parse_type_annotation K p;
                               Some (append_node ps (node_param True (tok_loc pt) (tok_ident pt) ty False False), p) }
                  else Some (ps, parser_advance p));
       let (more, p) = parser_match p (OP TOKEN_COMMA);
       Some (more, ps, p) })"

text \<open>\<open>|params| expr\<close> or \<open>|params| { body }\<close>, behind the first bar.\<close>

definition parse_lambda :: "calls \<Rightarrow> Location \<Rightarrow> Parser \<Rightarrow> AstNode res" where
  "parse_lambda K loc p =
     do { (ps, p) \<leftarrow> loop (c_fuel K) (lambda_param_step K) ([], p);
          let p = parser_expect p (OP TOKEN_PIPE);
          let p = snd (parser_match p (OP TOKEN_ARROW));
          (body, p) \<leftarrow> (if parser_check p (OP TOKEN_LBRACE) then c_block K (parser_advance p) else parse_expr K p);
          Some (node_create True (LambdaNode loc ps NULL body NULL), p) }"

definition prefix_unary :: "(TokenType \<times> UnaryOp) list" where
  "prefix_unary =
     [(OP TOKEN_MINUS, UNARY_NEG), (OP TOKEN_BANG, UNARY_NOT), (KW TOKEN_KW_NOT, UNARY_NOT),
      (OP TOKEN_TILDE, UNARY_BIT_NOT), (OP TOKEN_AMPERSAND, UNARY_ADDR), (OP TOKEN_STAR, UNARY_DEREF),
      (KW TOKEN_KW_REF, UNARY_REF), (KW TOKEN_KW_OWNED, UNARY_OWNED), (KW TOKEN_KW_HEAP, UNARY_HEAP),
      (OP TOKEN_HASH, UNARY_ARRAY_LEN)]"

definition parse_inc_dec :: "calls \<Rightarrow> Location \<Rightarrow> UnaryOp \<Rightarrow> Parser \<Rightarrow> AstNode res" where
  "parse_inc_dec K loc op p =
     do { (operand, p) \<leftarrow> c_prefix K p;
          Some (if is_null operand then NULL else node_unary True loc op operand, p) }"

text \<open>The tokens that are expressions by themselves.\<close>

definition atom_node :: "Token \<Rightarrow> AstNode option" where
  "atom_node token =
     (let loc = tok_loc token; ty = tok_type token
      in if ty = TOKEN_INT_LITERAL then Some (node_int_literal True loc (int_value token))
         else if ty = TOKEN_FLOAT_LITERAL then Some (float_node loc (tok_val token))
         else if ty = TOKEN_CHAR_LITERAL then Some (node_char_literal True loc (ucast (int_value token)))
         else if ty = KW TOKEN_KW_TRUE then Some (node_bool_literal True loc True)
         else if ty = KW TOKEN_KW_FALSE then Some (node_bool_literal True loc False)
         else if ty = KW TOKEN_KW_NONE then Some (node_none_literal True loc)
         else if ty = KW TOKEN_KW_SELF then Some (node_ident True loc (SV ''self''))
         else if ty = TOKEN_IDENT then Some (tok_ident token)
         else None)"

definition parse_prefix :: "calls \<Rightarrow> Parser \<Rightarrow> AstNode res" where
  "parse_prefix K p =
     (let token = p_current p; loc = tok_loc token; ty = tok_type token; p' = parser_advance p
      in case atom_node token of
           Some n \<Rightarrow> Some (n, p')
         | None \<Rightarrow>
             if ty = TOKEN_STRING_LITERAL then do { n \<leftarrow> parse_string_literal K token; Some (n, p') }
             else if ty = KW TOKEN_KW_MATCH then parse_match K p'
             else if ty = OP TOKEN_LPAREN
             then do { (e, p) \<leftarrow> parse_expr K p'; Some (e, parser_expect p (OP TOKEN_RPAREN)) }
             else if ty = OP TOKEN_PLUS_PLUS then parse_inc_dec K loc UNARY_INC p'
             else if ty = OP TOKEN_MINUS_MINUS then parse_inc_dec K loc UNARY_DEC p'
             else if ty = OP TOKEN_LBRACKET then parse_array_lit K loc p'
             else if ty = OP TOKEN_PIPE then parse_lambda K loc p'
             else case map_of prefix_unary ty of
                    Some op \<Rightarrow> do { (e, p) \<leftarrow> c_expr K PREC_UNARY p'; Some (node_unary True loc op e, p) }
                  | None \<Rightarrow> Some (NULL, parser_advance (parser_error p)))"

section \<open>Infix expressions\<close>

definition call_arg_step :: "calls \<Rightarrow> Location \<Rightarrow> AstNode list \<times> Parser \<Rightarrow> (bool \<times> AstNode list \<times> Parser) option" where
  "call_arg_step K loc = (\<lambda>(args, p).
     if parser_check p (OP TOKEN_RPAREN) \<or> parser_check p TOKEN_EOF then Some (False, args, p)
     else let p = skip_newlines p
          in if parser_check p (OP TOKEN_RPAREN) then Some (False, args, p)
             else do {
               (arg, p) \<leftarrow> (if parser_check p (OP TOKEN_COMMA) then Some (node_none_literal True loc, p)
                           else parse_expr K p);
               let (more, p) = parser_match p (OP TOKEN_COMMA);
               Some (more, append_node args arg, p) })"

definition parse_call :: "calls \<Rightarrow> Location \<Rightarrow> AstNode \<Rightarrow> Parser \<Rightarrow> AstNode res" where
  "parse_call K loc left p =
     do { (args, p) \<leftarrow> loop (c_fuel K) (call_arg_step K loc) ([], p);
          Some (node_create True (CallNode NODE_CALL loc left args), parser_expect p (OP TOKEN_RPAREN)) }"

definition parse_index :: "calls \<Rightarrow> Location \<Rightarrow> AstNode \<Rightarrow> Parser \<Rightarrow> AstNode res" where
  "parse_index K loc left p =
     do { (index, p) \<leftarrow> parse_expr K p;
          if parser_check p (OP TOKEN_DOT_DOT)
          then do { (stop, p) \<leftarrow> parse_expr K (parser_advance p);
                    Some (node_create True (SliceNode loc left index stop), parser_expect p (OP TOKEN_RBRACKET)) }
          else Some (node_index True loc left index, parser_expect p (OP TOKEN_RBRACKET)) }"

text \<open>\<open>left.field\<close> and \<open>Enum::Variant\<close>, behind the operator.\<close>

definition parse_field :: "Location \<Rightarrow> AstNode \<Rightarrow> Parser \<Rightarrow> AstNode \<times> Parser" where
  "parse_field loc left p =
     (if \<not> parser_check p TOKEN_IDENT then (left, parser_error p)
      else (node_field_access True loc left (tok_ident (p_current p)), parser_advance p))"

definition parse_cast :: "calls \<Rightarrow> Location \<Rightarrow> AstNode \<Rightarrow> Parser \<Rightarrow> AstNode res" where
  "parse_cast K loc left p =
     do { (ty, p) \<leftarrow> c_type K p;
          Some (if is_null ty then (left, parser_error p)
                else (node_create True (BinaryOpNode NODE_CAST loc BIN_ADD left ty SV0), p)) }"

text \<open>\<open>left ? "message"\<close> and \<open>left ? middle : right\<close>; the question mark is the current token.\<close>

definition parse_question :: "calls \<Rightarrow> Location \<Rightarrow> AstNode \<Rightarrow> Parser \<Rightarrow> AstNode res" where
  "parse_question K loc left p =
     (let (peek, p) = parser_peek p; p = parser_advance p
      in if tok_type peek = TOKEN_STRING_LITERAL
         then do { (right, p) \<leftarrow> c_expr K PREC_TERNARY p;
                   Some (node_binary True loc BIN_ERROR_CONTEXT left right, p) }
         else do { (middle, p) \<leftarrow> c_expr K PREC_TERNARY p;
                   let p = parser_expect p (OP TOKEN_COLON);
                   (right, p) \<leftarrow> c_expr K (PREC_TERNARY - 1) p;
                   Some (node_create True (NodeList NODE_TERNARY loc
                           (append_node (append_node (append_node [] left) middle) right)), p) })"

definition parse_binary :: "calls \<Rightarrow> Token \<Rightarrow> AstNode \<Rightarrow> Parser \<Rightarrow> AstNode res" where
  "parse_binary K token left p =
     (case map_of infix_ops (tok_type token) of
        None \<Rightarrow> Some (left, p)
      | Some op \<Rightarrow>
          do { (right, p) \<leftarrow> c_expr K (token_precedence (tok_type token)) (parser_advance p);
               Some (if op = BIN_CUSTOM
                     then node_create True (BinaryOpNode NODE_BINARY_OP (tok_loc token) op left right (tok_text token))
                     else node_binary True (tok_loc token) op left right, p) })"

definition parse_infix :: "calls \<Rightarrow> AstNode \<Rightarrow> Parser \<Rightarrow> AstNode res" where
  "parse_infix K left p =
     (let token = p_current p; loc = tok_loc token; ty = tok_type token; p' = parser_advance p
      in if ty = OP TOKEN_LPAREN then parse_call K loc left p'
         else if ty = OP TOKEN_LBRACKET then parse_index K loc left p'
         else if ty = OP TOKEN_DOT \<or> ty = OP TOKEN_COLON_COLON then Some (parse_field loc left p')
         else if ty = OP TOKEN_PIPE then Some (left, p)
         else if ty = KW TOKEN_KW_AS then parse_cast K loc left p'
         else if ty = OP TOKEN_QUESTION then parse_question K loc left p
         else parse_binary K token left p)"

section \<open>Precedence climbing\<close>

text \<open>The postfix operators \<open>++\<close> and \<open>--\<close>.\<close>

function parse_postfix_ops :: "AstNode \<Rightarrow> Parser \<Rightarrow> AstNode \<times> Parser" where
  "parse_postfix_ops left p =
     (let ty = tok_type (p_current p)
      in if ty = OP TOKEN_PLUS_PLUS \<or> ty = OP TOKEN_MINUS_MINUS
         then let p = parser_advance p
              in parse_postfix_ops (node_unary True (tok_loc (p_previous p))
                   (if ty = OP TOKEN_PLUS_PLUS then UNARY_INC else UNARY_DEC) left) p
         else (left, p))"
  by pat_completeness auto
termination
  by (relation "measure (\<lambda>(n, p). p_left p)")
    (auto intro: less_le_trans [OF _ p_left_advance] simp: token_weight_pos)

declare parse_postfix_ops.simps [simp del]

definition expr_ends :: "TokenType list" where
  "expr_ends = [TOKEN_EOF, TOKEN_NEWLINE, OP TOKEN_RPAREN, OP TOKEN_RBRACKET, OP TOKEN_RBRACE, OP TOKEN_COMMA,
     OP TOKEN_COLON, OP TOKEN_SEMICOLON]"

text \<open>One round of the loop over infix operators; the state holds \<open>had_infix\<close> and \<open>left\<close>.\<close>

definition infix_step :: "calls \<Rightarrow> nat \<Rightarrow> (bool \<times> AstNode) \<times> Parser \<Rightarrow> (bool \<times> (bool \<times> AstNode) \<times> Parser) option" where
  "infix_step K min_prec = (\<lambda>((had, left), p).
     let p = (if had then skip_newlines p else p); prec = token_precedence (tok_type (p_current p))
     in if token_in p expr_ends \<or> prec < min_prec \<or> prec = PREC_MIN then Some (False, (had, left), p)
        else do { (left, p) \<leftarrow> c_infix K left p;
                  if is_null left then Some (False, (had, left), p) else Some (True, (True, left), p) })"

definition parse_expr_prec :: "calls \<Rightarrow> nat \<Rightarrow> Parser \<Rightarrow> AstNode res" where
  "parse_expr_prec K min_prec p =
     (let p = parser_prime p
      in if parser_check p TOKEN_EOF then Some (NULL, p)
         else do { (left, p) \<leftarrow> c_prefix K p;
                   if is_null left then Some (NULL, p)
                   else let (left, p) = parse_postfix_ops left p
                        in do { ((_, left), p) \<leftarrow> loop (c_fuel K) (infix_step K min_prec) ((False, left), p);
                                Some (left, p) } })"

section \<open>Match arms and blocks\<close>

definition extra_pattern_step :: "AstNode list \<times> Parser \<Rightarrow> (bool \<times> AstNode list \<times> Parser) option" where
  "extra_pattern_step = (\<lambda>(ps, p).
     if parser_check p (OP TOKEN_COMMA)
     then let (extra, p) = parse_pattern (skip_newlines (parser_advance p)) in Some (True, append_node ps extra, p)
     else Some (False, ps, p))"

text \<open>\<open>[case] pattern [, pattern]* -> body\<close>.\<close>

definition arm_patterns :: "calls \<Rightarrow> Parser \<Rightarrow> (AstNode \<times> AstNode list) res" where
  "arm_patterns K p =
     (if tok_type (p_current p) \<noteq> OP TOKEN_ARROW
      then let (pattern, p) = parse_pattern p
           in do { (extras, p) \<leftarrow> loop (c_fuel K) extra_pattern_step ([], p); Some ((pattern, extras), p) }
      else Some ((NULL, []), p))"

definition parse_match_arm :: "calls \<Rightarrow> Parser \<Rightarrow> AstNode res" where
  "parse_match_arm K p =
     do { ((pattern, extras), p) \<leftarrow> arm_patterns K (skip_newlines (snd (parser_match p (KW TOKEN_KW_CASE))));
          (body, p) \<leftarrow> parse_expr K (parser_expect p (OP TOKEN_ARROW));
          Some (node_create True (MatchArm (if is_null pattern then tok_loc (p_previous p) else node_loc pattern)
                  pattern extras [] body), p) }"

definition block_step :: "calls \<Rightarrow> AstNode list \<times> Parser \<Rightarrow> (bool \<times> AstNode list \<times> Parser) option" where
  "block_step K = (\<lambda>(stmts, p).
     if parser_check p (OP TOKEN_RBRACE) \<or> parser_check p TOKEN_EOF then Some (False, stmts, p)
     else let p = skip_tokens (\<lambda>ty. ty = TOKEN_NEWLINE \<or> ty = OP TOKEN_SEMICOLON) p
          in if parser_check p (OP TOKEN_RBRACE) then Some (False, stmts, p)
             else do { (stmt, p) \<leftarrow> c_stmt K p; Some (True, append_node stmts stmt, p) })"

definition parse_block_braced :: "calls \<Rightarrow> Parser \<Rightarrow> AstNode res" where
  "parse_block_braced K p =
     do { (stmts, p') \<leftarrow> loop (c_fuel K) (block_step K) ([], p);
          Some (node_create True (NodeList NODE_BLOCK (tok_loc (p_previous p)) stmts),
                parser_expect p' (OP TOKEN_RBRACE)) }"

text \<open>The block without braces, which ends before a closing brace.\<close>

definition open_block_step :: "calls \<Rightarrow> AstNode list \<times> Parser \<Rightarrow> (bool \<times> AstNode list \<times> Parser) option" where
  "open_block_step K = (\<lambda>(stmts, p).
     if parser_check p TOKEN_EOF then Some (False, stmts, p)
     else let p = skip_newlines p
          in if parser_check p (OP TOKEN_RBRACE) \<or> parser_check p TOKEN_EOF then Some (False, stmts, p)
             else do { (stmt, p) \<leftarrow> c_stmt K p; Some (True, append_node stmts stmt, p) })"

definition parse_block :: "calls \<Rightarrow> Parser \<Rightarrow> AstNode res" where
  "parse_block K p =
     do { (stmts, p) \<leftarrow> loop (c_fuel K) (open_block_step K) ([], p);
          Some (node_create True (NodeList NODE_BLOCK NO_LOCATION stmts), p) }"

end
