(* ===== verification/ParserStmt.thy ===== *)
theory ParserStmt
  imports Parser
begin

text \<open>
  The statements of \<open>src/parser.c\<close>: \<open>parse_statement\<close>, one definition per alternative.  Each is entered
  behind its keyword.
\<close>

section \<open>Inline assembly text\<close>

text \<open>\<open>while (end > start && P(end[-1])) end--;\<close> on offsets.\<close>

function trim_back :: "(char \<Rightarrow> bool) \<Rightarrow> string \<Rightarrow> nat \<Rightarrow> nat \<Rightarrow> nat" where
  "trim_back P src s e = (if s < e \<and> P (src ! (e - 1)) then trim_back P src s (e - 1) else e)"
  by pat_completeness auto
termination
  by (relation "measure (\<lambda>(P, src, s, e). e)") auto

declare trim_back.simps [simp del]

definition asm_blank :: "char \<Rightarrow> bool" where
  "asm_blank c \<longleftrightarrow> c = SPACE \<or> c = TAB \<or> c = NL \<or> c = CR"

abbreviation p_tok :: "Parser \<Rightarrow> Tokenizer" where
  "p_tok p \<equiv> l_tok (p_lexer p)"

text \<open>
  The loop that looks for the closing brace: \<open>e\<close> is \<open>asm_end\<close>.  When it has consumed the brace the scanner
  has already read the token behind it, where \<open>tok->start\<close> points.
\<close>

function asm_capture :: "nat \<Rightarrow> nat \<Rightarrow> nat \<Rightarrow> Parser \<Rightarrow> nat \<times> Parser" where
  "asm_capture s depth e p =
     (if depth > 0 \<and> tok_type (p_current p) \<noteq> TOKEN_EOF
      then let p = parser_advance p; prev = tok_type (p_previous p)
           in if prev = OP TOKEN_LBRACE then asm_capture s (depth + 1) (t_start (p_tok p)) p
              else if prev = OP TOKEN_RBRACE
              then asm_capture s (depth - 1)
                     (if depth = 1 then trim_back asm_blank (t_src (p_tok p)) s (t_start (p_tok p)) else t_pos (p_tok p)) p
              else asm_capture s depth (t_pos (p_tok p)) p
      else (e, p))"
  by pat_completeness auto
termination
  by (relation "measure (\<lambda>(s, d, e, p). p_left p)")
    (auto intro: less_le_trans [OF _ p_left_advance] simp: token_weight_pos)

declare asm_capture.simps [simp del]

text \<open>The text between the braces, or NULL.\<close>

definition asm_text :: "string \<Rightarrow> nat \<Rightarrow> nat \<Rightarrow> AstNode" where
  "asm_text src s e =
     (if e > s
      then let e = trim_back asm_blank src s e;
               e = (if e > s \<and> src ! (e - 1) = CHR ''}'' then trim_back asm_blank src s (e - 1) else e)
           in if e > s then node_string_literal True NO_LOCATION (sv_from_parts (drop s src) (e - s)) else NULL
      else NULL)"

definition asm_output_step :: "AstNode list \<times> Parser \<Rightarrow> (bool \<times> AstNode list \<times> Parser) option" where
  "asm_output_step = (\<lambda>(outs, p).
     if parser_check p (OP TOKEN_RPAREN) \<or> parser_check p TOKEN_EOF \<or> \<not> parser_check p TOKEN_IDENT
     then Some (False, outs, p)
     else Some (True, append_node outs (tok_ident (p_current p)),
                snd (parser_match (parser_advance p) (OP TOKEN_COMMA))))"

definition stmt_asm :: "calls \<Rightarrow> Parser \<Rightarrow> AstNode res" where
  "stmt_asm K p =
     do { (outs, p) \<leftarrow>
            (if parser_check p (OP TOKEN_COLON)
             then do { (outs, p) \<leftarrow> loop (c_fuel K) asm_output_step
                                      ([], parser_expect (parser_advance p) (OP TOKEN_LPAREN));
                       Some (outs, parser_expect p (OP TOKEN_RPAREN)) }
             else Some ([], p));
          if parser_check p (OP TOKEN_LBRACE)
          then let p = parser_advance p; brace = p_previous p; src = t_src (p_tok p);
                   s = length src - length (sv_data (tok_text brace)) + sv_len (tok_text brace);
                   (e, p) = asm_capture s 1 s p;
                   loc = \<lparr>loc_file = t_filename (p_tok p), loc_line = loc_line (tok_loc brace),
                          loc_col = loc_col (tok_loc brace), loc_len = 0\<rparr>
               in Some (node_create True (AsmBlock loc (asm_text src s e) outs [] []), p)
          else Some (NULL, parser_error p) }"

section \<open>Simple statements\<close>

text \<open>The optional type and value of \<open>let\<close>; \<open>parse_declaration\<close> shares it.\<close>

definition let_rest :: "calls \<Rightarrow> Parser \<Rightarrow> (AstNode \<times> AstNode) res" where
  "let_rest K p =
     do { (ty, p) \<leftarrow> parse_type_annotation K p;
          (v, p) \<leftarrow> (if parser_check p (OP TOKEN_EQ) then parse_expr K (parser_advance p) else Some (NULL, p));
          Some ((ty, v), p) }"

definition stmt_let :: "calls \<Rightarrow> Parser \<Rightarrow> AstNode res" where
  "stmt_let K p =
     (let (is_mut, p) = parser_match p (KW TOKEN_KW_MUT)
      in if \<not> parser_check p TOKEN_IDENT then Some (NULL, parser_error p)
         else let name = p_current p
              in do { ((ty, v), p) \<leftarrow> let_rest K (parser_advance p);
                      Some (node_let True (tok_loc name) (tok_ident name) ty v is_mut, p) })"

text \<open>A block in braces if there is one.\<close>

definition opt_block :: "calls \<Rightarrow> Parser \<Rightarrow> AstNode res" where
  "opt_block K p = (if parser_check p (OP TOKEN_LBRACE) then c_block K (parser_advance p) else Some (NULL, p))"

text \<open>A block, with its opening brace or without.\<close>

definition any_block :: "calls \<Rightarrow> Parser \<Rightarrow> AstNode res" where
  "any_block K p = c_block K (snd (parser_match p (OP TOKEN_LBRACE)))"

text \<open>A block in braces or a single statement.\<close>

definition block_or_stmt :: "calls \<Rightarrow> Parser \<Rightarrow> AstNode res" where
  "block_or_stmt K p = (if parser_check p (OP TOKEN_LBRACE) then c_block K (parser_advance p) else c_stmt K p)"

definition stmt_if_let :: "calls \<Rightarrow> Parser \<Rightarrow> AstNode res" where
  "stmt_if_let K p =
     (let (pattern, p) = parse_pattern p
      in do { (v, p) \<leftarrow> parse_expr K (parser_expect p (OP TOKEN_EQ));
              (body, p) \<leftarrow> any_block K p;
              Some (node_create True (IfNode (tok_loc (p_previous p)) v body NULL NULL True pattern), p) })"

type_synonym elif = "Location \<times> AstNode \<times> AstNode"

definition elif_step :: "calls \<Rightarrow> elif list \<times> Parser \<Rightarrow> (bool \<times> elif list \<times> Parser) option" where
  "elif_step K = (\<lambda>(es, p).
     if parser_check p (KW TOKEN_KW_ELIF)
     then do { (cond, p) \<leftarrow> parse_expr K (parser_advance p);
               (blk, p) \<leftarrow> opt_block K p;
               Some (True, es @ [(tok_loc (p_previous p), cond, blk)], skip_newlines p) }
     else Some (False, es, p))"

text \<open>The list of \<open>elif\<close> nodes, each linked to the next.\<close>

definition elif_chain :: "elif list \<Rightarrow> AstNode" where
  "elif_chain es = foldr (\<lambda>(loc, cond, blk) rest. node_if True loc cond blk rest NULL) es NULL"

definition stmt_if :: "calls \<Rightarrow> Parser \<Rightarrow> AstNode res" where
  "stmt_if K p =
     (if parser_check p (KW TOKEN_KW_LET) then stmt_if_let K (parser_advance p)
      else do { (cond, p) \<leftarrow> parse_expr K p;
                (then_block, p) \<leftarrow> c_block K (parser_advance p);
                (es, p) \<leftarrow> loop (c_fuel K) (elif_step K) ([], skip_newlines p);
                let p = skip_newlines p;
                (else_block, p) \<leftarrow> (if parser_check p (KW TOKEN_KW_ELSE) then any_block K (parser_advance p)
                                   else Some (NULL, p));
                Some (node_if True (tok_loc (p_previous p)) cond then_block (elif_chain es) else_block, p) })"

definition stmt_while :: "calls \<Rightarrow> Parser \<Rightarrow> AstNode res" where
  "stmt_while K p =
     do { (cond, p) \<leftarrow> parse_expr K p;
          (body, p) \<leftarrow> opt_block K p;
          Some (node_while True (tok_loc (p_previous p)) cond body, p) }"

text \<open>The variables of \<open>for\<close>: the variable and the index variable.\<close>

definition for_vars :: "Parser \<Rightarrow> (AstNode \<times> AstNode) \<times> Parser" where
  "for_vars p =
     (if parser_check p TOKEN_IDENT
      then let var = tok_ident (p_current p); p = parser_advance p
           in if parser_check p (OP TOKEN_COMMA)
              then let p = parser_advance p
                   in if parser_check p TOKEN_IDENT then ((tok_ident (p_current p), var), parser_advance p)
                      else ((var, NULL), p)
              else ((var, NULL), p)
      else ((NULL, NULL), p))"

definition stmt_for :: "calls \<Rightarrow> Parser \<Rightarrow> AstNode res" where
  "stmt_for K p =
     (let ((var, index_var), p) = for_vars p
      in do { (iterable, p) \<leftarrow> (if parser_check p (KW TOKEN_KW_IN) then parse_expr K (parser_advance p)
                               else Some (NULL, p));
              (body, p) \<leftarrow> opt_block K p;
              Some (node_create True (ForNode (tok_loc (p_previous p)) var iterable body index_var), p) })"

text \<open>The operand of \<open>return\<close> and \<open>throw\<close>.\<close>

definition opt_value :: "calls \<Rightarrow> Parser \<Rightarrow> AstNode res" where
  "opt_value K p =
     (if token_in p [TOKEN_NEWLINE, OP TOKEN_RBRACE, TOKEN_EOF] then Some (NULL, p) else parse_expr K p)"

definition stmt_return :: "calls \<Rightarrow> Parser \<Rightarrow> AstNode res" where
  "stmt_return K p = do { (v, p) \<leftarrow> opt_value K p; Some (node_return True (tok_loc (p_previous p)) v, p) }"

definition stmt_throw :: "calls \<Rightarrow> Parser \<Rightarrow> AstNode res" where
  "stmt_throw K p = do { (v, p) \<leftarrow> opt_value K p; Some (node_throw True (tok_loc (p_previous p)) v, p) }"

text \<open>\<open>break\<close> and \<open>continue\<close>, with an optional label.\<close>

definition stmt_jump :: "NodeType \<Rightarrow> Parser \<Rightarrow> AstNode \<times> Parser" where
  "stmt_jump ty p =
     (let loc = tok_loc (p_previous p)
      in if parser_check p TOKEN_IDENT
         then (node_create True (LabelNode ty loc (tok_text (p_current p))), parser_advance p)
         else (if ty = NODE_BREAK then node_break True loc else node_continue True loc, p))"

definition stmt_defer :: "calls \<Rightarrow> Parser \<Rightarrow> AstNode res" where
  "stmt_defer K p = do { (body, p) \<leftarrow> block_or_stmt K p; Some (node_defer True (tok_loc (p_previous p)) body, p) }"

definition spawn_arg_step :: "calls \<Rightarrow> AstNode list \<times> Parser \<Rightarrow> (bool \<times> AstNode list \<times> Parser) option" where
  "spawn_arg_step K = (\<lambda>(args, p).
     if parser_check p (OP TOKEN_RPAREN) \<or> parser_check p TOKEN_EOF then Some (False, args, p)
     else let p = skip_newlines p
          in if parser_check p (OP TOKEN_RPAREN) then Some (False, args, p)
             else do { (arg, p) \<leftarrow> parse_expr K p;
                       let (more, p) = parser_match p (OP TOKEN_COMMA);
                       Some (more, append_node args arg, p) })"

definition stmt_spawn :: "calls \<Rightarrow> Parser \<Rightarrow> AstNode res" where
  "stmt_spawn K p =
     (if \<not> parser_check p TOKEN_IDENT \<and> \<not> parser_check p (KW TOKEN_KW_SELF) then Some (NULL, parser_error p)
      else let loc = tok_loc (p_current p);
               callee = (if parser_check p (KW TOKEN_KW_SELF) then node_ident True loc (SV ''self'')
                         else tok_ident (p_current p));
               p = parser_advance p
           in if \<not> parser_check p (OP TOKEN_LPAREN) then Some (NULL, parser_error p)
              else do { (args, p) \<leftarrow> loop (c_fuel K) (spawn_arg_step K) ([], parser_advance p);
                        let p = parser_expect p (OP TOKEN_RPAREN);
                        Some (node_spawn True (tok_loc (p_previous p)) (CallNode NODE_CALL loc callee args), p) })"

definition stmt_region :: "calls \<Rightarrow> Parser \<Rightarrow> AstNode res" where
  "stmt_region K p =
     (let p = parser_expect p (OP TOKEN_LPAREN);
          (name, p) = (if parser_check p TOKEN_STRING_LITERAL then (tok_text (p_current p), parser_advance p)
                       else (SV ''anon'', p));
          p = parser_expect p (OP TOKEN_RPAREN)
      in do { (body, p) \<leftarrow> block_or_stmt K p;
              Some (node_region True (tok_loc (p_previous p)) name body, p) })"

definition stmt_unsafe :: "calls \<Rightarrow> Parser \<Rightarrow> AstNode res" where
  "stmt_unsafe K p =
     do { (body, p) \<leftarrow> block_or_stmt K p;
          Some (if is_null body then NULL else node_create True (NodeList NODE_UNSAFE (node_loc body) [body]), p) }"

section \<open>\<open>try\<close>\<close>

text \<open>What a \<open>catch\<close> catches: its type, its variable, and whether it catches all.\<close>

definition catch_head :: "Parser \<Rightarrow> (AstNode \<times> AstNode \<times> bool) \<times> Parser" where
  "catch_head p =
     (let t = p_current p
      in if parser_check p TOKEN_IDENT \<and> sv_len (tok_text t) = 1 \<and> sv_data (tok_text t) ! 0 = CHR ''_''
         then ((NULL, NULL, True), parser_advance p)
         else if parser_check p TOKEN_IDENT
         then let ty = node_type_named True (tok_loc t) (tok_text t); p = parser_advance p
              in if parser_check p (OP TOKEN_LPAREN)
                 then let p = parser_advance p;
                          (var, p) = (if parser_check p TOKEN_IDENT then (tok_ident (p_current p), parser_advance p)
                                      else (NULL, p))
                      in ((ty, var, False), parser_expect p (OP TOKEN_RPAREN))
                 else ((ty, NULL, False), p)
         else ((NULL, NULL, False), p))"

definition catch_step :: "calls \<Rightarrow> AstNode list \<times> Parser \<Rightarrow> (bool \<times> AstNode list \<times> Parser) option" where
  "catch_step K = (\<lambda>(arms, p).
     if parser_check p (KW TOKEN_KW_CATCH)
     then let ((ty, var, all), p) = catch_head (parser_advance p)
          in do { (body, p) \<leftarrow> any_block K p;
                  Some (True, append_node arms (node_catch_arm True (tok_loc (p_previous p)) ty var body all), p) }
     else Some (False, arms, p))"

definition stmt_try :: "calls \<Rightarrow> Parser \<Rightarrow> AstNode res" where
  "stmt_try K p =
     do { (body, p) \<leftarrow> any_block K p;
          let loc = tok_loc (p_previous p);
          (arms, p) \<leftarrow> loop (c_fuel K) (catch_step K) ([], p);
          (fin, p) \<leftarrow> (if parser_check p (KW TOKEN_KW_FINALLY) then any_block K (parser_advance p) else Some (NULL, p));
          Some (node_create True (TryNode loc body arms fin), p) }"

section \<open>\<open>parse_statement\<close>\<close>

definition stmt_attr_step :: "calls \<Rightarrow> unit \<times> Parser \<Rightarrow> (bool \<times> unit \<times> Parser) option" where
  "stmt_attr_step K = (\<lambda>(u, p).
     if parser_check p (OP TOKEN_AT) then do { (_, p) \<leftarrow> parse_attribute K (parser_advance p); Some (True, u, p) }
     else Some (False, u, p))"

definition stmt_expr :: "calls \<Rightarrow> Parser \<Rightarrow> AstNode res" where
  "stmt_expr K p =
     do { (e, p) \<leftarrow> parse_expr K p; Some (if is_null e then NULL else node_expr_stmt True (node_loc e) e, p) }"

definition stmt_body :: "calls \<Rightarrow> Parser \<Rightarrow> AstNode res" where
  "stmt_body K p =
     (let p' = parser_advance p
      in if parser_check p (KW TOKEN_KW_LET) then stmt_let K p'
         else if parser_check p (KW TOKEN_KW_IF) then stmt_if K p'
         else if parser_check p (KW TOKEN_KW_WHILE) then stmt_while K p'
         else if parser_check p (KW TOKEN_KW_FOR) then stmt_for K p'
         else if parser_check p (KW TOKEN_KW_RETURN) then stmt_return K p'
         else if parser_check p (KW TOKEN_KW_BREAK) then Some (stmt_jump NODE_BREAK p')
         else if parser_check p (KW TOKEN_KW_CONTINUE) then Some (stmt_jump NODE_CONTINUE p')
         else if parser_check p (KW TOKEN_KW_DEFER) then stmt_defer K p'
         else if parser_check p (KW TOKEN_KW_SPAWN) then stmt_spawn K p'
         else if parser_check p (KW TOKEN_KW_YIELD) then Some (node_yield True (tok_loc (p_previous p')), p')
         else if parser_check p (KW TOKEN_KW_REGION) then stmt_region K p'
         else if parser_check p (KW TOKEN_KW_MATCH) then parse_match K p'
         else if parser_check p (KW TOKEN_KW_ASM) then stmt_asm K p'
         else if parser_check p (KW TOKEN_KW_UNSAFE) then stmt_unsafe K p'
         else if parser_check p (KW TOKEN_KW_TRY) then stmt_try K p'
         else if parser_check p (KW TOKEN_KW_THROW) then stmt_throw K p'
         else stmt_expr K p)"

definition parse_statement :: "calls \<Rightarrow> Parser \<Rightarrow> AstNode res" where
  "parse_statement K p =
     (let sync = panic_mode p; p = (if sync then parser_sync p else p)
      in if sync \<and> parser_check p TOKEN_EOF then Some (NULL, p)
         else do { (_, p) \<leftarrow> loop (c_fuel K) (stmt_attr_step K) ((), p); stmt_body K p })"

end
