(* ===== verification/ParserDecl.thy ===== *)
theory ParserDecl
  imports ParserStmt
begin

text \<open>
  The declarations of \<open>src/parser.c\<close>, the knot of the mutual recursion (\<open>calls_at\<close>) and the entry
  point \<open>parser_parse\<close>.
\<close>

section \<open>Functions\<close>

text \<open>\<open>arena_strndup\<close> and a comparison with \<open>strcmp\<close>, which stops at a NUL.\<close>

definition strndup :: "StringView \<Rightarrow> string" where
  "strndup v = takeWhile (\<lambda>c. c \<noteq> NUL) (sv_bytes v)"

text \<open>The dots of a variadic parameter, before its name or its type.\<close>

definition match_dots :: "Parser \<Rightarrow> bool \<times> Parser" where
  "match_dots p =
     (let (dots, p) = parser_match p (OP TOKEN_DOT_DOT)
      in (dots, if dots then snd (parser_match p (OP TOKEN_DOT)) else p))"

definition param_annotation :: "calls \<Rightarrow> Parser \<Rightarrow> (AstNode \<times> bool) res" where
  "param_annotation K p =
     (if parser_check p (OP TOKEN_COLON)
      then let (dots, p) = match_dots (parser_advance p)
           in do { (ty, p) \<leftarrow> c_type K p; Some ((ty, dots), p) }
      else Some ((NULL, False), p))"

text \<open>A parameter from its name on.\<close>

definition param_rest :: "calls \<Rightarrow> bool \<Rightarrow> bool \<Rightarrow> AstNode list \<Rightarrow> Parser \<Rightarrow> (bool \<times> AstNode list \<times> Parser) option" where
  "param_rest K is_mut dots ps p =
     (let name = p_current p
      in do {
        ((ty, dots'), p) \<leftarrow> param_annotation K (parser_advance p);
        (dflt, p) \<leftarrow> (if parser_check p (OP TOKEN_EQ) then parse_expr K (parser_advance p) else Some (NULL, p));
        let param = node_create True (Param NODE_PARAM (tok_loc name) (tok_ident name) ty is_mut (dots \<or> dots') dflt);
        let (more, p) = parser_match p (OP TOKEN_COMMA);
        Some (more, append_node ps param, p) })"

definition param_step :: "calls \<Rightarrow> AstNode list \<times> Parser \<Rightarrow> (bool \<times> AstNode list \<times> Parser) option" where
  "param_step K = (\<lambda>(ps, p).
     if parser_check p (OP TOKEN_RPAREN) \<or> parser_check p TOKEN_EOF then Some (False, ps, p)
     else
       let (is_mut, p) = parser_match p (KW TOKEN_KW_MUT); (dots, p) = match_dots p
       in if \<not> parser_check p TOKEN_IDENT \<and> \<not> parser_check p (KW TOKEN_KW_SELF)
          then Some (False, ps, parser_error p)
          else param_rest K is_mut dots ps p)"

definition parse_params :: "calls \<Rightarrow> Parser \<Rightarrow> AstNode list res" where
  "parse_params K p = loop (c_fuel K) (param_step K) ([], p)"

text \<open>\<open><T, U: Constraint>\<close>.\<close>

definition type_param_step :: "calls \<Rightarrow> AstNode list \<times> Parser \<Rightarrow> (bool \<times> AstNode list \<times> Parser) option" where
  "type_param_step K = (\<lambda>(tps, p).
     if parser_check p (OP TOKEN_GT) \<or> parser_check p TOKEN_EOF then Some (False, tps, p)
     else do {
       (tps, p) \<leftarrow> (if parser_check p TOKEN_IDENT
                   then let tp = p_current p
                        in do { (con, p) \<leftarrow> parse_type_annotation K (parser_advance p);
                                Some (append_node tps (node_create True (TypeParam (tok_loc tp) (tok_ident tp) con)), p) }
                   else Some (tps, parser_advance p));
       let (more, p) = parser_match p (OP TOKEN_COMMA);
       Some (more, tps, p) })"

text \<open>The conditions \<open>pre(expr)\<close> and \<open>post(expr)\<close>.\<close>

definition contract_step ::
    "calls \<Rightarrow> (AstNode list \<times> AstNode list) \<times> Parser \<Rightarrow> (bool \<times> (AstNode list \<times> AstNode list) \<times> Parser) option" where
  "contract_step K = (\<lambda>((pres, posts), p).
     if parser_check p (KW TOKEN_KW_PRE)
     then do { (c, p) \<leftarrow> parse_expr K (parser_expect (parser_advance p) (OP TOKEN_LPAREN));
               Some (True, (append_node pres c, posts), parser_expect p (OP TOKEN_RPAREN)) }
     else if parser_check p (KW TOKEN_KW_POST)
     then do { (c, p) \<leftarrow> parse_expr K (parser_expect (parser_advance p) (OP TOKEN_LPAREN));
               Some (True, (pres, append_node posts c), parser_expect p (OP TOKEN_RPAREN)) }
     else Some (False, (pres, posts), p))"

text \<open>The signature hash of an operator method, djb2 on 32 bits over its name and parameter types.\<close>

definition hash_step :: "u32 \<Rightarrow> nat \<Rightarrow> u32" where
  "hash_step h b = (push_bit 5 h + h) + of_nat b"

definition prim_index :: "PrimType \<Rightarrow> nat" where
  "prim_index prim = length (takeWhile (\<lambda>q. q \<noteq> prim) primtypes)"

definition hash_type :: "u32 \<Rightarrow> AstNode \<Rightarrow> u32" where
  "hash_type h ty =
     (case ty of
        TypeNode ty loc prim elem tuple rty ps info \<Rightarrow>
          if ty = NODE_TYPE_PRIMITIVE then hash_step h (prim_index prim)
          else if ty = NODE_TYPE_NAMED then foldl (\<lambda>h c. hash_step h (byte c)) h (sv_bytes (ti_name info))
          else hash_step h 255
      | _ \<Rightarrow> hash_step h 255)"

fun param_type :: "AstNode \<Rightarrow> AstNode" where
  "param_type (Param _ _ _ ty _ _ _) = ty"
| "param_type _ = NULL"

definition sig_hash :: "StringView \<Rightarrow> AstNode list \<Rightarrow> u32" where
  "sig_hash name params = foldl (\<lambda>h param. hash_type h (param_type param)) (foldl (\<lambda>h c. hash_step h (byte c)) 5381 (sv_bytes name)) params"

definition func_info :: "StringView \<Rightarrow> AstNode list \<Rightarrow> bool \<Rightarrow> FuncInfo" where
  "func_info name params throws =
     (let info = fi_zero\<lparr>fi_sys_index := -1, fi_entry_addr := -1, fi_is_throws := throws\<rparr>
      in if take 3 (strndup name) = ''op_''
         then info\<lparr>fi_is_operator := True, fi_sig_hash := sig_hash name params\<rparr> else info)"

text \<open>The body: a block, an expression behind an arrow, or none.\<close>

definition func_body :: "calls \<Rightarrow> Location \<Rightarrow> Parser \<Rightarrow> AstNode res" where
  "func_body K loc p =
     (if parser_check p (OP TOKEN_LBRACE) then c_block K (parser_advance p)
      else if parser_check p (OP TOKEN_ARROW)
      then do { (e, p) \<leftarrow> parse_expr K (parser_advance p);
                Some (if is_null e then NULL
                      else node_create True (NodeList NODE_BLOCK loc [node_return True (node_loc e) e]), p) }
      else Some (NULL, p))"

definition parse_func_decl :: "calls \<Rightarrow> Parser \<Rightarrow> AstNode res" where
  "parse_func_decl K p =
     (let loc = tok_loc (p_previous p); name = p_current p
      in if \<not> parser_check p TOKEN_IDENT then Some (NULL, parser_error p)
         else do {
           let p = parser_advance p;
           (tps, p) \<leftarrow> (if parser_check p (OP TOKEN_LT)
                       then do { (tps, p) \<leftarrow> loop (c_fuel K) (type_param_step K) ([], parser_advance p);
                                 Some (tps, parser_expect p (OP TOKEN_GT)) }
                       else Some ([], p));
           (ps, p) \<leftarrow> (if parser_check p (OP TOKEN_LPAREN)
                      then do { (ps, p) \<leftarrow> parse_params K (parser_advance p);
                                Some (ps, parser_expect p (OP TOKEN_RPAREN)) }
                      else Some ([], p));
           (rty, p) \<leftarrow> parse_type_annotation K p;
           let (throws, p) = parser_match p (KW TOKEN_KW_THROWS);
           ((pres, posts), p) \<leftarrow> loop (c_fuel K) (contract_step K) (([], []), p);
           (body, p) \<leftarrow> func_body K loc p;
           Some (node_create True (FuncDecl loc (tok_ident name) ps rty body [] tps pres posts
                   (func_info (tok_text name) ps throws)), p) })"

section \<open>Structures and enumerations\<close>

text \<open>The receiver the parser adds to a method.\<close>

fun add_self :: "Token \<Rightarrow> AstNode \<Rightarrow> AstNode" where
  "add_self name (FuncDecl loc fname ps rty body defers tps pres posts info) =
     (let self_type = mk_type NODE_TYPE_REF (tok_loc name) (node_type_named True (tok_loc name) (tok_text name)) ti_zero;
          self_param = node_param True loc (node_ident True loc (SV ''self'')) self_type False False
      in FuncDecl loc fname (self_param # ps) rty body defers tps pres posts info)"
| "add_self name n = n"

type_synonym members = "AstNode list \<times> AstNode list \<times> AstNode list"

text \<open>One field, method or contract of a structure.\<close>

definition struct_member :: "calls \<Rightarrow> Token \<Rightarrow> members \<Rightarrow> Parser \<Rightarrow> (bool \<times> members \<times> Parser) option" where
  "struct_member K name = (\<lambda>(fields, methods, contracts) p.
     let p = snd (parser_match p (KW TOKEN_KW_PUB))
     in if parser_check p (KW TOKEN_KW_CONTRACT)
        then do { (c, p) \<leftarrow> parse_expr K (parser_expect (parser_advance p) (OP TOKEN_LPAREN));
                  Some (True, (fields, methods, append_node contracts c), parser_expect p (OP TOKEN_RPAREN)) }
        else if parser_check p (KW TOKEN_KW_FUNC)
        then do { (m, p) \<leftarrow> parse_func_decl K (parser_advance p);
                  Some (True, (fields, append_node methods (add_self name m), contracts), p) }
        else if \<not> parser_check p TOKEN_IDENT then Some (False, (fields, methods, contracts), parser_error p)
        else let fname = p_current p
             in do { (ty, p) \<leftarrow> parse_type_annotation K (parser_advance p);
                     let field = node_create True (Param NODE_FIELD (tok_loc fname) (tok_ident fname) ty False False NULL);
                     Some (True, (append_node fields field, methods, contracts),
                           snd (parser_match p (OP TOKEN_SEMICOLON))) })"

definition struct_step :: "calls \<Rightarrow> Token \<Rightarrow> members \<times> Parser \<Rightarrow> (bool \<times> members \<times> Parser) option" where
  "struct_step K name = (\<lambda>(ms, p).
     if parser_check p (OP TOKEN_RBRACE) \<or> parser_check p TOKEN_EOF then Some (False, ms, p)
     else if token_in p [TOKEN_NEWLINE, OP TOKEN_SEMICOLON] then Some (True, ms, parser_advance p)
     else struct_member K name ms p)"

definition parse_struct_decl :: "calls \<Rightarrow> NodeType \<Rightarrow> bool \<Rightarrow> Parser \<Rightarrow> AstNode res" where
  "parse_struct_decl K ty is_pub p =
     (let name = p_current p
      in if \<not> parser_check p TOKEN_IDENT then Some (NULL, parser_error p)
         else do {
           let p = parser_advance p;
           ((fields, methods, contracts), p) \<leftarrow>
             (if parser_check p (OP TOKEN_LBRACE)
              then do { (ms, p) \<leftarrow> loop (c_fuel K) (struct_step K name) (([], [], []), parser_advance p);
                        Some (ms, parser_expect p (OP TOKEN_RBRACE)) }
              else Some (([], [], []), p));
           Some (node_create True (StructDecl ty (tok_loc name) (tok_ident name) fields methods contracts is_pub), p) })"

definition enum_step :: "calls \<Rightarrow> AstNode list \<times> Parser \<Rightarrow> (bool \<times> AstNode list \<times> Parser) option" where
  "enum_step K = (\<lambda>(vs, p).
     if parser_check p (OP TOKEN_RBRACE) \<or> parser_check p TOKEN_EOF then Some (False, vs, p)
     else if token_in p [TOKEN_NEWLINE, OP TOKEN_SEMICOLON] then Some (True, vs, parser_advance p)
     else if \<not> parser_check p TOKEN_IDENT then Some (False, vs, parser_error p)
     else let vname = p_current p; p = parser_advance p
          in do { (tys, p) \<leftarrow> (if parser_check p (OP TOKEN_LPAREN)
                              then do { (tys, p) \<leftarrow> type_list K [] (parser_advance p);
                                        Some (tys, parser_expect p (OP TOKEN_RPAREN)) }
                              else Some ([], p));
                  Some (True, append_node vs (node_create True (EnumVariant (tok_loc vname) (tok_ident vname) tys)), p) })"

definition parse_enum_decl :: "calls \<Rightarrow> bool \<Rightarrow> Parser \<Rightarrow> AstNode res" where
  "parse_enum_decl K is_pub p =
     (let name = p_current p
      in if \<not> parser_check p TOKEN_IDENT then Some (NULL, parser_error p)
         else do {
           let p = parser_advance p;
           (vs, p) \<leftarrow> (if parser_check p (OP TOKEN_LBRACE)
                      then do { (vs, p) \<leftarrow> loop (c_fuel K) (enum_step K) ([], parser_advance p);
                                Some (vs, parser_expect p (OP TOKEN_RBRACE)) }
                      else Some ([], p));
           Some (node_create True (EnumDecl (tok_loc name) (tok_ident name) vs is_pub), p) })"

section \<open>Declarations\<close>

record modifiers =
  m_pub :: bool
  m_access :: AccessLevel
  m_static :: bool
  m_inline :: bool

definition parse_modifiers :: "Parser \<Rightarrow> modifiers \<times> Parser" where
  "parse_modifiers p =
     (let (is_pub, p) = parser_match p (KW TOKEN_KW_PUB);
          (is_private, p) = parser_match p (KW TOKEN_KW_PRIVATE);
          (is_internal, p) = parser_match p (KW TOKEN_KW_INTERNAL);
          (is_static, p) = parser_match p (KW TOKEN_KW_STATIC);
          (is_inline, p) = parser_match p (KW TOKEN_KW_INLINE)
      in (\<lparr>m_pub = is_pub,
           m_access = (if is_private then ACCESS_PRIVATE else if is_internal then ACCESS_INTERNAL else ACCESS_PUB),
           m_static = is_static, m_inline = is_inline\<rparr>, p))"

text \<open>The attribute loop: the last attribute wins.\<close>

definition decl_attr_step :: "calls \<Rightarrow> AstNode \<times> Parser \<Rightarrow> (bool \<times> AstNode \<times> Parser) option" where
  "decl_attr_step K = (\<lambda>(attr, p).
     if parser_check p (OP TOKEN_AT)
     then do { (attr, p) \<leftarrow> parse_attribute K (parser_advance p); Some (True, attr, skip_newlines p) }
     else Some (False, attr, p))"

fun attr_of :: "AstNode \<Rightarrow> AttrInfo option" where
  "attr_of (AttrNode _ a) = Some a"
| "attr_of _ = None"

definition attr_info :: "AttrInfo \<Rightarrow> FuncInfo \<Rightarrow> FuncInfo" where
  "attr_info a info =
     (let aname = strndup (at_name a)
      in if aname = ''export'' then info\<lparr>fi_is_exported := True\<rparr>
         else if aname = ''force_inline'' then info\<lparr>fi_is_force_inline := True\<rparr>
         else if aname = ''no_inline'' then info\<lparr>fi_is_no_inline := True\<rparr>
         else if aname = ''entry'' then info\<lparr>fi_entry_addr := at_int_value a\<rparr>
         else if aname = ''layout''
         then info\<lparr>fi_has_layout := True, fi_layout_start := word_of_int (at_layout_start a),
                   fi_layout_max := word_of_int (at_layout_max a), fi_layout_bits := at_layout_bits a,
                   fi_layout_signature := at_layout_signature a, fi_layout_file := at_layout_file a\<rparr>
         else if aname = ''kernel_layout'' then info\<lparr>fi_is_kernel_layout := True\<rparr>
         else if aname = ''test'' then info\<lparr>fi_has_test := True\<rparr>
         else info)"

fun map_info :: "(FuncInfo \<Rightarrow> FuncInfo) \<Rightarrow> AstNode \<Rightarrow> AstNode" where
  "map_info f (FuncDecl loc name ps rty body defers tps pres posts info) =
     FuncDecl loc name ps rty body defers tps pres posts (f info)"
| "map_info f n = n"

definition decl_func :: "calls \<Rightarrow> modifiers \<Rightarrow> AttrInfo option \<Rightarrow> AstNode list \<Rightarrow> Parser \<Rightarrow> AstNode list res" where
  "decl_func K m attr decls p =
     do { (f, p) \<leftarrow> parse_func_decl K p;
          Some (append_node decls
                  (map_info (\<lambda>info. (case attr of None \<Rightarrow> id | Some a \<Rightarrow> attr_info a)
                     (info\<lparr>fi_access := m_access m, fi_is_pub := m_pub m, fi_is_static := m_static m,
                           fi_is_inline := m_inline m\<rparr>)) f), p) }"

text \<open>The optional \<open>at(N)\<close> of a system function.\<close>

definition sys_at :: "Parser \<Rightarrow> int option \<times> Parser" where
  "sys_at p =
     (if parser_check p (KW TOKEN_KW_AT)
      then let p = parser_expect (parser_advance p) (OP TOKEN_LPAREN);
               (i, p) = (if parser_check p TOKEN_INT_LITERAL
                         then (Some (to_int (int_value (p_current p))), parser_advance p) else (None, p))
           in (i, parser_expect p (OP TOKEN_RPAREN))
      else (None, p))"

definition decl_sys :: "calls \<Rightarrow> modifiers \<Rightarrow> AstNode list \<Rightarrow> Parser \<Rightarrow> AstNode list res" where
  "decl_sys K m decls p =
     (if parser_check p (KW TOKEN_KW_FUNC)
      then do { (f, p) \<leftarrow> parse_func_decl K (parser_advance p);
                Some (if is_null f then (decls, p)
                      else let (i, p) = sys_at p
                           in (append_node decls
                                 (map_info (\<lambda>info. (case i of None \<Rightarrow> id | Some i \<Rightarrow> (\<lambda>x. x\<lparr>fi_sys_index := i\<rparr>))
                                    (info\<lparr>fi_is_sys := True, fi_access := m_access m, fi_is_pub := m_pub m\<rparr>)) f), p)) }
      else Some (decls, parser_error p))"

definition decl_const :: "calls \<Rightarrow> AstNode list \<Rightarrow> Parser \<Rightarrow> AstNode list res" where
  "decl_const K decls p =
     (if parser_check p TOKEN_IDENT
      then let name = p_current p
           in do { (v, p) \<leftarrow> parse_expr K (parser_expect (parser_advance p) (OP TOKEN_EQ));
                   Some (append_node decls (node_create True
                           (LetDecl NODE_CONST_DECL (tok_loc name) (tok_ident name) NULL v False False)), p) }
      else Some (decls, p))"

definition decl_let :: "calls \<Rightarrow> AstNode list \<Rightarrow> Parser \<Rightarrow> AstNode list res" where
  "decl_let K decls p =
     (let (is_mut, p) = parser_match p (KW TOKEN_KW_MUT)
      in if \<not> parser_check p TOKEN_IDENT then Some (decls, parser_error p)
         else let name = p_current p
              in do { ((ty, v), p) \<leftarrow> let_rest K (parser_advance p);
                      Some (append_node decls (node_create True
                              (LetDecl NODE_LET (tok_loc name) (tok_ident name) ty v is_mut True)), p) })"

definition decl_import :: "AstNode list \<Rightarrow> Parser \<Rightarrow> AstNode list \<times> Parser" where
  "decl_import decls p =
     (let path = p_current p
      in (append_node decls (node_create True (ImportNode (tok_loc path) (tok_text path))), parser_advance p))"

definition module_step :: "calls \<Rightarrow> AstNode list \<times> Parser \<Rightarrow> (bool \<times> AstNode list \<times> Parser) option" where
  "module_step K = (\<lambda>(decls, p).
     if parser_check p (OP TOKEN_RBRACE) \<or> parser_check p TOKEN_EOF then Some (False, decls, p)
     else do { (decls, p) \<leftarrow> c_decl K decls (skip_newlines p); Some (True, decls, skip_newlines p) })"

text \<open>\<open>module name { decls }\<close>: the declarations go to the program, the module node keeps only the name.\<close>

definition decl_module :: "calls \<Rightarrow> AttrInfo option \<Rightarrow> AstNode list \<Rightarrow> Parser \<Rightarrow> AstNode list res" where
  "decl_module K attr decls p =
     (let name = p_current p; p = parser_advance p
      in do {
        (decls, p) \<leftarrow> (if parser_check p (OP TOKEN_LBRACE)
                      then do { (decls, p) \<leftarrow> loop (c_fuel K) (module_step K) (decls, parser_advance p);
                                Some (decls, parser_expect p (OP TOKEN_RBRACE)) }
                      else Some (decls, p));
        let is_abi = (case attr of Some a \<Rightarrow> strndup (at_name a) = ''module_abi'' | None \<Rightarrow> False);
        let has_version = (case attr of Some a \<Rightarrow> at_has_module_abi a | None \<Rightarrow> False);
        let ver = (case attr of Some a \<Rightarrow> to_int (word_of_int (at_module_abi_version a)) | None \<Rightarrow> -1);
        let p = (if is_abi \<and> \<not> has_version then parser_error p else p);
        Some (append_node decls (node_create True (ModuleDecl (tok_loc name) (tok_ident name) []
                (if is_abi \<and> has_version then ver else -1))), p) })"

text \<open>Top-level assembly: the text from the token behind the brace to the matching brace.\<close>

function asm_skip :: "nat \<Rightarrow> Parser \<Rightarrow> Parser" where
  "asm_skip depth p =
     (if depth > 0 \<and> tok_type (p_current p) \<noteq> TOKEN_EOF
      then let depth = (if parser_check p (OP TOKEN_LBRACE) then depth + 1
                        else if parser_check p (OP TOKEN_RBRACE) then depth - 1 else depth)
           in if depth > 0 then asm_skip depth (parser_advance p) else p
      else p)"
  by pat_completeness auto
termination
  by (relation "measure (\<lambda>(d, p). p_left p)")
    (auto intro: less_le_trans [OF _ p_left_advance] simp: token_weight_pos)

declare asm_skip.simps [simp del]

definition decl_asm :: "AstNode list \<Rightarrow> Parser \<Rightarrow> AstNode list \<times> Parser" where
  "decl_asm decls p =
     (if parser_check p (OP TOKEN_LBRACE)
      then let p = parser_advance p; s = t_start (p_tok p); p = asm_skip 1 p; src = t_src (p_tok p);
               e = trim_back (\<lambda>c. asm_blank c \<or> c = CHR ''}'') src s (t_start (p_tok p));
               txt = (if e > s then node_string_literal True NO_LOCATION (sv_from_parts (drop s src) (e - s)) else NULL);
               loc = \<lparr>loc_file = t_filename (p_tok p), loc_line = 0, loc_col = 0, loc_len = 0\<rparr>
           in (append_node decls (node_create True (AsmBlock loc txt [] [] [])), parser_expect p (OP TOKEN_RBRACE))
      else (decls, parser_error p))"

text \<open>The signatures of a trait, a protocol or an \<open>impl\<close> block.\<close>

definition method_step :: "calls \<Rightarrow> AstNode list \<times> Parser \<Rightarrow> (bool \<times> AstNode list \<times> Parser) option" where
  "method_step K = (\<lambda>(ms, p).
     if parser_check p (OP TOKEN_RBRACE) \<or> parser_check p TOKEN_EOF then Some (False, ms, p)
     else if token_in p [TOKEN_NEWLINE, OP TOKEN_SEMICOLON] then Some (True, ms, parser_advance p)
     else if parser_check p (KW TOKEN_KW_FUNC)
     then do { (m, p) \<leftarrow> parse_func_decl K (parser_advance p); Some (True, append_node ms m, p) }
     else Some (True, ms, parser_advance p))"

definition method_list :: "calls \<Rightarrow> Parser \<Rightarrow> AstNode list res" where
  "method_list K p =
     (if parser_check p (OP TOKEN_LBRACE)
      then do { (ms, p) \<leftarrow> loop (c_fuel K) (method_step K) ([], parser_advance p);
                Some (ms, parser_expect p (OP TOKEN_RBRACE)) }
      else Some ([], p))"

definition decl_trait :: "calls \<Rightarrow> bool \<Rightarrow> AstNode list \<Rightarrow> Parser \<Rightarrow> AstNode list res" where
  "decl_trait K is_pub decls p =
     (if parser_check p TOKEN_IDENT
      then let name = p_current p
           in do { (ms, p) \<leftarrow> method_list K (parser_advance p);
                   Some (append_node decls (node_create True (TraitDecl (tok_loc name) (tok_ident name) ms is_pub)), p) }
      else Some (decls, p))"

definition decl_protocol :: "calls \<Rightarrow> AstNode list \<Rightarrow> Parser \<Rightarrow> AstNode list res" where
  "decl_protocol K decls p =
     (if parser_check p TOKEN_IDENT
      then let name = p_current p
           in do { (ms, p) \<leftarrow> method_list K (parser_advance p);
                   Some (append_node decls (node_create True (ProtocolDecl (tok_loc name) (tok_ident name) ms)), p) }
      else Some (decls, parser_error p))"

definition decl_impl :: "calls \<Rightarrow> AstNode list \<Rightarrow> Parser \<Rightarrow> AstNode list res" where
  "decl_impl K decls p =
     (if parser_check p TOKEN_IDENT
      then let trait = p_current p; (is_for, p) = parser_match (parser_advance p) (KW TOKEN_KW_FOR)
           in if is_for \<and> parser_check p TOKEN_IDENT
              then let ty = p_current p
                   in do { (ms, p) \<leftarrow> method_list K (parser_advance p);
                           Some (append_node decls (node_create True
                                   (ImplBlock (tok_loc trait) (tok_text trait) (tok_text ty) ms)), p) }
              else Some (decls, p)
      else Some (decls, p))"

text \<open>One \<open>word N\<close> of a pool declaration.\<close>

definition pool_field :: "string \<Rightarrow> Parser \<Rightarrow> u64 \<times> Parser" where
  "pool_field word p =
     (if parser_check p TOKEN_IDENT \<and> sv_eq_cstr (tok_text (p_current p)) word
      then let p = parser_advance p
           in if parser_check p TOKEN_INT_LITERAL then (int_value (p_current p), parser_advance p) else (0, p)
      else (0, p))"

definition pool_opt_field :: "string \<Rightarrow> Parser \<Rightarrow> u64 \<times> Parser" where
  "pool_opt_field word p =
     (if parser_check p (OP TOKEN_COMMA) then pool_field word (parser_advance p) else (0, p))"

text \<open>\<open>of size N, count N, alignment N\<close>.\<close>

definition pool_shape :: "Parser \<Rightarrow> (u64 \<times> u64 \<times> u64) \<times> Parser" where
  "pool_shape p =
     (if parser_check p TOKEN_IDENT \<and> sv_eq_cstr (tok_text (p_current p)) ''of''
      then let (sz, p) = pool_field ''size'' (parser_advance p);
               (cnt, p) = pool_opt_field ''count'' p;
               (align, p) = pool_opt_field ''alignment'' p
           in ((sz, cnt, align), p)
      else ((0, 0, 0), p))"

definition decl_pool :: "AstNode list \<Rightarrow> Parser \<Rightarrow> AstNode list \<times> Parser" where
  "decl_pool decls p =
     (if parser_check p TOKEN_IDENT
      then let name = p_current p; ((sz, cnt, align), p) = pool_shape (parser_advance p)
           in (append_node decls (node_create True (PoolDecl (tok_loc name) (tok_ident name) sz cnt align)), p)
      else (decls, parser_error p))"

definition decl_type :: "calls \<Rightarrow> AstNode list \<Rightarrow> Parser \<Rightarrow> AstNode list res" where
  "decl_type K decls p =
     (if parser_check p TOKEN_IDENT
      then let name = p_current p; p = parser_advance p
           in do { (ty, p) \<leftarrow> (if parser_check p (OP TOKEN_EQ) then c_type K (parser_advance p) else Some (NULL, p));
                   Some (append_node decls (node_create True
                           (NodeList NODE_TYPE_ALIAS (tok_loc name) (append_node [tok_ident name] ty))), p) }
      else Some (decls, parser_error p))"

definition run_step :: "calls \<Rightarrow> AstNode list \<times> Parser \<Rightarrow> (bool \<times> AstNode list \<times> Parser) option" where
  "run_step K = (\<lambda>(stmts, p).
     if parser_check p (OP TOKEN_RBRACE) \<or> parser_check p TOKEN_EOF then Some (False, stmts, p)
     else if token_in p [TOKEN_NEWLINE, OP TOKEN_SEMICOLON] then Some (True, stmts, parser_advance p)
     else do { (stmt, p) \<leftarrow> c_stmt K p; Some (True, append_node stmts stmt, p) })"

definition decl_run :: "calls \<Rightarrow> AstNode list \<Rightarrow> Parser \<Rightarrow> AstNode list res" where
  "decl_run K decls p =
     (if parser_check p (KW TOKEN_KW_RUN)
      then let p = parser_advance p; loc = tok_loc (p_previous p)
           in do { (stmts, p) \<leftarrow> (if parser_check p (OP TOKEN_LBRACE)
                                 then do { (stmts, p) \<leftarrow> loop (c_fuel K) (run_step K) ([], parser_advance p);
                                           Some (stmts, parser_expect p (OP TOKEN_RBRACE)) }
                                 else Some ([], p));
                   Some (append_node decls (node_create True (NodeList NODE_RUN_BLOCK loc stmts)), p) }
      else Some (decls, parser_error p))"

definition add_decl :: "AstNode list \<Rightarrow> AstNode res \<Rightarrow> AstNode list res" where
  "add_decl decls r = do { (n, p) \<leftarrow> r; Some (append_node decls n, p) }"

text \<open>The keyword behind attributes and modifiers.\<close>

definition decl_keyword :: "calls \<Rightarrow> modifiers \<Rightarrow> AttrInfo option \<Rightarrow> AstNode list \<Rightarrow> Parser \<Rightarrow> AstNode list res" where
  "decl_keyword K m attr decls p =
     (let p' = parser_advance p
      in if parser_check p (KW TOKEN_KW_FUNC) then decl_func K m attr decls p'
         else if parser_check p (KW TOKEN_KW_SYS) then decl_sys K m decls p'
         else if parser_check p (KW TOKEN_KW_STRUCT)
         then add_decl decls (parse_struct_decl K NODE_STRUCT_DECL (m_pub m) p')
         else if parser_check p (KW TOKEN_KW_CLASS)
         then add_decl decls (parse_struct_decl K NODE_CLASS_DECL (m_pub m) p')
         else if parser_check p (KW TOKEN_KW_ENUM) then add_decl decls (parse_enum_decl K (m_pub m) p')
         else if parser_check p (KW TOKEN_KW_CONST) then decl_const K decls p'
         else if parser_check p (KW TOKEN_KW_LET) then decl_let K decls p'
         else if parser_check p (KW TOKEN_KW_IMPORT) then Some (decl_import decls p')
         else if parser_check p (KW TOKEN_KW_MODULE) then decl_module K attr decls p'
         else if parser_check p (KW TOKEN_KW_ASM) then Some (decl_asm decls p')
         else if parser_check p (KW TOKEN_KW_TRAIT) then decl_trait K (m_pub m) decls p'
         else if parser_check p (KW TOKEN_KW_POOL) then Some (decl_pool decls p')
         else if parser_check p (KW TOKEN_KW_PROTOCOL) then decl_protocol K decls p'
         else if parser_check p (KW TOKEN_KW_TYPE) then decl_type K decls p'
         else if parser_check p (KW TOKEN_KW_IMPL) then decl_impl K decls p'
         else if parser_check p (OP TOKEN_HASH) then decl_run K decls p'
         else Some (decls, parser_advance (parser_error p)))"

definition parse_declaration :: "calls \<Rightarrow> AstNode list \<Rightarrow> Parser \<Rightarrow> AstNode list res" where
  "parse_declaration K decls p =
     (let sync = panic_mode p; p = (if sync then parser_sync p else p)
      in if sync \<and> parser_check p TOKEN_EOF then Some (decls, p)
         else do { (attr, p) \<leftarrow> loop (c_fuel K) (decl_attr_step K) (NULL, skip_newlines p);
                   let (m, p) = parse_modifiers p;
                   decl_keyword K m (attr_of attr) decls p })"

section \<open>The knot and the entry point\<close>

primrec calls_at :: "nat \<Rightarrow> calls" where
  "calls_at 0 = \<lparr>c_fuel = 0, c_type = \<lambda>_. None, c_expr = \<lambda>_ _. None, c_prefix = \<lambda>_. None,
     c_infix = \<lambda>_ _. None, c_arm = \<lambda>_. None, c_block = \<lambda>_. None, c_stmt = \<lambda>_. None, c_decl = \<lambda>_ _. None\<rparr>"
| "calls_at (Suc n) = (let K = calls_at n
     in \<lparr>c_fuel = Suc n, c_type = parse_type K, c_expr = parse_expr_prec K, c_prefix = parse_prefix K,
         c_infix = parse_infix K, c_arm = parse_match_arm K, c_block = parse_block_braced K,
         c_stmt = parse_statement K, c_decl = parse_declaration K\<rparr>)"

definition program_step :: "calls \<Rightarrow> AstNode list \<times> Parser \<Rightarrow> (bool \<times> AstNode list \<times> Parser) option" where
  "program_step K = (\<lambda>(decls, p).
     if parser_check p TOKEN_EOF then Some (False, decls, p)
     else do { (decls, p) \<leftarrow> c_decl K decls p; Some (True, decls, skip_newlines p) })"

definition parser_parse :: "nat \<Rightarrow> Parser \<Rightarrow> AstNode res" where
  "parser_parse n p =
     (let K = calls_at n
      in do { (decls, p) \<leftarrow> loop (c_fuel K) (program_step K) ([], parser_advance p);
              Some (node_create True (NodeList NODE_PROGRAM NO_LOCATION decls), p) })"

end
