(* ===== verification/ParserVcg.thy ===== *)
theory ParserVcg
  imports ParserDecl
begin

text \<open>
  When the parser returns.  On a source without the character \<open>|\<close> it always does, with fuel in proportion
  to the length of the source (\<open>parser_total\<close>); the state is at the end of the input then.  The proof is a
  small calculus of total correctness for parsing functions, \<open>tot m r\<close>: the call \<open>r\<close> returns, with at most
  \<open>m\<close> left to parse.
\<close>

section \<open>Sources without a bar\<close>

definition BAR :: char where "BAR = CHR ''|''"

definition tok_clean :: "Token \<Rightarrow> bool" where
  "tok_clean tok \<longleftrightarrow> tok_type tok \<noteq> OP TOKEN_PIPE \<and>
     (tok_type tok = TOKEN_STRING_LITERAL \<longrightarrow> sv_ok (tok_text tok) \<and> BAR \<notin> set (sv_data (tok_text tok)))"

definition src_clean :: "Tokenizer \<Rightarrow> bool" where
  "src_clean t \<longleftrightarrow> tokenizer_ok t \<and> BAR \<notin> set (t_src t)"

lemma two_char_no_bar: "c \<noteq> BAR \<Longrightarrow> scan_two_char c t = Some r \<Longrightarrow> tok_type (fst r) \<noteq> OP TOKEN_PIPE"
  unfolding scan_two_char_def Let_def BAR_def by (auto split: if_split_asm)

lemma single_char_no_bar: "tok_type (fst (scan_single_char c t)) \<noteq> OP TOKEN_PIPE"
  by (simp add: scan_single_char_def)

lemma operator_no_bar: "c \<noteq> BAR \<Longrightarrow> tok_type (fst (scan_operator c t)) \<noteq> OP TOKEN_PIPE"
  by (auto simp: scan_operator_def single_char_no_bar dest: two_char_no_bar split: option.split)

lemma number_no_bar: "tok_type (fst (scan_number t)) \<noteq> OP TOKEN_PIPE"
  by (simp add: scan_number_def scan_hex_def scan_radix_def scan_decimal_def Let_def case_prod_beta)

lemma ident_no_bar: "tok_type (fst (scan_ident_or_keyword t)) \<noteq> OP TOKEN_PIPE"
  by (auto simp: scan_ident_or_keyword_def Let_def split: option.split dest!: find_KEYWORDS_KW)

lemma scan_token_no_bar:
  assumes "cur t \<noteq> BAR" "scan_token t = Inr r"
  shows "tok_type (fst r) \<noteq> OP TOKEN_PIPE"
proof -
  have slash: "scan_slash t = Inr r \<Longrightarrow> tok_type (fst r) \<noteq> OP TOKEN_PIPE"
    by (auto simp: scan_slash_def scan_block_comment_def Let_def case_prod_beta split: if_split_asm)
  show ?thesis
    using assms slash operator_no_bar [of "cur t" "adv 1 t"] number_no_bar [of "adv 1 t"] ident_no_bar [of "adv 1 t"]
    unfolding scan_token_def Let_def
    by (auto simp: scan_hash_def scan_op_ident_def scan_string_def scan_char_def Let_def case_prod_beta
        split: if_split_asm)
qed

lemma tokenizer_next_clean:
  assumes "src_clean t"
  shows "tok_clean (fst (tokenizer_next t))" "src_clean (snd (tokenizer_next t))"
proof -
  show "src_clean (snd (tokenizer_next t))"
    using assms tokenizer_next_frame [of t] by (simp add: src_clean_def tokenizer_ok_def fwd_def)
  have pipe: "tok_type (fst (tokenizer_next t)) \<noteq> OP TOKEN_PIPE"
  proof (cases t rule: tokenizer_next_cases)
    case (token u)
    then have "t_src u ! t_pos u \<in> set (t_src u)"
      using assms by (intro nth_mem) (auto simp: src_clean_def tokenizer_ok_def fwd_def)
    then have "cur u \<noteq> BAR" using assms token by (auto simp: src_clean_def fwd_def)
    from scan_token_no_bar [OF this token(1)] show ?thesis .
  qed simp
  moreover
  { assume str: "tok_type (fst (tokenizer_next t)) = TOKEN_STRING_LITERAL"
    then have "tok_type (fst (tokenizer_next t)) \<noteq> TOKEN_EOF" by simp
    from tokenizer_next_span [OF this] str obtain s where s: "s < t_end t" "t_pos t \<le> s"
      "tok_text (fst (tokenizer_next t)) = sv_from_parts (drop s (t_src t)) (t_pos (snd (tokenizer_next t)) - s)"
      by auto
    moreover have "t_pos (snd (tokenizer_next t)) \<le> t_end t"
      using tokenizer_next_overrun(2) [of t] s str by (force simp: overrun_type_def)
    ultimately have "sv_ok (tok_text (fst (tokenizer_next t))) \<and> BAR \<notin> set (sv_data (tok_text (fst (tokenizer_next t))))"
      using assms by (auto simp: sv_ok_def src_clean_def tokenizer_ok_def dest: in_set_dropD) }
  ultimately show "tok_clean (fst (tokenizer_next t))" by (simp add: tok_clean_def)
qed

section \<open>States the parser runs in\<close>

text \<open>\<open>clean\<close>: no bar in what is buffered or left.  \<open>good\<close>: primed as well, and in step with its lexer.\<close>

definition clean :: "Parser \<Rightarrow> bool" where
  "clean p \<longleftrightarrow> lexer_inv (p_lexer p) \<and> src_clean (l_tok (p_lexer p)) \<and>
     (has_current (p_lexer p) \<longrightarrow> tok_clean (l_current (p_lexer p))) \<and>
     (has_next (p_lexer p) \<longrightarrow> tok_clean (l_next (p_lexer p)))"

definition good :: "Parser \<Rightarrow> bool" where
  "good p \<longleftrightarrow> clean p \<and> p_has_current p \<and> has_current (p_lexer p) \<and> p_current p = l_current (p_lexer p)"

lemma good_clean: "good p \<Longrightarrow> clean p"
  by (simp add: good_def)

lemma clean_advance: "clean p \<Longrightarrow> good (parser_advance p)"
  using lexer_inv_advance [of "p_lexer p"] lexer_inv_ok [of "p_lexer p"]
  by (auto simp: good_def clean_def parser_advance_def lexer_advance_def Let_def case_prod_beta
      tokenizer_next_clean lexer_ok_def)

lemma good_advance [intro]: "good p \<Longrightarrow> good (parser_advance p)"
  by (intro clean_advance good_clean)

lemma good_error [intro]: "good p \<Longrightarrow> good (parser_error p)"
  by (simp add: good_def clean_def parser_error_def)

lemma good_check: "good p \<Longrightarrow> parser_check p ty \<longleftrightarrow> tok_type (p_current p) = ty"
  by (simp add: parser_check_def parser_prime_def good_def)

lemma good_eof: "good p \<Longrightarrow> tok_type (p_current p) = TOKEN_EOF \<longleftrightarrow> p_left p = 0"
  by (auto simp: good_def clean_def lexer_inv_def p_left_def token_weight_def max_def)

lemma left_error [simp]: "p_left (parser_error p) = p_left p" "p_left (p\<lparr>panic_mode := b\<rparr>) = p_left p"
  by (simp_all add: p_left_def parser_error_def)

lemma left_advance:
  assumes "good p" "p_left p \<le> m"
  shows "p_left (parser_advance p) \<le> m - 1"
proof (cases "tok_type (p_current p) = TOKEN_EOF")
  case True
  then show ?thesis using assms p_left_advance [of p] good_eof [of p] by simp
next
  case False
  then show ?thesis using assms p_left_advance [of p] token_weight_pos [OF False] by simp
qed

lemma good_match [intro]: "good p \<Longrightarrow> good (snd (parser_match p ty))"
  by (auto simp: parser_match_def)

lemma left_match: "good p \<Longrightarrow> p_left p \<le> m \<Longrightarrow> p_left (snd (parser_match p ty)) \<le> m"
  using left_advance [of p m] by (auto simp: parser_match_def)

lemma good_expect [intro]: "good p \<Longrightarrow> good (parser_expect p ty)"
  by (auto simp: parser_expect_def)

lemma left_expect: "good p \<Longrightarrow> p_left p \<le> m \<Longrightarrow> p_left (parser_expect p ty) \<le> m"
  using left_advance [of p m] by (auto simp: parser_expect_def)

lemma good_skip [intro]: "good p \<Longrightarrow> good (skip_tokens P p)"
proof (induction P p rule: skip_tokens.induct)
  case (1 P p)
  then show ?case by (subst skip_tokens.simps) auto
qed

lemma left_skip: "good p \<Longrightarrow> p_left p \<le> m \<Longrightarrow> p_left (skip_tokens P p) \<le> m"
proof (induction P p rule: skip_tokens.induct)
  case (1 P p)
  show ?case
  proof (cases "tok_type (p_current p) \<noteq> TOKEN_EOF \<and> P (tok_type (p_current p))")
    case True
    have "p_left (parser_advance p) \<le> m" using left_advance [OF "1.prems"] by simp
    then have "p_left (skip_tokens P (parser_advance p)) \<le> m"
      using "1.IH" "1.prems"(1) True by (simp add: good_advance)
    with True show ?thesis by (subst skip_tokens.simps) simp
  next
    case False
    then show ?thesis using "1.prems" by (subst skip_tokens.simps) auto
  qed
qed

lemma good_sync [intro]: "good p \<Longrightarrow> good (parser_sync p)"
  unfolding parser_sync_def by (rule good_skip) (simp add: good_def clean_def)

lemma left_sync: "good p \<Longrightarrow> p_left p \<le> m \<Longrightarrow> p_left (parser_sync p) \<le> m"
  unfolding parser_sync_def by (rule left_skip) (simp_all add: good_def clean_def)

lemma good_peek [intro]: "good p \<Longrightarrow> good (snd (parser_peek p))"
  using lexer_inv_peek_next [of "p_lexer p"]
  by (auto simp: good_def clean_def parser_peek_def lexer_peek_next_def lexer_peek_def Let_def case_prod_beta
      tokenizer_next_clean)

lemma left_peek:
  assumes "good p" "p_left p \<le> m"
  shows "p_left (snd (parser_peek p)) \<le> m"
proof (cases "has_next (p_lexer p)")
  case True
  with assms have "snd (parser_peek p) = p"
    by (simp add: good_def parser_peek_def lexer_peek_next_def lexer_peek_def Let_def)
  with assms show ?thesis by simp
next
  case False
  with assms token_weight_next [of "l_tok (p_lexer p)"] show ?thesis
    by (simp add: good_def p_left_def parser_peek_def lexer_peek_next_def lexer_peek_def Let_def case_prod_beta)
qed

lemma clean_prime: "clean p \<Longrightarrow> \<not> p_has_current p \<Longrightarrow> good (parser_prime p)"
  by (simp add: parser_prime_def clean_advance)

lemma good_prime [simp]: "good p \<Longrightarrow> parser_prime p = p"
  by (simp add: parser_prime_def good_def)

section \<open>A calculus of total correctness\<close>

definition tot :: "nat \<Rightarrow> 'a res \<Rightarrow> bool" where
  "tot m r \<longleftrightarrow> (\<exists>x p. r = Some (x, p) \<and> good p \<and> p_left p \<le> m)"

definition ptot :: "nat \<Rightarrow> 'a \<times> Parser \<Rightarrow> bool" where
  "ptot m t \<longleftrightarrow> good (snd t) \<and> p_left (snd t) \<le> m"

text \<open>A round of a loop: if it goes on, it has consumed something.\<close>

definition stot :: "nat \<Rightarrow> (bool \<times> 's \<times> Parser) option \<Rightarrow> bool" where
  "stot m r \<longleftrightarrow> (\<exists>go s p. r = Some (go, s, p) \<and> good p \<and> p_left p \<le> m \<and> (go \<longrightarrow> p_left p < m))"

named_theorems vcg \<open>rules of the calculus\<close>

lemma vcg_basic [vcg]:
  "good p \<Longrightarrow> good (parser_advance p)" "good p \<Longrightarrow> good (parser_error p)"
  "good p \<Longrightarrow> good (parser_expect p ty)" "good p \<Longrightarrow> good (snd (parser_match p ty))"
  "good p \<Longrightarrow> good (skip_tokens P p)" "good p \<Longrightarrow> good (parser_sync p)" "good p \<Longrightarrow> good (snd (parser_peek p))"
  "good p \<Longrightarrow> p_left p \<le> m \<Longrightarrow> p_left (parser_advance p) \<le> m - 1"
  "p_left p \<le> m \<Longrightarrow> p_left (parser_error p) \<le> m"
  "good p \<Longrightarrow> p_left p \<le> m \<Longrightarrow> p_left (parser_expect p ty) \<le> m"
  "good p \<Longrightarrow> p_left p \<le> m \<Longrightarrow> p_left (snd (parser_match p ty)) \<le> m"
  "good p \<Longrightarrow> p_left p \<le> m \<Longrightarrow> p_left (skip_tokens P p) \<le> m"
  "good p \<Longrightarrow> p_left p \<le> m \<Longrightarrow> p_left (parser_sync p) \<le> m"
  "good p \<Longrightarrow> p_left p \<le> m \<Longrightarrow> p_left (snd (parser_peek p)) \<le> m"
  by (rule good_advance good_error good_expect good_match good_skip good_sync good_peek
      left_advance left_expect left_match left_skip left_sync left_peek | simp)+

lemma vcg_if_parser [vcg]:
  "(b \<Longrightarrow> good p) \<Longrightarrow> (\<not> b \<Longrightarrow> good q) \<Longrightarrow> good (if b then p else q)"
  "(b \<Longrightarrow> p_left p \<le> m) \<Longrightarrow> (\<not> b \<Longrightarrow> p_left q \<le> m) \<Longrightarrow> p_left (if b then p else q) \<le> m"
  by simp_all

lemma tot_Some [vcg]: "good p \<Longrightarrow> p_left p \<le> k \<Longrightarrow> k \<le> m \<Longrightarrow> tot m (Some (x, p))"
  by (simp add: tot_def)

lemma tot_pure: "ptot m t \<Longrightarrow> tot m (Some t)"
  by (cases t) (simp add: tot_def ptot_def)

lemma ptot_pair [vcg]: "good p \<Longrightarrow> p_left p \<le> k \<Longrightarrow> k \<le> m \<Longrightarrow> ptot m (x, p)"
  by (simp add: ptot_def)

lemma tot_weaken: "tot k r \<Longrightarrow> k \<le> m \<Longrightarrow> tot m r"
  by (auto simp: tot_def)

lemma tot_bind:
  assumes "tot k r" "\<And>x p. good p \<Longrightarrow> p_left p \<le> k \<Longrightarrow> tot m (f (x, p))"
  shows "tot m (r \<bind> f)"
  using assms by (auto simp: tot_def)

lemma stot_bind:
  assumes "tot k r" "\<And>x p. good p \<Longrightarrow> p_left p \<le> k \<Longrightarrow> stot m (f (x, p))"
  shows "stot m (r \<bind> f)"
  using assms by (auto simp: tot_def)

lemma tot_bind_bind [vcg]: "tot m (r \<bind> (\<lambda>x. f x \<bind> g)) \<Longrightarrow> tot m ((r \<bind> f) \<bind> g)"
  "stot n (r' \<bind> (\<lambda>x. f' x \<bind> g')) \<Longrightarrow> stot n ((r' \<bind> f') \<bind> g')"
  by simp_all

lemma tot_bind_Some [vcg]: "tot m (f x) \<Longrightarrow> tot m (Some x \<bind> f)" "stot n (g y) \<Longrightarrow> stot n (Some y \<bind> g)"
  by simp_all

lemma tot_bind_if [vcg]:
  "(b \<Longrightarrow> tot m (r \<bind> f)) \<Longrightarrow> (\<not> b \<Longrightarrow> tot m (s \<bind> f)) \<Longrightarrow> tot m ((if b then r else s) \<bind> f)"
  "(b \<Longrightarrow> stot m (r' \<bind> f')) \<Longrightarrow> (\<not> b \<Longrightarrow> stot m (s' \<bind> f')) \<Longrightarrow> stot m ((if b then r' else s') \<bind> f')"
  by simp_all

lemma tot_bind_case [vcg]:
  "tot m (c x y \<bind> f) \<Longrightarrow> tot m ((case (x, y) of (x, y) \<Rightarrow> c x y) \<bind> f)"
  "stot m (c' x' y' \<bind> f') \<Longrightarrow> stot m ((case (x', y') of (x, y) \<Rightarrow> c' x y) \<bind> f')"
  by simp_all

lemma tot_if [vcg]: "(b \<Longrightarrow> tot m r) \<Longrightarrow> (\<not> b \<Longrightarrow> tot m s) \<Longrightarrow> tot m (if b then r else s)"
  by simp

lemma ptot_if [vcg]: "(b \<Longrightarrow> ptot m r) \<Longrightarrow> (\<not> b \<Longrightarrow> ptot m s) \<Longrightarrow> ptot m (if b then r else s)"
  by simp

lemma tot_case_literal [vcg]:
  "tot m (c x y) \<Longrightarrow> tot m (case (x, y) of (x, y) \<Rightarrow> c x y)"
  "stot m (c' x' y') \<Longrightarrow> stot m (case (x', y') of (x, y) \<Rightarrow> c' x y)"
  "ptot m (d u v) \<Longrightarrow> ptot m (case (u, v) of (x, y) \<Rightarrow> d x y)"
  by simp_all

lemma tot_option [vcg]:
  "(u = None \<Longrightarrow> tot m r) \<Longrightarrow> (\<And>x. u = Some x \<Longrightarrow> tot m (s x)) \<Longrightarrow> tot m (case u of None \<Rightarrow> r | Some x \<Rightarrow> s x)"
  by (cases u) simp_all

lemma stot_intro: "good p \<Longrightarrow> p_left p \<le> m \<Longrightarrow> (go \<Longrightarrow> p_left p < m) \<Longrightarrow> stot m (Some (go, s, p))"
  by (auto simp: stot_def)

lemma stot_Some [vcg]:
  "good p \<Longrightarrow> p_left p \<le> k \<Longrightarrow> k \<le> m \<Longrightarrow> stot m (Some (False, s, p))"
  "good q \<Longrightarrow> p_left q \<le> j \<Longrightarrow> j < n \<Longrightarrow> stot n (Some (True, t, q))"
  by (auto simp: stot_def)

lemma stot_match [vcg]:
  assumes "good p" "p_left p \<le> k" "k \<le> m"
  shows "stot m (case parser_match p (OP ty) of (go, p) \<Rightarrow> Some (go, s, p))"
proof (cases "parser_check p (OP ty)")
  case True
  with assms(1) have "p_left p \<noteq> 0" using good_eof [of p] by (auto simp: good_check)
  with True assms left_advance [of p "p_left p"] good_advance [of p] show ?thesis
    by (simp add: parser_match_def stot_intro)
next
  case False
  with assms show ?thesis by (simp add: parser_match_def stot_intro)
qed

text \<open>The tests that guard a loop.\<close>

lemma stot_ends [vcg]:
  assumes "good p" "p_left p = L" "stot m r" "0 < L \<Longrightarrow> stot m s"
  shows "stot m (if parser_check p ty \<or> parser_check p TOKEN_EOF then r else s)"
    "stot m (if parser_check p TOKEN_EOF then r else s)"
    "stot m (if parser_check p ty \<or> parser_check p TOKEN_EOF \<or> P then r else s)"
  using assms good_eof [of p] by (auto simp: good_check)

lemma stot_if [vcg]: "(b \<Longrightarrow> stot m r) \<Longrightarrow> (\<not> b \<Longrightarrow> stot m s) \<Longrightarrow> stot m (if b then r else s)"
  by simp

lemma live_check:
  "good p \<Longrightarrow> parser_check p (OP s) \<Longrightarrow> 0 < p_left p" "good p \<Longrightarrow> parser_check p (KW k) \<Longrightarrow> 0 < p_left p"
  "good p \<Longrightarrow> parser_check p TOKEN_IDENT \<Longrightarrow> 0 < p_left p"
  using good_eof [of p] by (auto simp: good_check)

lemma tot_loop:
  assumes step: "\<And>s p. good p \<Longrightarrow> p_left p \<le> L \<Longrightarrow> stot (p_left p) (step (s, p))"
    and "good p" "p_left p \<le> L" "L < n"
  shows "tot L (loop n step (s, p))"
  using assms(2-4) step
proof (induction n arbitrary: s p L)
  case (Suc n)
  from Suc.prems(1,2,4) obtain go s' p' where r: "step (s, p) = Some (go, s', p')" "good p'"
    "p_left p' \<le> p_left p" "go \<longrightarrow> p_left p' < p_left p"
    unfolding stot_def by meson
  show ?case
  proof (cases go)
    case True
    have "tot (L - 1) (loop n step (s', p'))"
      using True r Suc.prems by (intro Suc.IH) auto
    with True r show ?thesis by (auto intro: tot_weaken)
  next
    case False
    with r Suc.prems show ?thesis by (auto simp: tot_def)
  qed
qed simp

lemma tot_case_pure:
  assumes "ptot k t" "\<And>x p. good p \<Longrightarrow> p_left p \<le> k \<Longrightarrow> tot m (c x p)"
  shows "tot m (case t of (x, p) \<Rightarrow> c x p)"
  using assms by (cases t) (auto simp: ptot_def)

lemma stot_case_pure:
  assumes "ptot k t" "\<And>x p. good p \<Longrightarrow> p_left p \<le> k \<Longrightarrow> stot m (c x p)"
  shows "stot m (case t of (x, p) \<Rightarrow> c x p)"
  using assms by (cases t) (auto simp: ptot_def)

lemma ptot_case_pure:
  assumes "ptot k t" "\<And>x p. good p \<Longrightarrow> p_left p \<le> k \<Longrightarrow> ptot m (c x p)"
  shows "ptot m (case t of (x, p) \<Rightarrow> c x p)"
  using assms by (cases t) (auto simp: ptot_def)

lemma bind_case_pure:
  "ptot k t \<Longrightarrow> (\<And>x p. good p \<Longrightarrow> p_left p \<le> k \<Longrightarrow> tot m (c x p \<bind> f)) \<Longrightarrow> tot m ((case t of (x, p) \<Rightarrow> c x p) \<bind> f)"
  "ptot j u \<Longrightarrow> (\<And>x p. good p \<Longrightarrow> p_left p \<le> j \<Longrightarrow> stot m (d x p \<bind> g)) \<Longrightarrow> stot m ((case u of (x, p) \<Rightarrow> d x p) \<bind> g)"
  by (cases t, simp add: ptot_def) (cases u, simp add: ptot_def)

lemmas case_pure = tot_case_pure stot_case_pure ptot_case_pure bind_case_pure

lemma case_pair:
  "(\<And>x y. tot m (c x y)) \<Longrightarrow> tot m (case t of (x, y) \<Rightarrow> c x y)"
  "(\<And>x y. stot m (d x y)) \<Longrightarrow> stot m (case u of (x, y) \<Rightarrow> d x y)"
  "(\<And>x y. tot m (c' x y \<bind> f)) \<Longrightarrow> tot m ((case t' of (x, y) \<Rightarrow> c' x y) \<bind> f)"
  "(\<And>x y. tot m (e x y q)) \<Longrightarrow> tot m ((case s of (x, y) \<Rightarrow> e x y) q)"
  "(\<And>x y. stot m (e' x y q)) \<Longrightarrow> stot m ((case s' of (x, y) \<Rightarrow> e' x y) q)"
  "(\<And>x y. ptot m (e'' x y q)) \<Longrightarrow> ptot m ((case s'' of (x, y) \<Rightarrow> e'' x y) q)"
  by (cases t, simp) (cases u, simp, cases t', simp, cases s, simp, cases s', simp, cases s'', simp)

text \<open>A test that succeeds shows that something is left.\<close>

definition live_type :: "TokenType \<Rightarrow> bool" where "live_type ty \<longleftrightarrow> ty \<noteq> TOKEN_EOF"

lemma live_type [simp, vcg]: "live_type (OP s)" "live_type (KW k)" "live_type TOKEN_IDENT" "live_type TOKEN_INT_LITERAL" "live_type TOKEN_STRING_LITERAL" "live_type TOKEN_NEWLINE"
  by (simp_all add: live_type_def)

lemma check_pos: "good p \<Longrightarrow> parser_check p ty \<Longrightarrow> live_type ty \<Longrightarrow> p_left p \<le> L \<Longrightarrow> 0 < L"
  using good_eof [of p] by (cases "p_left p") (auto simp: good_check live_type_def)

lemma if_check:
  assumes "live_type ty" "good p" "p_left p \<le> L"
  shows "(0 < L \<Longrightarrow> tot m r) \<Longrightarrow> tot m s \<Longrightarrow> tot m (if parser_check p ty then r else s)"
    "(0 < L \<Longrightarrow> stot m r') \<Longrightarrow> stot m s' \<Longrightarrow> stot m (if parser_check p ty then r' else s')"
    "(0 < L \<Longrightarrow> ptot m t) \<Longrightarrow> ptot m u \<Longrightarrow> ptot m (if parser_check p ty then t else u)"
    "(0 < L \<Longrightarrow> tot m (q \<bind> f)) \<Longrightarrow> tot m (q' \<bind> f) \<Longrightarrow> tot m ((if parser_check p ty then q else q') \<bind> f)"
    "(0 < L \<Longrightarrow> stot m (g \<bind> h)) \<Longrightarrow> stot m (g' \<bind> h) \<Longrightarrow> stot m ((if parser_check p ty then g else g') \<bind> h)"
    "tot m s \<Longrightarrow> (0 < L \<Longrightarrow> tot m r) \<Longrightarrow> tot m (if \<not> parser_check p ty then s else r)"
    "stot m s' \<Longrightarrow> (0 < L \<Longrightarrow> stot m r') \<Longrightarrow> stot m (if \<not> parser_check p ty then s' else r')"
  using check_pos [OF assms(2) _ assms(1,3)] by simp_all

lemma ptot_match [vcg]: "good p \<Longrightarrow> p_left p \<le> m \<Longrightarrow> ptot m (parser_match p ty)"
  by (simp add: ptot_def good_match left_match)

lemma ptot_peek [vcg]: "good p \<Longrightarrow> p_left p \<le> m \<Longrightarrow> ptot m (parser_peek p)"
  by (simp add: ptot_def good_peek left_peek)

section \<open>What the callees guarantee\<close>

text \<open>
  Five units of fuel for each unit left pay for the calls that consume nothing: a block calls a statement,
  which calls an expression, which calls a prefix.
\<close>

definition calls_ok :: "nat \<Rightarrow> calls \<Rightarrow> bool" where
  "calls_ok n K \<longleftrightarrow> c_fuel K = n \<and>
     (\<forall>p L. good p \<and> p_left p \<le> L \<and> 5 * L + 1 \<le> n \<longrightarrow> tot (L - 1) (c_type K p)) \<and>
     (\<forall>p L. good p \<and> p_left p \<le> L \<and> 5 * L + 1 \<le> n \<longrightarrow> tot (L - 1) (c_prefix K p)) \<and>
     (\<forall>p L left. good p \<and> p_left p \<le> L \<and> 5 * L + 1 \<le> n \<and> token_precedence (tok_type (p_current p)) \<noteq> PREC_MIN \<longrightarrow>
        tot (L - 1) (c_infix K left p)) \<and>
     (\<forall>p L prec. good p \<and> p_left p \<le> L \<and> 5 * L + 2 \<le> n \<longrightarrow> tot (L - 1) (c_expr K prec p)) \<and>
     (\<forall>p L prec. clean p \<and> \<not> p_has_current p \<and> p_left p \<le> L \<and> 5 * L + 2 \<le> n \<longrightarrow> tot L (c_expr K prec p)) \<and>
     (\<forall>p L. good p \<and> p_left p \<le> L \<and> 5 * L + 3 \<le> n \<longrightarrow> tot (L - 1) (c_arm K p)) \<and>
     (\<forall>p L. good p \<and> p_left p \<le> L \<and> 5 * L + 3 \<le> n \<longrightarrow> tot (L - 1) (c_stmt K p)) \<and>
     (\<forall>p L. good p \<and> p_left p \<le> L \<and> 5 * L + 4 \<le> n \<longrightarrow> tot L (c_block K p)) \<and>
     (\<forall>p L ds. good p \<and> p_left p \<le> L \<and> 5 * L + 4 \<le> n \<longrightarrow> tot (L - 1) (c_decl K ds p))"

lemma calls_ok_rules:
  assumes "calls_ok n K" "good p" "p_left p \<le> L"
  shows "5 * L + 1 \<le> n \<Longrightarrow> tot (L - 1) (c_type K p)" "5 * L + 1 \<le> n \<Longrightarrow> tot (L - 1) (c_prefix K p)"
    "5 * L + 2 \<le> n \<Longrightarrow> tot (L - 1) (c_expr K prec p)"
    "5 * L + 3 \<le> n \<Longrightarrow> tot (L - 1) (c_arm K p)" "5 * L + 3 \<le> n \<Longrightarrow> tot (L - 1) (c_stmt K p)"
    "5 * L + 4 \<le> n \<Longrightarrow> tot L (c_block K p)" "5 * L + 4 \<le> n \<Longrightarrow> tot (L - 1) (c_decl K ds p)"
  using assms by (simp_all add: calls_ok_def)

lemma tot_loop_calls:
  assumes "calls_ok n K" "good p" "p_left p \<le> L" "L < n"
    "\<And>s p. good p \<Longrightarrow> p_left p \<le> L \<Longrightarrow> stot (p_left p) (step (s, p))"
  shows "tot L (loop (c_fuel K) step (s, p))"
  using assms by (intro tot_loop) (auto simp: calls_ok_def)

lemmas tot_calls = calls_ok_rules tot_loop_calls

text \<open>The same where the bound is given and weaker than what is known.\<close>

lemma left_advance_weak: "good p \<Longrightarrow> p_left p \<le> k \<Longrightarrow> k - 1 \<le> m \<Longrightarrow> p_left (parser_advance p) \<le> m"
  using left_advance [of p k] by simp

lemmas weak = left_advance_weak calls_ok_rules [THEN tot_weaken]

end
