(* ===== verification/ParserExprTotal.thy ===== *)
theory ParserExprTotal
  imports ParserVcg
begin

text \<open>
  Types, patterns, attributes and expressions return on sources without a bar, given callees that do: one
  lemma per parsing function, by the calculus of \<open>ParserVcg\<close>.
\<close>

section \<open>Types\<close>

lemma type_list_step_tot [vcg]:
  assumes "calls_ok n K" "good p" "p_left p = L" "5 * L + 1 \<le> n"
  shows "stot L (type_list_step K (ts, p))"
  unfolding type_list_step_def Let_def using assms eq_refl [OF assms(3)]
  by - (rule vcg stot_bind tot_calls | assumption | linarith | rule weak)+

lemma type_list_tot [vcg]:
  assumes "calls_ok n K" "good p" "p_left p \<le> L" "5 * L + 1 \<le> n"
  shows "tot L (type_list K ts p)"
  unfolding type_list_def using assms
  by - (rule vcg tot_calls refl | assumption | linarith | rule weak)+

lemma parse_type_fn_tot [vcg]:
  assumes "calls_ok n K" "good p" "p_left p \<le> L" "5 * L + 1 \<le> n"
  shows "tot L (parse_type_fn K p)"
  unfolding parse_type_fn_def Let_def using assms
  by - (rule vcg tot_bind tot_calls | assumption | linarith | rule weak)+

lemma parse_type_name_tot [vcg]:
  assumes "good p" "p_left p \<le> L"
  shows "ptot (L - 1) (parse_type_name p)"
  unfolding parse_type_name_def Let_def using assms
  by - (rule stot_ends if_check vcg tot_bind stot_bind tot_calls case_pure case_pair | assumption | linarith | rule weak)+

lemma parse_type_ref_tot [vcg]:
  assumes "calls_ok n K" "good p" "p_left p \<le> L" "5 * L \<le> n" "0 < L"
  shows "tot (L - 1) (parse_type_ref K ty info p)"
  unfolding parse_type_ref_def Let_def using assms
  by - (rule stot_ends if_check vcg tot_bind stot_bind tot_calls case_pure case_pair | assumption | linarith | rule weak)+

lemma parse_type_array_tot [vcg]:
  assumes "calls_ok n K" "good p" "p_left p \<le> L" "5 * L \<le> n" "0 < L"
  shows "tot (L - 1) (parse_type_array K p)"
  unfolding parse_type_array_def Let_def using assms
  by - (rule stot_ends if_check vcg tot_bind stot_bind tot_calls case_pure case_pair | assumption | linarith | rule weak)+

lemma parse_type_tuple_tot [vcg]:
  assumes "calls_ok n K" "good p" "p_left p \<le> L" "5 * L \<le> n" "0 < L"
  shows "tot (L - 1) (parse_type_tuple K p)"
  unfolding parse_type_tuple_def Let_def using assms
  by - (rule stot_ends if_check vcg tot_bind stot_bind tot_calls case_pure case_pair | assumption | linarith | rule weak)+

lemma parse_type_base_tot [vcg]:
  assumes "calls_ok n K" "good p" "p_left p \<le> L" "5 * L \<le> n"
  shows "tot (L - 1) (parse_type_base K p)"
  unfolding parse_type_base_def Let_def using assms
  by - (rule stot_ends if_check vcg tot_bind stot_bind tot_calls case_pure tot_pure case_pair | assumption | linarith | rule weak)+

lemma parse_type_postfix_tot [vcg]:
  assumes "good p" "p_left p \<le> L"
  shows "ptot L (parse_type_postfix base p)"
  unfolding parse_type_postfix_def Let_def using assms
  by - (rule stot_ends if_check vcg tot_bind stot_bind tot_calls case_pure tot_pure case_pair | assumption | linarith | rule weak)+

lemma parse_type_tot [vcg]:
  assumes "calls_ok n K" "good p" "p_left p \<le> L" "5 * L \<le> n"
  shows "tot (L - 1) (parse_type K p)"
  unfolding parse_type_def Let_def using assms
  by - (rule stot_ends if_check vcg tot_bind stot_bind tot_calls case_pure tot_pure case_pair | assumption | linarith | rule weak)+

lemma parse_type_annotation_tot [vcg]:
  assumes "calls_ok n K" "good p" "p_left p \<le> L" "5 * L + 1 \<le> n"
  shows "tot L (parse_type_annotation K p)"
  unfolding parse_type_annotation_def Let_def using assms
  by - (rule stot_ends if_check vcg tot_bind stot_bind tot_calls case_pure tot_pure case_pair | assumption | linarith | rule weak)+

section \<open>Patterns and attributes\<close>

lemma pattern_range_tot [vcg]:
  assumes "good p" "p_left p \<le> L"
  shows "ptot L (pattern_range t p)"
  unfolding pattern_range_def Let_def using assms
  by - (rule stot_ends if_check vcg tot_bind stot_bind tot_calls case_pure tot_pure case_pair | assumption | linarith | rule weak)+

lemma parse_pattern_tot [vcg]:
  assumes "good p" "p_left p \<le> L"
  shows "ptot L (parse_pattern p)"
  unfolding parse_pattern_def Let_def using assms
  by - (rule stot_ends if_check vcg tot_bind stot_bind tot_calls case_pure tot_pure case_pair | assumption | linarith | rule weak)+

lemma attr_value_tot [vcg]:
  assumes "good p" "p_left p \<le> L"
  shows "ptot L (attr_value key (a, p))"
  unfolding attr_value_def Let_def using assms
  by - (rule stot_ends if_check vcg tot_bind stot_bind tot_calls case_pure tot_pure case_pair | assumption | linarith | rule weak)+

lemma attr_pair_value_tot:
  assumes "good p" "p_left p \<le> L"
  shows "ptot L (if parser_check p ty \<or> parser_check p ty' then attr_value key (a, parser_advance p) else (a, p))"
  using assms
  by - (rule stot_ends if_check vcg tot_bind stot_bind tot_calls case_pure tot_pure case_pair | assumption | linarith | rule weak)+

lemma attr_pair_step_tot [vcg]:
  assumes "good p" "p_left p = L"
  shows "stot L (attr_pair_step (a, p))"
  unfolding attr_pair_step_def Let_def using assms eq_refl [OF assms(2)]
  by - (rule attr_pair_value_tot stot_ends if_check vcg if_check tot_bind stot_bind tot_calls case_pure tot_pure case_pair | assumption | linarith | rule weak)+

lemma attr_args_tot [vcg]:
  assumes "calls_ok n K" "good p" "p_left p \<le> L" "5 * L + 1 \<le> n"
  shows "tot L (attr_args (c_fuel K) a p)"
  unfolding attr_args_def Let_def using assms
  by - (rule vcg if_check tot_calls refl | assumption | linarith | rule weak)+

lemma parse_attribute_tot [vcg]:
  assumes "calls_ok n K" "good p" "p_left p \<le> L" "5 * L + 1 \<le> n"
  shows "tot L (parse_attribute K p)"
  unfolding parse_attribute_def Let_def using assms
  by - (rule stot_ends if_check vcg tot_bind stot_bind tot_calls case_pure tot_pure case_pair | assumption | linarith | rule weak)+

section \<open>Prefix expressions\<close>

lemma match_arms_step_tot [vcg]:
  assumes "calls_ok n K" "good p" "p_left p = L" "5 * L + 3 \<le> n"
  shows "stot L (match_arms_step K (arms, p))"
  unfolding match_arms_step_def Let_def using assms eq_refl [OF assms(3)]
  by - (rule stot_ends if_check vcg tot_bind stot_bind tot_calls case_pure tot_pure case_pair | assumption | linarith | rule weak)+

lemma parse_match_tot [vcg]:
  assumes "calls_ok n K" "good p" "p_left p \<le> L" "5 * L + 4 \<le> n"
  shows "tot L (parse_match K p)"
  unfolding parse_match_def Let_def using assms
  by - (rule stot_ends if_check vcg tot_bind stot_bind tot_calls case_pure tot_pure case_pair | assumption | linarith | rule weak)+

lemma array_step_tot [vcg]:
  assumes "calls_ok n K" "good p" "p_left p = L" "5 * L + 2 \<le> n"
  shows "stot L (array_step K (es, p))"
  unfolding array_step_def Let_def using assms eq_refl [OF assms(3)]
  by - (rule stot_ends if_check vcg tot_bind stot_bind tot_calls case_pure tot_pure case_pair | assumption | linarith | rule weak)+

lemma parse_array_lit_tot [vcg]:
  assumes "calls_ok n K" "good p" "p_left p \<le> L" "5 * L + 4 \<le> n"
  shows "tot L (parse_array_lit K loc p)"
  unfolding parse_array_lit_def Let_def using assms
  by - (rule stot_ends if_check vcg tot_bind stot_bind tot_calls case_pure tot_pure case_pair | assumption | linarith | rule weak)+

lemma lambda_param_step_tot [vcg]:
  assumes "calls_ok n K" "good p" "p_left p = L" "5 * L + 1 \<le> n"
  shows "stot L (lambda_param_step K (ps, p))"
  unfolding lambda_param_step_def Let_def using assms eq_refl [OF assms(3)]
  by - (rule stot_ends if_check vcg tot_bind stot_bind tot_calls case_pure tot_pure case_pair | assumption | linarith | rule weak)+

lemma parse_lambda_tot [vcg]:
  assumes "calls_ok n K" "good p" "p_left p \<le> L" "5 * L + 4 \<le> n"
  shows "tot L (parse_lambda K loc p)"
  unfolding parse_lambda_def Let_def using assms
  by - (rule stot_ends if_check vcg tot_bind stot_bind tot_calls case_pure tot_pure case_pair | assumption | linarith | rule weak)+

lemma parse_inc_dec_tot [vcg]:
  assumes "calls_ok n K" "good p" "p_left p \<le> L" "5 * L + 4 \<le> n"
  shows "tot L (parse_inc_dec K loc op p)"
  unfolding parse_inc_dec_def Let_def using assms
  by - (rule stot_ends if_check vcg tot_bind stot_bind tot_calls case_pure tot_pure case_pair | assumption | linarith | rule weak)+

text \<open>An interpolated expression lies inside the literal, so its parser has less to read.\<close>

lemma brace_end_le: "i \<le> e \<Longrightarrow> fst (brace_end s e i d) \<le> e"
proof (induction s e i d rule: brace_end.induct)
  case (1 s e i d)
  then show ?case by (subst brace_end.simps) (auto simp: Let_def)
qed

lemma interp_expr_tot:
  assumes "calls_ok n K" "10 * e \<le> n" "BAR \<notin> set s" "e \<le> length s" "j \<le> e" "0 < i"
  shows "\<exists>r'. interp_expr K loc s i j r = Some r'"
proof (cases "j > i")
  case True
  obtain l where l: "lexer_create (\<lambda>_. True) (drop i s) (j - i) (Some (loc_file loc)) = Some l"
    by (simp add: lexer_create_def)
  have "clean (parser_on l)" "\<not> p_has_current (parser_on l)" "p_left (parser_on l) \<le> 2 * (j - i)"
    using l assms True
    by (auto simp: clean_def parser_on_def lexer_create_def lexer_inv_def lexer_ok_def src_clean_def
        tokenizer_ok_def tokenizer_create_def p_left_def token_weight_def zero_token_def dest: in_set_dropD)
  moreover have "5 * (2 * (j - i)) + 2 \<le> n" using assms True by linarith
  ultimately have "tot (2 * (j - i)) (c_expr K PREC_MIN (parser_on l))"
    using assms(1) by (simp add: calls_ok_def)
  then show ?thesis using l True by (auto simp: interp_expr_def tot_def)
qed (simp add: interp_expr_def)

lemma interp_loop_tot:
  assumes "calls_ok n K" "10 * e \<le> n" "BAR \<notin> set s" "e \<le> length s"
  shows "\<exists>r'. interp_loop K loc s e i st r found = Some r'"
  using assms
proof (induction K loc s e i st r found rule: interp_loop.induct)
  case (1 K loc s e i st r found)
  show ?case
  proof (cases "i < e \<and> s ! i = CHR ''{'' \<and> (i = 0 \<or> s ! (i - 1) \<noteq> BSLASH)")
    case True
    define r1 where "r1 = literal_piece loc s st i r"
    obtain j depth where b: "brace_end s e (i + 1) 1 = (j, depth)" by fastforce
    show ?thesis
    proof (cases "depth = 0")
      case depth: True
      have "j \<le> e" using brace_end_le [of "i + 1" e s 1] b True by simp
      from interp_expr_tot [OF "1.prems" this, of "i + 1" loc r1]
      obtain r2 where r2: "interp_expr K loc s (i + 1) j r1 = Some r2" by auto
      have "\<exists>r'. interp_loop K loc s e (j + 1) (j + 1) r2 True = Some r'"
        by (rule "1.IH"(1)) (use True depth b r2 "1.prems" r1_def in auto)
      then show ?thesis using True depth b r2 by (simp add: interp_loop.simps [of K loc s e i] Let_def r1_def)
    next
      case False
      have "\<exists>r'. interp_loop K loc s e (i + 1) (i + 1) r1 True = Some r'"
        by (rule "1.IH"(2)) (use True False b "1.prems" r1_def in auto)
      then show ?thesis using True False b by (simp add: interp_loop.simps [of K loc s e i] Let_def r1_def)
    qed
  next
    case False
    show ?thesis
    proof (cases "i < e")
      case True
      have "\<exists>r'. interp_loop K loc s e (i + 1) st r found = Some r'"
        by (rule "1.IH"(3)) (use True False "1.prems" in auto)
      then show ?thesis using True False by (auto simp: interp_loop.simps [of K loc s e i])
    qed (simp add: interp_loop.simps [of K loc s e i])
  qed
qed

lemma parse_string_literal_tot:
  assumes "calls_ok n K" "tok_clean token" "tok_type token = TOKEN_STRING_LITERAL" "10 * sv_len (tok_text token) \<le> n"
  shows "\<exists>m. parse_string_literal K token = Some m"
proof -
  define d len where "d = sv_data (tok_text token)" and "len = sv_len (tok_text token)"
  define strip where "strip \<longleftrightarrow> len \<ge> 2 \<and> d ! 0 = DQUOTE \<and> d ! (len - 1) = DQUOTE"
  define s e where "s = (if strip then drop 1 d else d)" and "e = (if strip then len - 2 else len)"
  have "len \<le> length d" "BAR \<notin> set d"
    using assms(2,3) by (auto simp: tok_clean_def sv_ok_def d_def len_def)
  then have "10 * e \<le> n" "BAR \<notin> set s" "e \<le> length s"
    using assms(4) by (auto simp: s_def e_def strip_def len_def dest: in_set_dropD)
  from interp_loop_tot [OF assms(1) this] obtain st r found
    where "interp_loop K (tok_loc token) s e 0 0 NULL False = Some (st, r, found)" by (metis prod_cases3)
  then show ?thesis
    unfolding parse_string_literal_def Let_def d_def [symmetric] len_def [symmetric] strip_def [symmetric]
      s_def [symmetric] e_def [symmetric] by simp
qed

lemma good_tok_clean: "good p \<Longrightarrow> tok_clean (p_current p)"
  by (simp add: good_def clean_def)

lemma parse_prefix_tot:
  assumes "calls_ok n K" "good p" "p_left p \<le> L" "5 * L \<le> n"
  shows "tot (L - 1) (parse_prefix K p)"
proof -
  consider (eof) "tok_type (p_current p) = TOKEN_EOF"
    | (str) "tok_type (p_current p) = TOKEN_STRING_LITERAL"
    | (other) "0 < L" "tok_type (p_current p) \<noteq> TOKEN_STRING_LITERAL"
    using good_eof [OF assms(2)] assms(3) by fastforce
  then show ?thesis
  proof cases
    case eof
    then show ?thesis using assms
      by (simp add: parse_prefix_def Let_def atom_node_def prefix_unary_def) (rule vcg | assumption | linarith)+
  next
    case str
    then have "2 * sv_len (tok_text (p_current p)) \<le> p_left p"
      by (auto simp: p_left_def token_weight_def)
    then obtain m where "parse_string_literal K (p_current p) = Some m"
      using parse_string_literal_tot [OF assms(1) good_tok_clean [OF assms(2)] str] assms(3,4) by auto
    then show ?thesis using str assms
      by (simp add: parse_prefix_def Let_def atom_node_def) (rule vcg | assumption | linarith)+
  next
    case other
    show ?thesis
      unfolding parse_prefix_def Let_def if_not_P [OF other(2)] using assms other(1)
      by - (rule stot_ends if_check vcg tot_bind stot_bind tot_calls case_pure tot_pure case_pair | assumption | linarith | rule weak)+
  qed
qed

section \<open>Infix expressions\<close>

lemma call_arg_step_tot [vcg]:
  assumes "calls_ok n K" "good p" "p_left p = L" "5 * L + 2 \<le> n"
  shows "stot L (call_arg_step K loc (args, p))"
  unfolding call_arg_step_def Let_def using assms eq_refl [OF assms(3)]
  by - (rule stot_ends if_check vcg tot_bind stot_bind tot_calls case_pure tot_pure case_pair | assumption | linarith | rule weak)+

lemma parse_call_tot [vcg]:
  assumes "calls_ok n K" "good p" "p_left p \<le> L" "5 * L + 4 \<le> n"
  shows "tot L (parse_call K loc left p)"
  unfolding parse_call_def Let_def using assms
  by - (rule stot_ends if_check vcg tot_bind stot_bind tot_calls case_pure tot_pure case_pair | assumption | linarith | rule weak)+

lemma parse_index_tot [vcg]:
  assumes "calls_ok n K" "good p" "p_left p \<le> L" "5 * L + 4 \<le> n"
  shows "tot L (parse_index K loc left p)"
  unfolding parse_index_def Let_def using assms
  by - (rule stot_ends if_check vcg tot_bind stot_bind tot_calls case_pure tot_pure case_pair | assumption | linarith | rule weak)+

lemma parse_field_tot [vcg]:
  assumes "good p" "p_left p \<le> L"
  shows "ptot L (parse_field loc left p)"
  unfolding parse_field_def Let_def using assms
  by - (rule stot_ends if_check vcg tot_bind stot_bind tot_calls case_pure tot_pure case_pair | assumption | linarith | rule weak)+

lemma parse_cast_tot [vcg]:
  assumes "calls_ok n K" "good p" "p_left p \<le> L" "5 * L + 4 \<le> n"
  shows "tot L (parse_cast K loc left p)"
  unfolding parse_cast_def Let_def using assms
  by - (rule stot_ends if_check vcg tot_bind stot_bind tot_calls case_pure tot_pure case_pair | assumption | linarith | rule weak)+

lemma parse_question_tot [vcg]:
  assumes "calls_ok n K" "good p" "p_left p \<le> L" "5 * L \<le> n" "0 < L"
  shows "tot (L - 1) (parse_question K loc left p)"
  unfolding parse_question_def Let_def using assms
  by - (rule stot_ends if_check vcg tot_bind stot_bind tot_calls case_pure tot_pure case_pair | assumption | linarith | rule weak)+

lemma parse_binary_tot:
  assumes "calls_ok n K" "good p" "p_left p \<le> L" "5 * L \<le> n" "0 < L"
    "map_of infix_ops (tok_type token) \<noteq> None"
  shows "tot (L - 1) (parse_binary K token left p)"
proof -
  from assms(6) obtain op where "map_of infix_ops (tok_type token) = Some op" by blast
  then show ?thesis
    unfolding parse_binary_def Let_def using assms(1-5)
    by simp (rule stot_ends if_check vcg tot_bind stot_bind tot_calls case_pure tot_pure case_pair | assumption | linarith | rule weak)+
qed

text \<open>An operator that is not the bar has a branch of its own, or is in the table of binary operators.\<close>

lemma infix_covered:
  assumes "token_precedence ty \<noteq> PREC_MIN"
    "ty \<notin> {OP TOKEN_LPAREN, OP TOKEN_LBRACKET, OP TOKEN_DOT, OP TOKEN_COLON_COLON, KW TOKEN_KW_AS, OP TOKEN_QUESTION}"
  shows "map_of infix_ops ty \<noteq> None"
proof -
  have "map_of precedences ty \<noteq> None" using assms(1) by (auto simp: token_precedence_def split: option.splits)
  then have "ty \<in> fst ` set precedences" by (simp add: map_of_eq_None_iff)
  then show ?thesis using assms(2) by (auto simp: precedences_def infix_ops_def)
qed

lemma parse_infix_tot:
  assumes "calls_ok n K" "good p" "p_left p \<le> L" "5 * L \<le> n"
    "token_precedence (tok_type (p_current p)) \<noteq> PREC_MIN"
  shows "tot (L - 1) (parse_infix K left p)"
proof -
  have "tok_type (p_current p) \<noteq> TOKEN_EOF"
    using assms(5) by (auto simp: token_precedence_def precedences_def)
  then have L: "0 < L" using good_eof [OF assms(2)] assms(3) by (cases "p_left p") auto
  have no_bar: "tok_type (p_current p) \<noteq> OP TOKEN_PIPE"
    using good_tok_clean [OF assms(2)] by (simp add: tok_clean_def)
  have binary: "tok_type (p_current p) \<notin> {OP TOKEN_LPAREN, OP TOKEN_LBRACKET, OP TOKEN_DOT, OP TOKEN_COLON_COLON,
      KW TOKEN_KW_AS, OP TOKEN_QUESTION} \<Longrightarrow> tot (L - 1) (parse_binary K (p_current p) left p)"
    using assms L by (intro parse_binary_tot infix_covered) auto
  show ?thesis
    unfolding parse_infix_def Let_def if_not_P [OF no_bar] using assms(1-4) L binary
    by - (rule stot_ends if_check vcg tot_bind stot_bind tot_calls case_pure tot_pure case_pair | assumption | linarith | rule weak | simp)+
qed

section \<open>Precedence climbing, arms and blocks\<close>

lemma parse_postfix_ops_tot [vcg]: "good p \<Longrightarrow> p_left p \<le> L \<Longrightarrow> ptot L (parse_postfix_ops left p)"
proof (induction left p rule: parse_postfix_ops.induct)
  case (1 left p)
  then show ?case
    by (subst parse_postfix_ops.simps) (auto simp: Let_def ptot_def good_advance left_advance_weak)
qed

lemma prec_pos:
  assumes "good p" "token_precedence (tok_type (p_current p)) \<noteq> PREC_MIN"
  shows "0 < p_left p"
proof -
  have "tok_type (p_current p) \<noteq> TOKEN_EOF"
    using assms(2) by (auto simp: token_precedence_def precedences_def)
  then show ?thesis using good_eof [OF assms(1)] by auto
qed

lemma infix_step_tot [vcg]:
  assumes "calls_ok n K" "good p" "p_left p = L" "5 * L + 1 \<le> n"
  shows "stot L (infix_step K min_prec (s, p))"
proof -
  obtain had left where s: "s = (had, left)" by fastforce
  define q where "q = (if had then skip_newlines p else p)"
  have q: "good q" "p_left q \<le> L" using assms by (auto simp: q_def good_skip left_skip)
  show ?thesis
  proof (cases "token_in q expr_ends \<or> token_precedence (tok_type (p_current q)) < min_prec \<or>
      token_precedence (tok_type (p_current q)) = PREC_MIN")
    case True
    with q show ?thesis by (simp add: s infix_step_def q_def [symmetric] Let_def stot_intro)
  next
    case False
    from q(1) False have L: "0 < L" using prec_pos [of q] q(2) by linarith
    have "tot (L - 1) (c_infix K left q)" using assms q False by (simp add: calls_ok_def)
    then show ?thesis
      unfolding s infix_step_def prod.case Let_def q_def [symmetric] if_not_P [OF False] using L
      by - (rule stot_ends if_check vcg tot_bind stot_bind tot_calls case_pure tot_pure case_pair | assumption | linarith | rule weak)+
  qed
qed

lemma parse_expr_prec_tot:
  assumes "calls_ok n K" "good p" "p_left p \<le> L" "5 * L + 1 \<le> n"
  shows "tot (L - 1) (parse_expr_prec K prec p)"
proof (cases "parser_check p TOKEN_EOF")
  case True
  then have "p_left p = 0" using good_eof [OF assms(2)] assms(2) by (simp add: good_check)
  then show ?thesis using assms True by (simp add: parse_expr_prec_def Let_def tot_def)
next
  case False
  then have L: "0 < L" using good_eof [OF assms(2)] assms(2,3) by (cases "p_left p") (auto simp: good_check)
  show ?thesis
    unfolding parse_expr_prec_def Let_def good_prime [OF assms(2)] if_not_P [OF False] using assms L
    by - (rule stot_ends if_check vcg tot_bind stot_bind tot_calls case_pure tot_pure case_pair | assumption | linarith | rule weak)+
qed

lemma parse_expr_prec_unprimed:
  assumes "calls_ok n K" "clean p" "\<not> p_has_current p" "p_left p \<le> L" "5 * L + 1 \<le> n"
  shows "tot L (parse_expr_prec K prec p)"
proof -
  have g: "good (parser_prime p)" using assms by (simp add: clean_prime)
  have "p_left (parser_prime p) \<le> L"
    using assms p_left_advance [of p] by (simp add: parser_prime_def)
  from parse_expr_prec_tot [OF assms(1) g this assms(5), of prec] show ?thesis
    using g by (auto simp: parse_expr_prec_def Let_def tot_def)
qed

lemma extra_pattern_step_tot [vcg]:
  assumes "good p" "p_left p = L"
  shows "stot L (extra_pattern_step (ps, p))"
  unfolding extra_pattern_step_def Let_def using assms eq_refl [OF assms(2)]
  by - (rule stot_ends if_check vcg tot_bind stot_bind tot_calls case_pure tot_pure case_pair | assumption | linarith | rule weak)+

lemma arm_patterns_tot [vcg]:
  assumes "calls_ok n K" "good p" "p_left p \<le> L" "5 * L + 1 \<le> n"
  shows "tot L (arm_patterns K p)"
  unfolding arm_patterns_def Let_def using assms
  by - (rule stot_ends if_check vcg tot_bind stot_bind tot_calls case_pure tot_pure case_pair | assumption | linarith | rule weak)+

lemma parse_match_arm_tot [vcg]:
  assumes "calls_ok n K" "good p" "p_left p \<le> L" "5 * L + 2 \<le> n"
  shows "tot (L - 1) (parse_match_arm K p)"
  unfolding parse_match_arm_def Let_def using assms
  by - (rule stot_ends if_check vcg tot_bind stot_bind tot_calls case_pure tot_pure case_pair | assumption | linarith | rule weak)+

lemma block_step_tot [vcg]:
  assumes "calls_ok n K" "good p" "p_left p = L" "5 * L + 3 \<le> n"
  shows "stot L (block_step K (stmts, p))"
  unfolding block_step_def Let_def using assms eq_refl [OF assms(3)]
  by - (rule stot_ends if_check vcg tot_bind stot_bind tot_calls case_pure tot_pure case_pair | assumption | linarith | rule weak)+

lemma parse_block_braced_tot [vcg]:
  assumes "calls_ok n K" "good p" "p_left p \<le> L" "5 * L + 3 \<le> n"
  shows "tot L (parse_block_braced K p)"
  unfolding parse_block_braced_def Let_def using assms
  by - (rule stot_ends if_check vcg tot_bind stot_bind tot_calls case_pure tot_pure case_pair | assumption | linarith | rule weak)+

end
