(* ===== verification/ParserFuel.thy ===== *)
theory ParserFuel
  imports ParserDecl
begin

text \<open>
  Fuel only decides whether a call returns: a call that returns with some fuel returns the same with more
  (\<open>parser_parse_more\<close>).  \<open>below r r'\<close> orders results as the options with \<open>None\<close> least; every parsing
  function is monotone in its callees.
\<close>

section \<open>The order on results\<close>

definition below :: "'a option \<Rightarrow> 'a option \<Rightarrow> bool" where
  "below r r' \<longleftrightarrow> (\<forall>x. r = Some x \<longrightarrow> r' = Some x)"

definition calls_below :: "calls \<Rightarrow> calls \<Rightarrow> bool" where
  "calls_below K K' \<longleftrightarrow> c_fuel K \<le> c_fuel K' \<and> (\<forall>p. below (c_type K p) (c_type K' p)) \<and>
     (\<forall>prec p. below (c_expr K prec p) (c_expr K' prec p)) \<and> (\<forall>p. below (c_prefix K p) (c_prefix K' p)) \<and>
     (\<forall>n p. below (c_infix K n p) (c_infix K' n p)) \<and> (\<forall>p. below (c_arm K p) (c_arm K' p)) \<and>
     (\<forall>p. below (c_block K p) (c_block K' p)) \<and> (\<forall>p. below (c_stmt K p) (c_stmt K' p)) \<and>
     (\<forall>ds p. below (c_decl K ds p) (c_decl K' ds p))"

named_theorems mono \<open>monotonicity in the callees\<close>

lemma below_refl: "below r r"
  by (simp add: below_def)

lemma below_None: "below None r"
  by (simp add: below_def)

lemma below_trans: "below a b \<Longrightarrow> below b c \<Longrightarrow> below a c"
  by (simp add: below_def)

lemma below_bind:
  assumes "below r r'" "\<And>x. below (f x) (g x)"
  shows "below (r \<bind> f) (r' \<bind> g)"
  using assms by (cases r) (auto simp: below_def)

lemma below_if: "below r r' \<Longrightarrow> below s s' \<Longrightarrow> below (if b then r else s) (if b then r' else s')"
  by simp

lemma below_case_prod:
  "(\<And>x y. below (c x y) (d x y)) \<Longrightarrow> below (case t of (x, y) \<Rightarrow> c x y) (case t of (x, y) \<Rightarrow> d x y)"
  "(\<And>x y. below (c' x y q) (d' x y q)) \<Longrightarrow> below ((case t of (x, y) \<Rightarrow> c' x y) q) ((case t of (x, y) \<Rightarrow> d' x y) q)"
  by (cases t, simp)+

lemma below_case_option:
  "below r r' \<Longrightarrow> (\<And>x. below (s x) (s' x)) \<Longrightarrow>
     below (case u of None \<Rightarrow> r | Some x \<Rightarrow> s x) (case u of None \<Rightarrow> r' | Some x \<Rightarrow> s' x)"
  by (cases u) simp_all

lemma below_loop:
  assumes "n \<le> n'" "\<And>s. below (step s) (step' s)"
  shows "below (loop n step s) (loop n' step' s)"
  using assms(1)
proof (induction n arbitrary: n' s)
  case (Suc n)
  then obtain m where n': "n' = Suc m" "n \<le> m" by (cases n') auto
  show ?case
    unfolding n'(1) loop.simps
    by (rule below_bind [OF assms(2)]) (auto intro: Suc.IH [OF n'(2)] below_refl)
qed (simp add: below_None)

lemma below_calls:
  assumes "calls_below K K'"
  shows "below (c_type K p) (c_type K' p)" "below (c_expr K prec p) (c_expr K' prec p)"
    "below (c_prefix K p) (c_prefix K' p)" "below (c_infix K n p) (c_infix K' n p)"
    "below (c_arm K p) (c_arm K' p)" "below (c_block K p) (c_block K' p)" "below (c_stmt K p) (c_stmt K' p)"
    "below (c_decl K ds p) (c_decl K' ds p)" "c_fuel K \<le> c_fuel K'"
  using assms by (simp_all add: calls_below_def)

lemmas cong = below_refl below_calls below_bind below_if below_case_prod below_case_option below_loop

section \<open>The parsing functions\<close>

lemma type_list_step_mono [mono]: "calls_below K K' \<Longrightarrow> below (type_list_step K x) (type_list_step K' x)"
  unfolding type_list_step_def Let_def by (rule mono cong | assumption)+

lemma type_list_mono [mono]: "calls_below K K' \<Longrightarrow> below (type_list K x y) (type_list K' x y)"
  unfolding type_list_def Let_def by (rule mono cong | assumption)+

lemma parse_type_fn_mono [mono]: "calls_below K K' \<Longrightarrow> below (parse_type_fn K x) (parse_type_fn K' x)"
  unfolding parse_type_fn_def Let_def by (rule mono cong | assumption)+

lemma parse_type_ref_mono [mono]: "calls_below K K' \<Longrightarrow> below (parse_type_ref K x y z) (parse_type_ref K' x y z)"
  unfolding parse_type_ref_def Let_def by (rule mono cong | assumption)+

lemma parse_type_array_mono [mono]: "calls_below K K' \<Longrightarrow> below (parse_type_array K x) (parse_type_array K' x)"
  unfolding parse_type_array_def Let_def by (rule mono cong | assumption)+

lemma parse_type_tuple_mono [mono]: "calls_below K K' \<Longrightarrow> below (parse_type_tuple K x) (parse_type_tuple K' x)"
  unfolding parse_type_tuple_def Let_def by (rule mono cong | assumption)+

lemma parse_type_base_mono [mono]: "calls_below K K' \<Longrightarrow> below (parse_type_base K x) (parse_type_base K' x)"
  unfolding parse_type_base_def Let_def by (rule mono cong | assumption)+

lemma parse_type_mono [mono]: "calls_below K K' \<Longrightarrow> below (parse_type K x) (parse_type K' x)"
  unfolding parse_type_def Let_def by (rule mono cong | assumption)+

lemma parse_type_annotation_mono [mono]: "calls_below K K' \<Longrightarrow> below (parse_type_annotation K x) (parse_type_annotation K' x)"
  unfolding parse_type_annotation_def Let_def by (rule mono cong | assumption)+

lemma attr_args_mono [mono]: "n \<le> n' \<Longrightarrow> below (attr_args n a p) (attr_args n' a p)"
  unfolding attr_args_def Let_def by (rule mono cong | assumption)+

lemma parse_attribute_mono [mono]: "calls_below K K' \<Longrightarrow> below (parse_attribute K x) (parse_attribute K' x)"
  unfolding parse_attribute_def Let_def by (rule mono cong | assumption)+

lemma interp_expr_mono [mono]: "calls_below K K' \<Longrightarrow> below (interp_expr K x y z w v) (interp_expr K' x y z w v)"
  unfolding interp_expr_def Let_def by (rule mono cong | assumption)+

lemma interp_loop_mono [mono]:
  assumes "calls_below K K'"
  shows "below (interp_loop K loc s e i st r found) (interp_loop K' loc s e i st r found)"
  using assms
proof (induction K loc s e i st r found rule: interp_loop.induct)
  case (1 K loc s e i st r found)
  note expr = interp_expr_mono [OF "1.prems"]
  show ?case
    unfolding interp_loop.simps [of K loc s e i] interp_loop.simps [of K' loc s e i] Let_def
    using 1 expr
    by (auto simp: below_def split: prod.split option.split)
qed

lemma parse_string_literal_mono [mono]: "calls_below K K' \<Longrightarrow> below (parse_string_literal K x) (parse_string_literal K' x)"
  unfolding parse_string_literal_def Let_def by (rule mono cong | assumption)+

lemma match_arms_step_mono [mono]: "calls_below K K' \<Longrightarrow> below (match_arms_step K x) (match_arms_step K' x)"
  unfolding match_arms_step_def Let_def by (rule mono cong | assumption)+

lemma parse_match_mono [mono]: "calls_below K K' \<Longrightarrow> below (parse_match K x) (parse_match K' x)"
  unfolding parse_match_def Let_def by (rule mono cong | assumption)+

lemma array_step_mono [mono]: "calls_below K K' \<Longrightarrow> below (array_step K x) (array_step K' x)"
  unfolding array_step_def Let_def by (rule mono cong | assumption)+

lemma parse_array_lit_mono [mono]: "calls_below K K' \<Longrightarrow> below (parse_array_lit K x y) (parse_array_lit K' x y)"
  unfolding parse_array_lit_def Let_def by (rule mono cong | assumption)+

lemma lambda_param_step_mono [mono]: "calls_below K K' \<Longrightarrow> below (lambda_param_step K x) (lambda_param_step K' x)"
  unfolding lambda_param_step_def Let_def by (rule mono cong | assumption)+

lemma parse_lambda_mono [mono]: "calls_below K K' \<Longrightarrow> below (parse_lambda K x y) (parse_lambda K' x y)"
  unfolding parse_lambda_def Let_def by (rule mono cong | assumption)+

lemma parse_inc_dec_mono [mono]: "calls_below K K' \<Longrightarrow> below (parse_inc_dec K x y z) (parse_inc_dec K' x y z)"
  unfolding parse_inc_dec_def Let_def by (rule mono cong | assumption)+

lemma parse_prefix_mono [mono]: "calls_below K K' \<Longrightarrow> below (parse_prefix K x) (parse_prefix K' x)"
  unfolding parse_prefix_def Let_def by (rule mono cong | assumption)+

lemma call_arg_step_mono [mono]: "calls_below K K' \<Longrightarrow> below (call_arg_step K x y) (call_arg_step K' x y)"
  unfolding call_arg_step_def Let_def by (rule mono cong | assumption)+

lemma parse_call_mono [mono]: "calls_below K K' \<Longrightarrow> below (parse_call K x y z) (parse_call K' x y z)"
  unfolding parse_call_def Let_def by (rule mono cong | assumption)+

lemma parse_index_mono [mono]: "calls_below K K' \<Longrightarrow> below (parse_index K x y z) (parse_index K' x y z)"
  unfolding parse_index_def Let_def by (rule mono cong | assumption)+

lemma parse_cast_mono [mono]: "calls_below K K' \<Longrightarrow> below (parse_cast K x y z) (parse_cast K' x y z)"
  unfolding parse_cast_def Let_def by (rule mono cong | assumption)+

lemma parse_question_mono [mono]: "calls_below K K' \<Longrightarrow> below (parse_question K x y z) (parse_question K' x y z)"
  unfolding parse_question_def Let_def by (rule mono cong | assumption)+

lemma parse_binary_mono [mono]: "calls_below K K' \<Longrightarrow> below (parse_binary K x y z) (parse_binary K' x y z)"
  unfolding parse_binary_def Let_def by (rule mono cong | assumption)+

lemma parse_infix_mono [mono]: "calls_below K K' \<Longrightarrow> below (parse_infix K x y) (parse_infix K' x y)"
  unfolding parse_infix_def Let_def by (rule mono cong | assumption)+

lemma infix_step_mono [mono]: "calls_below K K' \<Longrightarrow> below (infix_step K x y) (infix_step K' x y)"
  unfolding infix_step_def Let_def by (rule mono cong | assumption)+

lemma parse_expr_prec_mono [mono]: "calls_below K K' \<Longrightarrow> below (parse_expr_prec K x y) (parse_expr_prec K' x y)"
  unfolding parse_expr_prec_def Let_def by (rule mono cong | assumption)+

lemma arm_patterns_mono [mono]: "calls_below K K' \<Longrightarrow> below (arm_patterns K x) (arm_patterns K' x)"
  unfolding arm_patterns_def Let_def by (rule mono cong | assumption)+

lemma parse_match_arm_mono [mono]: "calls_below K K' \<Longrightarrow> below (parse_match_arm K x) (parse_match_arm K' x)"
  unfolding parse_match_arm_def Let_def by (rule mono cong | assumption)+

lemma block_step_mono [mono]: "calls_below K K' \<Longrightarrow> below (block_step K x) (block_step K' x)"
  unfolding block_step_def Let_def by (rule mono cong | assumption)+

lemma parse_block_braced_mono [mono]: "calls_below K K' \<Longrightarrow> below (parse_block_braced K x) (parse_block_braced K' x)"
  unfolding parse_block_braced_def Let_def by (rule mono cong | assumption)+

lemma open_block_step_mono [mono]: "calls_below K K' \<Longrightarrow> below (open_block_step K x) (open_block_step K' x)"
  unfolding open_block_step_def Let_def by (rule mono cong | assumption)+

lemma parse_block_mono [mono]: "calls_below K K' \<Longrightarrow> below (parse_block K x) (parse_block K' x)"
  unfolding parse_block_def Let_def by (rule mono cong | assumption)+

lemma stmt_asm_mono [mono]: "calls_below K K' \<Longrightarrow> below (stmt_asm K x) (stmt_asm K' x)"
  unfolding stmt_asm_def Let_def by (rule mono cong | assumption)+

lemma let_rest_mono [mono]: "calls_below K K' \<Longrightarrow> below (let_rest K x) (let_rest K' x)"
  unfolding let_rest_def Let_def by (rule mono cong | assumption)+

lemma stmt_let_mono [mono]: "calls_below K K' \<Longrightarrow> below (stmt_let K x) (stmt_let K' x)"
  unfolding stmt_let_def Let_def by (rule mono cong | assumption)+

lemma opt_block_mono [mono]: "calls_below K K' \<Longrightarrow> below (opt_block K x) (opt_block K' x)"
  unfolding opt_block_def Let_def by (rule mono cong | assumption)+

lemma any_block_mono [mono]: "calls_below K K' \<Longrightarrow> below (any_block K x) (any_block K' x)"
  unfolding any_block_def Let_def by (rule mono cong | assumption)+

lemma block_or_stmt_mono [mono]: "calls_below K K' \<Longrightarrow> below (block_or_stmt K x) (block_or_stmt K' x)"
  unfolding block_or_stmt_def Let_def by (rule mono cong | assumption)+

lemma stmt_if_let_mono [mono]: "calls_below K K' \<Longrightarrow> below (stmt_if_let K x) (stmt_if_let K' x)"
  unfolding stmt_if_let_def Let_def by (rule mono cong | assumption)+

lemma elif_step_mono [mono]: "calls_below K K' \<Longrightarrow> below (elif_step K x) (elif_step K' x)"
  unfolding elif_step_def Let_def by (rule mono cong | assumption)+

lemma stmt_if_mono [mono]: "calls_below K K' \<Longrightarrow> below (stmt_if K x) (stmt_if K' x)"
  unfolding stmt_if_def Let_def by (rule mono cong | assumption)+

lemma stmt_while_mono [mono]: "calls_below K K' \<Longrightarrow> below (stmt_while K x) (stmt_while K' x)"
  unfolding stmt_while_def Let_def by (rule mono cong | assumption)+

lemma stmt_for_mono [mono]: "calls_below K K' \<Longrightarrow> below (stmt_for K x) (stmt_for K' x)"
  unfolding stmt_for_def Let_def by (rule mono cong | assumption)+

lemma opt_value_mono [mono]: "calls_below K K' \<Longrightarrow> below (opt_value K x) (opt_value K' x)"
  unfolding opt_value_def Let_def by (rule mono cong | assumption)+

lemma stmt_return_mono [mono]: "calls_below K K' \<Longrightarrow> below (stmt_return K x) (stmt_return K' x)"
  unfolding stmt_return_def Let_def by (rule mono cong | assumption)+

lemma stmt_throw_mono [mono]: "calls_below K K' \<Longrightarrow> below (stmt_throw K x) (stmt_throw K' x)"
  unfolding stmt_throw_def Let_def by (rule mono cong | assumption)+

lemma stmt_defer_mono [mono]: "calls_below K K' \<Longrightarrow> below (stmt_defer K x) (stmt_defer K' x)"
  unfolding stmt_defer_def Let_def by (rule mono cong | assumption)+

lemma spawn_arg_step_mono [mono]: "calls_below K K' \<Longrightarrow> below (spawn_arg_step K x) (spawn_arg_step K' x)"
  unfolding spawn_arg_step_def Let_def by (rule mono cong | assumption)+

lemma stmt_spawn_mono [mono]: "calls_below K K' \<Longrightarrow> below (stmt_spawn K x) (stmt_spawn K' x)"
  unfolding stmt_spawn_def Let_def by (rule mono cong | assumption)+

lemma stmt_region_mono [mono]: "calls_below K K' \<Longrightarrow> below (stmt_region K x) (stmt_region K' x)"
  unfolding stmt_region_def Let_def by (rule mono cong | assumption)+

lemma stmt_unsafe_mono [mono]: "calls_below K K' \<Longrightarrow> below (stmt_unsafe K x) (stmt_unsafe K' x)"
  unfolding stmt_unsafe_def Let_def by (rule mono cong | assumption)+

lemma catch_step_mono [mono]: "calls_below K K' \<Longrightarrow> below (catch_step K x) (catch_step K' x)"
  unfolding catch_step_def Let_def by (rule mono cong | assumption)+

lemma stmt_try_mono [mono]: "calls_below K K' \<Longrightarrow> below (stmt_try K x) (stmt_try K' x)"
  unfolding stmt_try_def Let_def by (rule mono cong | assumption)+

lemma stmt_attr_step_mono [mono]: "calls_below K K' \<Longrightarrow> below (stmt_attr_step K x) (stmt_attr_step K' x)"
  unfolding stmt_attr_step_def Let_def by (rule mono cong | assumption)+

lemma stmt_expr_mono [mono]: "calls_below K K' \<Longrightarrow> below (stmt_expr K x) (stmt_expr K' x)"
  unfolding stmt_expr_def Let_def by (rule mono cong | assumption)+

lemma stmt_body_mono [mono]: "calls_below K K' \<Longrightarrow> below (stmt_body K x) (stmt_body K' x)"
  unfolding stmt_body_def Let_def by (rule mono cong | assumption)+

lemma parse_statement_mono [mono]: "calls_below K K' \<Longrightarrow> below (parse_statement K x) (parse_statement K' x)"
  unfolding parse_statement_def Let_def by (rule mono cong | assumption)+

lemma param_annotation_mono [mono]: "calls_below K K' \<Longrightarrow> below (param_annotation K x) (param_annotation K' x)"
  unfolding param_annotation_def Let_def by (rule mono cong | assumption)+

lemma param_rest_mono [mono]: "calls_below K K' \<Longrightarrow> below (param_rest K x y z w) (param_rest K' x y z w)"
  unfolding param_rest_def Let_def by (rule mono cong | assumption)+

lemma param_step_mono [mono]: "calls_below K K' \<Longrightarrow> below (param_step K x) (param_step K' x)"
  unfolding param_step_def Let_def by (rule mono cong | assumption)+

lemma parse_params_mono [mono]: "calls_below K K' \<Longrightarrow> below (parse_params K x) (parse_params K' x)"
  unfolding parse_params_def Let_def by (rule mono cong | assumption)+

lemma type_param_step_mono [mono]: "calls_below K K' \<Longrightarrow> below (type_param_step K x) (type_param_step K' x)"
  unfolding type_param_step_def Let_def by (rule mono cong | assumption)+

lemma contract_step_mono [mono]: "calls_below K K' \<Longrightarrow> below (contract_step K x) (contract_step K' x)"
  unfolding contract_step_def Let_def by (rule mono cong | assumption)+

lemma func_body_mono [mono]: "calls_below K K' \<Longrightarrow> below (func_body K x y) (func_body K' x y)"
  unfolding func_body_def Let_def by (rule mono cong | assumption)+

lemma parse_func_decl_mono [mono]: "calls_below K K' \<Longrightarrow> below (parse_func_decl K x) (parse_func_decl K' x)"
  unfolding parse_func_decl_def Let_def by (rule mono cong | assumption)+

lemma struct_member_mono [mono]: "calls_below K K' \<Longrightarrow> below (struct_member K x y z) (struct_member K' x y z)"
  unfolding struct_member_def Let_def by (rule mono cong | assumption)+

lemma struct_step_mono [mono]: "calls_below K K' \<Longrightarrow> below (struct_step K x y) (struct_step K' x y)"
  unfolding struct_step_def Let_def by (rule mono cong | assumption)+

lemma parse_struct_decl_mono [mono]: "calls_below K K' \<Longrightarrow> below (parse_struct_decl K x y z) (parse_struct_decl K' x y z)"
  unfolding parse_struct_decl_def Let_def by (rule mono cong | assumption)+

lemma enum_step_mono [mono]: "calls_below K K' \<Longrightarrow> below (enum_step K x) (enum_step K' x)"
  unfolding enum_step_def Let_def by (rule mono cong | assumption)+

lemma parse_enum_decl_mono [mono]: "calls_below K K' \<Longrightarrow> below (parse_enum_decl K x y) (parse_enum_decl K' x y)"
  unfolding parse_enum_decl_def Let_def by (rule mono cong | assumption)+

lemma decl_attr_step_mono [mono]: "calls_below K K' \<Longrightarrow> below (decl_attr_step K x) (decl_attr_step K' x)"
  unfolding decl_attr_step_def Let_def by (rule mono cong | assumption)+

lemma decl_func_mono [mono]: "calls_below K K' \<Longrightarrow> below (decl_func K x y z w) (decl_func K' x y z w)"
  unfolding decl_func_def Let_def by (rule mono cong | assumption)+

lemma decl_sys_mono [mono]: "calls_below K K' \<Longrightarrow> below (decl_sys K x y z) (decl_sys K' x y z)"
  unfolding decl_sys_def Let_def by (rule mono cong | assumption)+

lemma decl_const_mono [mono]: "calls_below K K' \<Longrightarrow> below (decl_const K x y) (decl_const K' x y)"
  unfolding decl_const_def Let_def by (rule mono cong | assumption)+

lemma decl_let_mono [mono]: "calls_below K K' \<Longrightarrow> below (decl_let K x y) (decl_let K' x y)"
  unfolding decl_let_def Let_def by (rule mono cong | assumption)+

lemma module_step_mono [mono]: "calls_below K K' \<Longrightarrow> below (module_step K x) (module_step K' x)"
  unfolding module_step_def Let_def by (rule mono cong | assumption)+

lemma decl_module_mono [mono]: "calls_below K K' \<Longrightarrow> below (decl_module K x y z) (decl_module K' x y z)"
  unfolding decl_module_def Let_def by (rule mono cong | assumption)+

lemma method_step_mono [mono]: "calls_below K K' \<Longrightarrow> below (method_step K x) (method_step K' x)"
  unfolding method_step_def Let_def by (rule mono cong | assumption)+

lemma method_list_mono [mono]: "calls_below K K' \<Longrightarrow> below (method_list K x) (method_list K' x)"
  unfolding method_list_def Let_def by (rule mono cong | assumption)+

lemma decl_trait_mono [mono]: "calls_below K K' \<Longrightarrow> below (decl_trait K x y z) (decl_trait K' x y z)"
  unfolding decl_trait_def Let_def by (rule mono cong | assumption)+

lemma decl_protocol_mono [mono]: "calls_below K K' \<Longrightarrow> below (decl_protocol K x y) (decl_protocol K' x y)"
  unfolding decl_protocol_def Let_def by (rule mono cong | assumption)+

lemma decl_impl_mono [mono]: "calls_below K K' \<Longrightarrow> below (decl_impl K x y) (decl_impl K' x y)"
  unfolding decl_impl_def Let_def by (rule mono cong | assumption)+

lemma decl_type_mono [mono]: "calls_below K K' \<Longrightarrow> below (decl_type K x y) (decl_type K' x y)"
  unfolding decl_type_def Let_def by (rule mono cong | assumption)+

lemma run_step_mono [mono]: "calls_below K K' \<Longrightarrow> below (run_step K x) (run_step K' x)"
  unfolding run_step_def Let_def by (rule mono cong | assumption)+

lemma decl_run_mono [mono]: "calls_below K K' \<Longrightarrow> below (decl_run K x y) (decl_run K' x y)"
  unfolding decl_run_def Let_def by (rule mono cong | assumption)+

lemma add_decl_mono [mono]: "below r r' \<Longrightarrow> below (add_decl ds r) (add_decl ds r')"
  unfolding add_decl_def by (rule mono cong | assumption)+

lemma decl_keyword_mono [mono]: "calls_below K K' \<Longrightarrow> below (decl_keyword K x y z w) (decl_keyword K' x y z w)"
  unfolding decl_keyword_def Let_def by (rule mono cong | assumption)+

lemma parse_declaration_mono [mono]: "calls_below K K' \<Longrightarrow> below (parse_declaration K x y) (parse_declaration K' x y)"
  unfolding parse_declaration_def Let_def by (rule mono cong | assumption)+

lemma program_step_mono [mono]: "calls_below K K' \<Longrightarrow> below (program_step K x) (program_step K' x)"
  unfolding program_step_def Let_def by (rule mono cong | assumption)+

section \<open>The parser\<close>

lemma calls_at_mono: "n \<le> m \<Longrightarrow> calls_below (calls_at n) (calls_at m)"
proof (induction n arbitrary: m)
  case 0
  then show ?case by (simp add: calls_below_def below_None)
next
  case (Suc n)
  then obtain k where m: "m = Suc k" "n \<le> k" by (cases m) auto
  note rules = parse_type_mono parse_expr_prec_mono parse_prefix_mono parse_infix_mono parse_match_arm_mono
    parse_block_braced_mono parse_statement_mono parse_declaration_mono
  have "calls_below (calls_at n) (calls_at k)" using Suc.IH m(2) by simp
  note step = rules [OF this]
  show ?case
    unfolding m(1) calls_at.simps Let_def by (subst calls_below_def) (simp add: step m(2))
qed

lemma parser_parse_below: "n \<le> m \<Longrightarrow> below (parser_parse n p) (parser_parse m p)"
  unfolding parser_parse_def Let_def by (rule calls_at_mono mono cong | assumption)+

lemma parser_parse_more: "parser_parse n p = Some r \<Longrightarrow> n \<le> m \<Longrightarrow> parser_parse m p = Some r"
  using parser_parse_below [of n m p] by (simp add: below_def)

end
