(* ===== verification/ParserTotal.thy ===== *)
theory ParserTotal
  imports ParserExprTotal ParserFuel
begin

text \<open>
  Statements and declarations return on sources without a bar, and so does the parser.
\<close>

section \<open>Statements\<close>

text \<open>Behind the keyword it is enough that nothing grows.\<close>

lemma left_advance_le: "good p \<Longrightarrow> p_left p \<le> m \<Longrightarrow> p_left (parser_advance p) \<le> m"
  using left_advance [of p m] by simp

lemma calls_slack:
  assumes "calls_ok n K" "good p" "p_left p \<le> L"
  shows "5 * L + 1 \<le> n \<Longrightarrow> tot L (c_type K p)" "5 * L + 2 \<le> n \<Longrightarrow> tot L (c_expr K prec p)"
    "5 * L + 3 \<le> n \<Longrightarrow> tot L (c_stmt K p)"
  by (rule calls_ok_rules [OF assms, THEN tot_weaken], assumption, simp)+

lemmas slack = left_advance_le calls_slack

lemma asm_output_step_tot [vcg]:
  assumes "good p" "p_left p = L"
  shows "stot L (asm_output_step (outs, p))"
  unfolding asm_output_step_def Let_def using assms eq_refl [OF assms(2)]
  by - (rule stot_ends if_check vcg tot_bind stot_bind tot_calls case_pure tot_pure case_pair | assumption | linarith | rule weak)+

lemma good_left_asm_capture: "good p \<Longrightarrow> p_left p \<le> L \<Longrightarrow> ptot L (asm_capture s d e p)"
proof (induction s d e p rule: asm_capture.induct)
  case (1 s d e p)
  then show ?case
    by (subst asm_capture.simps) (auto simp: Let_def ptot_def good_advance left_advance_weak)
qed

lemmas [vcg] = good_left_asm_capture

lemma stmt_asm_tot [vcg]:
  assumes "calls_ok n K" "good p" "p_left p \<le> L" "5 * L + 4 \<le> n"
  shows "tot L (stmt_asm K p)"
  unfolding stmt_asm_def Let_def using assms
  by - (rule slack stot_ends if_check vcg tot_bind stot_bind tot_calls case_pure tot_pure case_pair | assumption | linarith | rule weak)+

lemma let_rest_tot [vcg]:
  assumes "calls_ok n K" "good p" "p_left p \<le> L" "5 * L + 4 \<le> n"
  shows "tot L (let_rest K p)"
  unfolding let_rest_def Let_def using assms
  by - (rule slack stot_ends if_check vcg tot_bind stot_bind tot_calls case_pure tot_pure case_pair | assumption | linarith | rule weak)+

lemma stmt_let_tot [vcg]:
  assumes "calls_ok n K" "good p" "p_left p \<le> L" "5 * L + 4 \<le> n"
  shows "tot L (stmt_let K p)"
  unfolding stmt_let_def Let_def using assms
  by - (rule slack stot_ends if_check vcg tot_bind stot_bind tot_calls case_pure tot_pure case_pair | assumption | linarith | rule weak)+

lemma opt_block_tot [vcg]:
  assumes "calls_ok n K" "good p" "p_left p \<le> L" "5 * L + 4 \<le> n"
  shows "tot L (opt_block K p)"
  unfolding opt_block_def Let_def using assms
  by - (rule slack stot_ends if_check vcg tot_bind stot_bind tot_calls case_pure tot_pure case_pair | assumption | linarith | rule weak)+

lemma any_block_tot [vcg]:
  assumes "calls_ok n K" "good p" "p_left p \<le> L" "5 * L + 4 \<le> n"
  shows "tot L (any_block K p)"
  unfolding any_block_def Let_def using assms
  by - (rule slack stot_ends if_check vcg tot_bind stot_bind tot_calls case_pure tot_pure case_pair | assumption | linarith | rule weak)+

lemma block_or_stmt_tot [vcg]:
  assumes "calls_ok n K" "good p" "p_left p \<le> L" "5 * L + 4 \<le> n"
  shows "tot L (block_or_stmt K p)"
  unfolding block_or_stmt_def Let_def using assms
  by - (rule slack stot_ends if_check vcg tot_bind stot_bind tot_calls case_pure tot_pure case_pair | assumption | linarith | rule weak)+

lemma stmt_if_let_tot [vcg]:
  assumes "calls_ok n K" "good p" "p_left p \<le> L" "5 * L + 4 \<le> n"
  shows "tot L (stmt_if_let K p)"
  unfolding stmt_if_let_def Let_def using assms
  by - (rule slack stot_ends if_check vcg tot_bind stot_bind tot_calls case_pure tot_pure case_pair | assumption | linarith | rule weak)+

lemma elif_step_tot [vcg]:
  assumes "calls_ok n K" "good p" "p_left p = L" "5 * L + 2 \<le> n"
  shows "stot L (elif_step K (es, p))"
  unfolding elif_step_def Let_def using assms eq_refl [OF assms(3)]
  by - (rule stot_ends if_check vcg tot_bind stot_bind tot_calls case_pure tot_pure case_pair | assumption | linarith | rule weak)+

lemma stmt_if_tot [vcg]:
  assumes "calls_ok n K" "good p" "p_left p \<le> L" "5 * L + 4 \<le> n"
  shows "tot L (stmt_if K p)"
  unfolding stmt_if_def Let_def using assms
  by - (rule slack stot_ends if_check vcg tot_bind stot_bind tot_calls case_pure tot_pure case_pair | assumption | linarith | rule weak)+

lemma stmt_while_tot [vcg]:
  assumes "calls_ok n K" "good p" "p_left p \<le> L" "5 * L + 4 \<le> n"
  shows "tot L (stmt_while K p)"
  unfolding stmt_while_def Let_def using assms
  by - (rule slack stot_ends if_check vcg tot_bind stot_bind tot_calls case_pure tot_pure case_pair | assumption | linarith | rule weak)+

lemma for_vars_tot [vcg]:
  assumes "good p" "p_left p \<le> L"
  shows "ptot L (for_vars p)"
  unfolding for_vars_def Let_def using assms
  by - (rule stot_ends if_check vcg tot_bind stot_bind tot_calls case_pure tot_pure case_pair | assumption | linarith | rule weak)+

lemma stmt_for_tot [vcg]:
  assumes "calls_ok n K" "good p" "p_left p \<le> L" "5 * L + 4 \<le> n"
  shows "tot L (stmt_for K p)"
  unfolding stmt_for_def Let_def using assms
  by - (rule slack stot_ends if_check vcg tot_bind stot_bind tot_calls case_pure tot_pure case_pair | assumption | linarith | rule weak)+

lemma opt_value_tot [vcg]:
  assumes "calls_ok n K" "good p" "p_left p \<le> L" "5 * L + 4 \<le> n"
  shows "tot L (opt_value K p)"
  unfolding opt_value_def Let_def using assms
  by - (rule slack stot_ends if_check vcg tot_bind stot_bind tot_calls case_pure tot_pure case_pair | assumption | linarith | rule weak)+

lemma stmt_return_tot [vcg]:
  assumes "calls_ok n K" "good p" "p_left p \<le> L" "5 * L + 4 \<le> n"
  shows "tot L (stmt_return K p)"
  unfolding stmt_return_def Let_def using assms
  by - (rule slack stot_ends if_check vcg tot_bind stot_bind tot_calls case_pure tot_pure case_pair | assumption | linarith | rule weak)+

lemma stmt_throw_tot [vcg]:
  assumes "calls_ok n K" "good p" "p_left p \<le> L" "5 * L + 4 \<le> n"
  shows "tot L (stmt_throw K p)"
  unfolding stmt_throw_def Let_def using assms
  by - (rule slack stot_ends if_check vcg tot_bind stot_bind tot_calls case_pure tot_pure case_pair | assumption | linarith | rule weak)+

lemma stmt_jump_tot [vcg]:
  assumes "good p" "p_left p \<le> L"
  shows "ptot L (stmt_jump ty p)"
  unfolding stmt_jump_def Let_def using assms
  by - (rule stot_ends if_check vcg tot_bind stot_bind tot_calls case_pure tot_pure case_pair | assumption | linarith | rule weak)+

lemma stmt_defer_tot [vcg]:
  assumes "calls_ok n K" "good p" "p_left p \<le> L" "5 * L + 4 \<le> n"
  shows "tot L (stmt_defer K p)"
  unfolding stmt_defer_def Let_def using assms
  by - (rule slack stot_ends if_check vcg tot_bind stot_bind tot_calls case_pure tot_pure case_pair | assumption | linarith | rule weak)+

lemma spawn_arg_step_tot [vcg]:
  assumes "calls_ok n K" "good p" "p_left p = L" "5 * L + 2 \<le> n"
  shows "stot L (spawn_arg_step K (args, p))"
  unfolding spawn_arg_step_def Let_def using assms eq_refl [OF assms(3)]
  by - (rule stot_ends if_check vcg tot_bind stot_bind tot_calls case_pure tot_pure case_pair | assumption | linarith | rule weak)+

lemma stmt_spawn_tot [vcg]:
  assumes "calls_ok n K" "good p" "p_left p \<le> L" "5 * L + 4 \<le> n"
  shows "tot L (stmt_spawn K p)"
  unfolding stmt_spawn_def Let_def using assms
  by - (rule slack stot_ends if_check vcg tot_bind stot_bind tot_calls case_pure tot_pure case_pair | assumption | linarith | rule weak)+

lemma region_name_tot [vcg]:
  assumes "good p" "p_left p \<le> L"
  shows "ptot L (if parser_check p ty then (s, parser_advance p) else (s', p))"
  using assms by (auto simp: ptot_def good_advance left_advance_le)

lemma stmt_region_tot [vcg]:
  assumes "calls_ok n K" "good p" "p_left p \<le> L" "5 * L + 4 \<le> n"
  shows "tot L (stmt_region K p)"
  unfolding stmt_region_def Let_def using assms
  by - (rule slack stot_ends if_check vcg tot_bind stot_bind tot_calls case_pure tot_pure case_pair | assumption | linarith | rule weak)+

lemma stmt_unsafe_tot [vcg]:
  assumes "calls_ok n K" "good p" "p_left p \<le> L" "5 * L + 4 \<le> n"
  shows "tot L (stmt_unsafe K p)"
  unfolding stmt_unsafe_def Let_def using assms
  by - (rule slack stot_ends if_check vcg tot_bind stot_bind tot_calls case_pure tot_pure case_pair | assumption | linarith | rule weak)+

lemma catch_head_tot [vcg]:
  assumes "good p" "p_left p \<le> L"
  shows "ptot L (catch_head p)"
  unfolding catch_head_def Let_def using assms
  by - (rule stot_ends if_check vcg tot_bind stot_bind tot_calls case_pure tot_pure case_pair | assumption | linarith | rule weak)+

lemma catch_step_tot [vcg]:
  assumes "calls_ok n K" "good p" "p_left p = L" "5 * L + 2 \<le> n"
  shows "stot L (catch_step K (arms, p))"
  unfolding catch_step_def Let_def using assms eq_refl [OF assms(3)]
  by - (rule stot_ends if_check vcg tot_bind stot_bind tot_calls case_pure tot_pure case_pair | assumption | linarith | rule weak)+

lemma stmt_try_tot [vcg]:
  assumes "calls_ok n K" "good p" "p_left p \<le> L" "5 * L + 4 \<le> n"
  shows "tot L (stmt_try K p)"
  unfolding stmt_try_def Let_def using assms
  by - (rule slack stot_ends if_check vcg tot_bind stot_bind tot_calls case_pure tot_pure case_pair | assumption | linarith | rule weak)+

lemma stmt_attr_step_tot [vcg]:
  assumes "calls_ok n K" "good p" "p_left p = L" "5 * L + 1 \<le> n"
  shows "stot L (stmt_attr_step K (u, p))"
  unfolding stmt_attr_step_def Let_def using assms eq_refl [OF assms(3)]
  by - (rule stot_ends if_check vcg tot_bind stot_bind tot_calls case_pure tot_pure case_pair | assumption | linarith | rule weak)+

lemma stmt_expr_tot [vcg]:
  assumes "calls_ok n K" "good p" "p_left p \<le> L" "5 * L + 2 \<le> n"
  shows "tot (L - 1) (stmt_expr K p)"
  unfolding stmt_expr_def Let_def using assms
  by - (rule stot_ends if_check vcg tot_bind stot_bind tot_calls case_pure tot_pure case_pair | assumption | linarith | rule weak)+

lemma stmt_body_tot [vcg]:
  assumes "calls_ok n K" "good p" "p_left p \<le> L" "5 * L + 2 \<le> n"
  shows "tot (L - 1) (stmt_body K p)"
  unfolding stmt_body_def Let_def using assms
  by - (rule stot_ends if_check vcg tot_bind stot_bind tot_calls case_pure tot_pure case_pair | assumption | linarith | rule weak)+

lemma good_sync_if [vcg]:
  assumes "good p" "p_left p \<le> L"
  shows "good (if b then parser_sync p else p)" "p_left (if b then parser_sync p else p) \<le> L"
  using assms by (auto simp: good_sync left_sync)

lemma eof_left: "good p \<Longrightarrow> parser_check p TOKEN_EOF \<Longrightarrow> p_left p \<le> m"
  using good_eof [of p] by (simp add: good_check)

lemma parse_statement_tot [vcg]:
  assumes "calls_ok n K" "good p" "p_left p \<le> L" "5 * L + 2 \<le> n"
  shows "tot (L - 1) (parse_statement K p)"
proof -
  define q where "q = (if panic_mode p then parser_sync p else p)"
  have q: "good q" "p_left q \<le> L" using good_sync_if [OF assms(2,3)] by (simp_all add: q_def)
  have body: "tot (L - 1) (loop (c_fuel K) (stmt_attr_step K) ((), q) \<bind> (\<lambda>(_, p). stmt_body K p))"
    using assms(1,4) q
    by - (rule stot_ends if_check vcg tot_bind stot_bind tot_calls case_pure tot_pure case_pair | assumption | linarith | rule weak)+
  show ?thesis
    unfolding parse_statement_def Let_def q_def [symmetric]
    using body eof_left [OF q(1)] q(1) by (auto intro!: tot_Some [where k = 0])
qed

section \<open>Declarations\<close>

lemma match_dots_tot [vcg]:
  assumes "good p" "p_left p \<le> L"
  shows "ptot L (match_dots p)"
  unfolding match_dots_def Let_def using assms
  by - (rule stot_ends if_check vcg tot_bind stot_bind tot_calls case_pure tot_pure case_pair | assumption | linarith | rule weak)+

lemma if_name:
  assumes "good p" "p_left p \<le> L" "stot m r" "0 < L \<Longrightarrow> stot m s"
  shows "stot m (if \<not> parser_check p TOKEN_IDENT \<and> \<not> parser_check p (KW TOKEN_KW_SELF) then r else s)"
  using assms check_pos [OF assms(1) _ _ assms(2), of TOKEN_IDENT] check_pos [OF assms(1) _ _ assms(2), of "KW TOKEN_KW_SELF"]
  by auto

lemma param_annotation_tot [vcg]:
  assumes "calls_ok n K" "good p" "p_left p \<le> L" "5 * L + 1 \<le> n"
  shows "tot L (param_annotation K p)"
  unfolding param_annotation_def Let_def using assms
  by - (rule stot_ends if_check vcg tot_bind stot_bind tot_calls case_pure tot_pure case_pair | assumption | linarith | rule weak)+

lemma param_rest_tot [vcg]:
  assumes "calls_ok n K" "good p" "p_left p \<le> L" "5 * L + 2 \<le> n" "0 < L"
  shows "stot L (param_rest K is_mut dots ps p)"
  unfolding param_rest_def Let_def using assms
  by - (rule stot_ends if_check vcg bind_case_pure tot_bind stot_bind tot_calls case_pure tot_pure case_pair | assumption | linarith | rule weak)+

lemma param_step_tot [vcg]:
  assumes "calls_ok n K" "good p" "p_left p = L" "5 * L + 2 \<le> n"
  shows "stot L (param_step K (ps, p))"
  unfolding param_step_def Let_def using assms eq_refl [OF assms(3)]
  by - (rule if_name stot_ends if_check vcg tot_bind stot_bind tot_calls case_pure tot_pure case_pair | assumption | linarith | rule weak)+

lemma parse_params_tot [vcg]:
  assumes "calls_ok n K" "good p" "p_left p \<le> L" "5 * L + 4 \<le> n"
  shows "tot L (parse_params K p)"
  unfolding parse_params_def Let_def using assms
  by - (rule slack stot_ends if_check vcg tot_bind stot_bind tot_calls case_pure tot_pure case_pair | assumption | linarith | rule weak)+

lemma type_param_step_tot [vcg]:
  assumes "calls_ok n K" "good p" "p_left p = L" "5 * L + 2 \<le> n"
  shows "stot L (type_param_step K (ps, p))"
  unfolding type_param_step_def Let_def using assms eq_refl [OF assms(3)]
  by - (rule stot_ends if_check vcg tot_bind stot_bind tot_calls case_pure tot_pure case_pair | assumption | linarith | rule weak)+

lemma contract_step_tot [vcg]:
  assumes "calls_ok n K" "good p" "p_left p = L" "5 * L + 2 \<le> n"
  shows "stot L (contract_step K (cs, p))"
  unfolding contract_step_def Let_def using assms eq_refl [OF assms(3)]
  by - (rule stot_ends if_check vcg tot_bind stot_bind tot_calls case_pure tot_pure case_pair | assumption | linarith | rule weak)+

lemma func_body_tot [vcg]:
  assumes "calls_ok n K" "good p" "p_left p \<le> L" "5 * L + 4 \<le> n"
  shows "tot L (func_body K loc p)"
  unfolding func_body_def Let_def using assms
  by - (rule slack stot_ends if_check vcg tot_bind stot_bind tot_calls case_pure tot_pure case_pair | assumption | linarith | rule weak)+

lemma parse_func_decl_tot [vcg]:
  assumes "calls_ok n K" "good p" "p_left p \<le> L" "5 * L + 4 \<le> n"
  shows "tot L (parse_func_decl K p)"
  unfolding parse_func_decl_def Let_def using assms
  by - (rule slack stot_ends if_check vcg tot_bind stot_bind tot_calls case_pure tot_pure case_pair | assumption | linarith | rule weak)+

lemma struct_member_tot [vcg]:
  assumes "calls_ok n K" "good p" "p_left p = L" "5 * L + 3 \<le> n"
  shows "stot L (struct_member K name ms p)"
  unfolding struct_member_def Let_def using assms eq_refl [OF assms(3)]
  by - (rule stot_ends if_check vcg tot_bind stot_bind tot_calls case_pure tot_pure case_pair | assumption | linarith | rule weak)+

lemma struct_step_tot [vcg]:
  assumes "calls_ok n K" "good p" "p_left p = L" "5 * L + 3 \<le> n"
  shows "stot L (struct_step K name (ms, p))"
  unfolding struct_step_def Let_def using assms eq_refl [OF assms(3)]
  by - (rule stot_ends if_check vcg tot_bind stot_bind tot_calls case_pure tot_pure case_pair | assumption | linarith | rule weak)+

lemma parse_struct_decl_tot [vcg]:
  assumes "calls_ok n K" "good p" "p_left p \<le> L" "5 * L + 4 \<le> n"
  shows "tot L (parse_struct_decl K ty is_pub p)"
  unfolding parse_struct_decl_def Let_def using assms
  by - (rule slack stot_ends if_check vcg tot_bind stot_bind tot_calls case_pure tot_pure case_pair | assumption | linarith | rule weak)+

lemma enum_step_tot [vcg]:
  assumes "calls_ok n K" "good p" "p_left p = L" "5 * L + 3 \<le> n"
  shows "stot L (enum_step K (vs, p))"
  unfolding enum_step_def Let_def using assms eq_refl [OF assms(3)]
  by - (rule stot_ends if_check vcg tot_bind stot_bind tot_calls case_pure tot_pure case_pair | assumption | linarith | rule weak)+

lemma parse_enum_decl_tot [vcg]:
  assumes "calls_ok n K" "good p" "p_left p \<le> L" "5 * L + 4 \<le> n"
  shows "tot L (parse_enum_decl K is_pub p)"
  unfolding parse_enum_decl_def Let_def using assms
  by - (rule slack stot_ends if_check vcg tot_bind stot_bind tot_calls case_pure tot_pure case_pair | assumption | linarith | rule weak)+

lemma parse_modifiers_tot [vcg]:
  assumes "good p" "p_left p \<le> L"
  shows "ptot L (parse_modifiers p)"
  unfolding parse_modifiers_def Let_def using assms
  by - (rule stot_ends if_check vcg tot_bind stot_bind tot_calls case_pure tot_pure case_pair | assumption | linarith | rule weak)+

lemma decl_attr_step_tot [vcg]:
  assumes "calls_ok n K" "good p" "p_left p = L" "5 * L + 2 \<le> n"
  shows "stot L (decl_attr_step K (a, p))"
  unfolding decl_attr_step_def Let_def using assms eq_refl [OF assms(3)]
  by - (rule stot_ends if_check vcg tot_bind stot_bind tot_calls case_pure tot_pure case_pair | assumption | linarith | rule weak)+

lemma decl_func_tot [vcg]:
  assumes "calls_ok n K" "good p" "p_left p \<le> L" "5 * L + 4 \<le> n"
  shows "tot L (decl_func K m attr decls p)"
  unfolding decl_func_def Let_def using assms
  by - (rule slack stot_ends if_check vcg tot_bind stot_bind tot_calls case_pure tot_pure case_pair | assumption | linarith | rule weak)+

lemma sys_at_tot [vcg]:
  assumes "good p" "p_left p \<le> L"
  shows "ptot L (sys_at p)"
  unfolding sys_at_def Let_def using assms
  by - (rule stot_ends if_check vcg tot_bind stot_bind tot_calls case_pure tot_pure case_pair | assumption | linarith | rule weak)+

lemma decl_sys_tot [vcg]:
  assumes "calls_ok n K" "good p" "p_left p \<le> L" "5 * L + 4 \<le> n"
  shows "tot L (decl_sys K m decls p)"
  unfolding decl_sys_def Let_def using assms
  by - (rule slack stot_ends if_check vcg tot_bind stot_bind tot_calls case_pure tot_pure case_pair | assumption | linarith | rule weak)+

lemma decl_const_tot [vcg]:
  assumes "calls_ok n K" "good p" "p_left p \<le> L" "5 * L + 4 \<le> n"
  shows "tot L (decl_const K decls p)"
  unfolding decl_const_def Let_def using assms
  by - (rule slack stot_ends if_check vcg tot_bind stot_bind tot_calls case_pure tot_pure case_pair | assumption | linarith | rule weak)+

lemma decl_let_tot [vcg]:
  assumes "calls_ok n K" "good p" "p_left p \<le> L" "5 * L + 4 \<le> n"
  shows "tot L (decl_let K decls p)"
  unfolding decl_let_def Let_def using assms
  by - (rule slack stot_ends if_check vcg tot_bind stot_bind tot_calls case_pure tot_pure case_pair | assumption | linarith | rule weak)+

lemma decl_import_tot [vcg]:
  assumes "good p" "p_left p \<le> L"
  shows "ptot L (decl_import decls p)"
  unfolding decl_import_def Let_def using assms
  by - (rule stot_ends if_check vcg tot_bind stot_bind tot_calls case_pure tot_pure case_pair | assumption | linarith | rule weak)+

lemma module_step_tot [vcg]:
  assumes "calls_ok n K" "good p" "p_left p = L" "5 * L + 4 \<le> n"
  shows "stot L (module_step K (decls, p))"
  unfolding module_step_def Let_def using assms eq_refl [OF assms(3)]
  by - (rule stot_ends if_check vcg tot_bind stot_bind tot_calls case_pure tot_pure case_pair | assumption | linarith | rule weak)+

lemma decl_module_tot [vcg]:
  assumes "calls_ok n K" "good p" "p_left p \<le> L" "5 * L + 4 \<le> n"
  shows "tot L (decl_module K attr decls p)"
  unfolding decl_module_def Let_def using assms
  by - (rule slack stot_ends if_check vcg tot_bind stot_bind tot_calls case_pure tot_pure case_pair | assumption | linarith | rule weak)+

lemma good_left_asm_skip: "good p \<Longrightarrow> p_left p \<le> L \<Longrightarrow> good (asm_skip d p) \<and> p_left (asm_skip d p) \<le> L"
proof (induction d p rule: asm_skip.induct)
  case (1 d p)
  then show ?case
    by (auto simp: Let_def good_advance left_advance_le asm_skip.simps [of d p])
qed

lemmas [vcg] = good_left_asm_skip [THEN conjunct1] good_left_asm_skip [THEN conjunct2]

lemma decl_asm_tot [vcg]:
  assumes "good p" "p_left p \<le> L"
  shows "ptot L (decl_asm decls p)"
  unfolding decl_asm_def Let_def using assms
  by - (rule stot_ends if_check vcg tot_bind stot_bind tot_calls case_pure tot_pure case_pair | assumption | linarith | rule weak)+

lemma method_step_tot [vcg]:
  assumes "calls_ok n K" "good p" "p_left p = L" "5 * L + 4 \<le> n"
  shows "stot L (method_step K (ms, p))"
  unfolding method_step_def Let_def using assms eq_refl [OF assms(3)]
  by - (rule stot_ends if_check vcg tot_bind stot_bind tot_calls case_pure tot_pure case_pair | assumption | linarith | rule weak)+

lemma method_list_tot [vcg]:
  assumes "calls_ok n K" "good p" "p_left p \<le> L" "5 * L + 4 \<le> n"
  shows "tot L (method_list K p)"
  unfolding method_list_def Let_def using assms
  by - (rule slack stot_ends if_check vcg tot_bind stot_bind tot_calls case_pure tot_pure case_pair | assumption | linarith | rule weak)+

lemma decl_trait_tot [vcg]:
  assumes "calls_ok n K" "good p" "p_left p \<le> L" "5 * L + 4 \<le> n"
  shows "tot L (decl_trait K is_pub decls p)"
  unfolding decl_trait_def Let_def using assms
  by - (rule slack stot_ends if_check vcg tot_bind stot_bind tot_calls case_pure tot_pure case_pair | assumption | linarith | rule weak)+

lemma decl_protocol_tot [vcg]:
  assumes "calls_ok n K" "good p" "p_left p \<le> L" "5 * L + 4 \<le> n"
  shows "tot L (decl_protocol K decls p)"
  unfolding decl_protocol_def Let_def using assms
  by - (rule slack stot_ends if_check vcg tot_bind stot_bind tot_calls case_pure tot_pure case_pair | assumption | linarith | rule weak)+

lemma decl_impl_tot [vcg]:
  assumes "calls_ok n K" "good p" "p_left p \<le> L" "5 * L + 4 \<le> n"
  shows "tot L (decl_impl K decls p)"
  unfolding decl_impl_def Let_def using assms
  by - (rule slack stot_ends if_check vcg tot_bind stot_bind tot_calls case_pure tot_pure case_pair | assumption | linarith | rule weak)+

lemma pool_field_tot [vcg]:
  assumes "good p" "p_left p \<le> L"
  shows "ptot L (pool_field w p)"
  unfolding pool_field_def Let_def using assms
  by - (rule stot_ends if_check vcg tot_bind stot_bind tot_calls case_pure tot_pure case_pair | assumption | linarith | rule weak)+

lemma pool_opt_field_tot [vcg]:
  assumes "good p" "p_left p \<le> L"
  shows "ptot L (pool_opt_field w p)"
  unfolding pool_opt_field_def Let_def using assms
  by - (rule stot_ends if_check vcg tot_bind stot_bind tot_calls case_pure tot_pure case_pair | assumption | linarith | rule weak)+

lemma pool_shape_tot [vcg]:
  assumes "good p" "p_left p \<le> L"
  shows "ptot L (pool_shape p)"
  unfolding pool_shape_def Let_def using assms
  by - (rule stot_ends if_check vcg tot_bind stot_bind tot_calls case_pure tot_pure case_pair | assumption | linarith | rule weak)+

lemma decl_pool_tot [vcg]:
  assumes "good p" "p_left p \<le> L"
  shows "ptot L (decl_pool decls p)"
  unfolding decl_pool_def Let_def using assms
  by - (rule stot_ends if_check vcg tot_bind stot_bind tot_calls case_pure tot_pure case_pair | assumption | linarith | rule weak)+

lemma decl_type_tot [vcg]:
  assumes "calls_ok n K" "good p" "p_left p \<le> L" "5 * L + 4 \<le> n"
  shows "tot L (decl_type K decls p)"
  unfolding decl_type_def Let_def using assms
  by - (rule slack stot_ends if_check vcg tot_bind stot_bind tot_calls case_pure tot_pure case_pair | assumption | linarith | rule weak)+

lemma run_step_tot [vcg]:
  assumes "calls_ok n K" "good p" "p_left p = L" "5 * L + 3 \<le> n"
  shows "stot L (run_step K (stmts, p))"
  unfolding run_step_def Let_def using assms eq_refl [OF assms(3)]
  by - (rule stot_ends if_check vcg tot_bind stot_bind tot_calls case_pure tot_pure case_pair | assumption | linarith | rule weak)+

lemma decl_run_tot [vcg]:
  assumes "calls_ok n K" "good p" "p_left p \<le> L" "5 * L + 4 \<le> n"
  shows "tot L (decl_run K decls p)"
  unfolding decl_run_def Let_def using assms
  by - (rule slack stot_ends if_check vcg tot_bind stot_bind tot_calls case_pure tot_pure case_pair | assumption | linarith | rule weak)+

lemma add_decl_tot [vcg]: "tot L r \<Longrightarrow> tot L (add_decl decls r)"
  unfolding add_decl_def by (auto simp: tot_def)

lemma decl_keyword_tot [vcg]:
  assumes "calls_ok n K" "good p" "p_left p \<le> L" "5 * L + 3 \<le> n"
  shows "tot (L - 1) (decl_keyword K m attr decls p)"
  unfolding decl_keyword_def Let_def using assms
  by - (rule stot_ends if_check vcg tot_bind stot_bind tot_calls case_pure tot_pure case_pair | assumption | linarith | rule weak)+


lemma parse_declaration_tot:
  assumes "calls_ok n K" "good p" "p_left p \<le> L" "5 * L + 3 \<le> n"
  shows "tot (L - 1) (parse_declaration K decls p)"
proof -
  define q where "q = (if panic_mode p then parser_sync p else p)"
  have q: "good q" "p_left q \<le> L" using good_sync_if [OF assms(2,3)] by (simp_all add: q_def)
  have body: "tot (L - 1) (loop (c_fuel K) (decl_attr_step K) (NULL, skip_newlines q) \<bind>
      (\<lambda>(attr, p). case parse_modifiers p of (m, p) \<Rightarrow> decl_keyword K m (attr_of attr) decls p))"
    using assms(1,4) q
    by - (rule stot_ends if_check vcg tot_bind stot_bind tot_calls case_pure tot_pure case_pair | assumption | linarith | rule weak)+
  show ?thesis
    unfolding parse_declaration_def Let_def q_def [symmetric]
    using body eof_left [OF q(1)] q(1) by (auto intro!: tot_Some [where k = 0])
qed

section \<open>The knot\<close>

lemma calls_ok_at: "calls_ok n (calls_at n)"
proof (induction n)
  case 0
  then show ?case by (simp add: calls_ok_def)
next
  case (Suc n)
  note tots = parse_type_tot parse_prefix_tot parse_infix_tot parse_expr_prec_tot parse_expr_prec_unprimed
    parse_match_arm_tot parse_statement_tot parse_block_braced_tot parse_declaration_tot
  show ?case by (simp add: calls_ok_def Let_def tots [OF Suc, simplified])
qed

lemma program_step_tot:
  assumes "good p" "p_left p = L" "5 * L + 4 \<le> n"
  shows "stot L (program_step (calls_at n) (decls, p))"
  unfolding program_step_def Let_def using calls_ok_at [of n] assms eq_refl [OF assms(2)]
  by - (rule stot_ends if_check vcg tot_bind stot_bind tot_calls case_pure tot_pure case_pair | assumption | linarith | rule weak)+

lemma loop_exit:
  assumes "loop n step s = Some r" "\<And>s r. step s = Some (False, r) \<Longrightarrow> Q r"
  shows "Q r"
  using assms
proof (induction n arbitrary: s)
  case (Suc n)
  then obtain go s' where "step s = Some (go, s')" by (auto split: bind_splits)
  with Suc show ?case by (cases go) auto
qed simp

lemma program_step_exit: "program_step K s = Some (False, r) \<Longrightarrow> parser_check (snd r) TOKEN_EOF"
  by (auto simp: program_step_def split: prod.splits if_splits bind_splits)

lemma parser_create_clean:
  assumes "parser_create (\<lambda>_. True) source len filename = Some p" "len \<le> length source" "CHR ''|'' \<notin> set source"
  shows "clean p" "p_left p = 2 * len" "\<not> p_has_current p"
  using assms
  by (auto simp: parser_create_def lexer_create_def clean_def parser_on_def lexer_inv_def lexer_ok_def src_clean_def
      tokenizer_ok_def tokenizer_create_def p_left_def token_weight_def zero_token_def BAR_def)

lemma parser_parse_returns:
  assumes "parser_create (\<lambda>_. True) source len filename = Some p" "len \<le> length source" "CHR ''|'' \<notin> set source"
    "10 * len + 4 \<le> n" "0 < n"
  shows "\<exists>ast p'. parser_parse n p = Some (ast, p') \<and> tok_type (p_current p') = TOKEN_EOF"
proof -
  note p = parser_create_clean [OF assms(1-3)]
  let ?q = "parser_advance p"
  have q: "good ?q" "p_left ?q \<le> 2 * len"
    using clean_advance [OF p(1)] p_left_advance [of p] p(2) by auto
  have "tot (2 * len) (loop n (program_step (calls_at n)) ([], ?q))"
    using q assms(4,5) by (intro tot_loop program_step_tot) auto
  then obtain ds p' where r: "loop n (program_step (calls_at n)) ([], ?q) = Some (ds, p')" "good p'"
    by (auto simp: tot_def)
  then have "parser_check p' TOKEN_EOF"
    using loop_exit [OF r(1), where Q = "\<lambda>r. parser_check (snd r) TOKEN_EOF"] program_step_exit by force
  moreover have "c_fuel (calls_at n) = n" by (cases n) (simp_all add: Let_def)
  ultimately show ?thesis using r by (simp add: parser_parse_def good_check)
qed

text \<open>
  C900: on a source without the character \<open>|\<close> the parser returns, and it has read the whole input: there is one
  program and one final state, at the end of the input, that \<open>parser_parse\<close> gives for every fuel from ten times
  the length of the source on.  No input without a bar makes it loop, whatever its syntax errors.
\<close>

theorem parser_total:
  assumes "parser_create (\<lambda>_. True) source len filename = Some p" "len \<le> length source" "CHR ''|'' \<notin> set source"
  shows "\<exists>ast p'. tok_type (p_current p') = TOKEN_EOF \<and>
    (\<forall>n. parser_parse (10 * len + 4 + n) p = Some (ast, p'))"
proof -
  from parser_parse_returns [OF assms order_refl] obtain ast p'
    where r: "parser_parse (10 * len + 4) p = Some (ast, p')" "tok_type (p_current p') = TOKEN_EOF" by auto
  then show ?thesis using parser_parse_more [OF r(1), of "10 * len + 4 + n" for n] by auto
qed

lemma parser_total_witness:
  "\<exists>p ast p'. parser_create (\<lambda>_. True) ''let x = (1'' 10 None = Some p \<and>
     tok_type (p_current p') = TOKEN_EOF \<and> parser_parse 104 p = Some (ast, p')"
proof -
  obtain p where p: "parser_create (\<lambda>_. True) ''let x = (1'' 10 None = Some p"
    by (simp add: parser_create_def lexer_create_def)
  have "\<exists>ast p'. tok_type (p_current p') = TOKEN_EOF \<and> (\<forall>n. parser_parse (10 * 10 + 4 + n) p = Some (ast, p'))"
    by (rule parser_total [OF p]) simp_all
  then obtain ast p' where "tok_type (p_current p') = TOKEN_EOF" "parser_parse (10 * 10 + 4 + 0) p = Some (ast, p')"
    by blast
  with p show ?thesis by auto
qed

end
