(* ===== verification/ParserProps.thy ===== *)
theory ParserProps
  imports ParserTotal
begin

text \<open>
  What precedence climbing parses: the round trip of an expression tree through its tokens, and the operator on
  which it never returns.
\<close>

section \<open>Reading tokens\<close>

text \<open>The next tokens of a primed parser.\<close>

fun reads_tokens :: "Parser \<Rightarrow> Token list \<Rightarrow> bool" where
  "reads_tokens p [] = True"
| "reads_tokens p (t # ts) \<longleftrightarrow> p_current p = t \<and> reads_tokens (parser_advance p) ts"

abbreviation advance_by :: "nat \<Rightarrow> Parser \<Rightarrow> Parser" where
  "advance_by n \<equiv> (parser_advance ^^ n)"

lemma reads_tokens_append [simp]: "reads_tokens p (xs @ ys) \<longleftrightarrow> reads_tokens p xs \<and> reads_tokens (advance_by (length xs) p) ys"
  by (induction xs arbitrary: p) (simp_all add: funpow_swap1)

lemma primed_advance [simp]: "p_has_current (parser_advance p)"
  by (simp add: parser_advance_def Let_def)

lemma primed_prime: "p_has_current p \<Longrightarrow> parser_prime p = p"
  by (simp add: parser_prime_def)

lemma skip_newlines_id: "tok_type (p_current p) \<noteq> TOKEN_NEWLINE \<Longrightarrow> skip_newlines p = p"
  by (subst skip_tokens.simps) simp

section \<open>Expression trees\<close>

text \<open>Operands that are one token, and binary operators.\<close>

datatype etree = Operand Token | Binary etree Token etree

fun tree_tokens :: "etree \<Rightarrow> Token list" where
  "tree_tokens (Operand t) = [t]"
| "tree_tokens (Binary l op r) = tree_tokens l @ op # tree_tokens r"

text \<open>The node the parser builds for an operator and its operands.\<close>

definition binary_ast :: "Token \<Rightarrow> AstNode \<Rightarrow> AstNode \<Rightarrow> AstNode" where
  "binary_ast op l r =
     (let b = the (map_of infix_ops (tok_type op))
      in if b = BIN_CUSTOM then node_create True (BinaryOpNode NODE_BINARY_OP (tok_loc op) b l r (tok_text op))
         else node_binary True (tok_loc op) b l r)"

fun tree_ast :: "etree \<Rightarrow> AstNode" where
  "tree_ast (Operand t) = the (atom_node t)"
| "tree_ast (Binary l op r) = binary_ast op (tree_ast l) (tree_ast r)"

definition binary_token :: "Token \<Rightarrow> bool" where
  "binary_token t \<longleftrightarrow> map_of infix_ops (tok_type t) \<noteq> None \<and> tok_type t \<noteq> OP TOKEN_PIPE \<and>
     token_precedence (tok_type t) \<noteq> PREC_MIN"

text \<open>
  The trees that need no parentheses in a context of precedence \<open>m\<close>: the right operand of an operator may have
  operators of the same precedence, the left operand only tighter ones.
\<close>

fun canonical :: "nat \<Rightarrow> etree \<Rightarrow> bool" where
  "canonical m (Operand t) \<longleftrightarrow> atom_node t \<noteq> None"
| "canonical m (Binary l op r) \<longleftrightarrow>
     (let q = token_precedence (tok_type op)
      in binary_token op \<and> m \<le> q \<and> canonical (Suc q) l \<and> canonical q r)"

text \<open>The token behind an expression: it ends one, or binds less tightly than the context.\<close>

definition stops :: "nat \<Rightarrow> Token \<Rightarrow> bool" where
  "stops m t \<longleftrightarrow> tok_type t \<notin> {TOKEN_NEWLINE, OP TOKEN_PLUS_PLUS, OP TOKEN_MINUS_MINUS} \<and>
     (tok_type t \<in> set expr_ends \<or> token_precedence (tok_type t) = PREC_MIN \<or> token_precedence (tok_type t) < m)"

lemma canonical_mono: "canonical m t \<Longrightarrow> k \<le> m \<Longrightarrow> canonical k t"
  by (cases t) (auto simp: Let_def)

lemma binary_not_special:
  assumes "binary_token t"
  shows "tok_type t \<notin> set expr_ends" "tok_type t \<notin> {OP TOKEN_PLUS_PLUS, OP TOKEN_MINUS_MINUS}"
    "tok_type t \<notin> {OP TOKEN_LPAREN, OP TOKEN_LBRACKET, OP TOKEN_DOT, OP TOKEN_COLON_COLON, OP TOKEN_PIPE,
       KW TOKEN_KW_AS, OP TOKEN_QUESTION}"
  using assms by (auto simp: binary_token_def expr_ends_def infix_ops_def)

lemma atom_not_null: "atom_node t = Some n \<Longrightarrow> n \<noteq> NULL"
  by (auto simp: atom_node_def Let_def node_int_literal_def node_create_def float_node_def node_float_literal_def
      node_char_literal_def node_bool_literal_def node_none_literal_def node_ident_def tok_ident_def
      split: if_splits TokVal.splits)

lemma binary_ast_not_null: "binary_ast op l r \<noteq> NULL"
  by (simp add: binary_ast_def Let_def node_create_def node_binary_def)

lemma tree_not_null: "canonical m t \<Longrightarrow> tree_ast t \<noteq> NULL"
  by (cases t) (auto simp: atom_not_null binary_ast_not_null Let_def)

section \<open>Climbing the left spine\<close>

fun first_operand :: "etree \<Rightarrow> Token" where
  "first_operand (Operand t) = t"
| "first_operand (Binary l op r) = first_operand l"

fun spine :: "etree \<Rightarrow> nat" where
  "spine (Operand t) = 0"
| "spine (Binary l op r) = Suc (spine l)"

fun root_prec :: "etree \<Rightarrow> nat option" where
  "root_prec (Operand t) = None"
| "root_prec (Binary l op r) = Some (token_precedence (tok_type op))"

text \<open>
  From the first operand, the loop of context \<open>m\<close> takes \<open>spine t\<close> rounds to build the tree.
\<close>

definition climbs :: "etree \<Rightarrow> bool" where
  "climbs t \<longleftrightarrow> (\<forall>m p s. canonical m t \<and> reads_tokens p (tree_tokens t @ [s]) \<and>
     (\<forall>q. root_prec t = Some q \<longrightarrow> stops q s) \<longrightarrow>
     (\<exists>n0. \<forall>n\<ge>n0. \<forall>N.
        loop (N + spine t) (infix_step (calls_at n) m) ((False, the (atom_node (first_operand t))), parser_advance p) =
        loop N (infix_step (calls_at n) m)
          ((root_prec t \<noteq> None, tree_ast t), advance_by (length (tree_tokens t)) p)))"

lemma first_token: "reads_tokens p (tree_tokens t) \<Longrightarrow> p_current p = first_operand t"
  by (induction t) auto

lemma first_atom: "canonical m t \<Longrightarrow> atom_node (first_operand t) \<noteq> None"
  by (induction t arbitrary: m) (auto simp: Let_def)

lemma second_token:
  assumes "canonical m t" "reads_tokens p (tree_tokens t @ [s])" "tok_type s \<notin> {OP TOKEN_PLUS_PLUS, OP TOKEN_MINUS_MINUS}"
  shows "tok_type (p_current (parser_advance p)) \<notin> {OP TOKEN_PLUS_PLUS, OP TOKEN_MINUS_MINUS}"
  using assms
proof (induction t arbitrary: m s)
  case (Binary l op r)
  then show ?case by (intro Binary.IH(1) [of "Suc (token_precedence (tok_type op))" op])
    (use binary_not_special(2) in \<open>auto simp: Let_def\<close>)
qed simp

lemma c_fuel_at [simp]: "c_fuel (calls_at n) = n"
  by (cases n) (simp_all add: Let_def)

lemma climbs_parse:
  assumes "climbs t" "canonical m t" "reads_tokens p (tree_tokens t @ [s])" "stops m s" "p_has_current p"
  shows "\<exists>n0. \<forall>n\<ge>n0. parse_expr_prec (calls_at n) m p = Some (tree_ast t, advance_by (length (tree_tokens t)) p)"
proof -
  let ?e = "advance_by (length (tree_tokens t)) p"
  have root: "root_prec t = Some q \<Longrightarrow> stops q s" for q
    using assms(2,4) by (cases t) (auto simp: stops_def Let_def)
  from assms(1-3) root obtain n0 where n0: "n \<ge> n0 \<Longrightarrow>
      loop (N + spine t) (infix_step (calls_at n) m) ((False, the (atom_node (first_operand t))), parser_advance p) =
      loop N (infix_step (calls_at n) m) ((root_prec t \<noteq> None, tree_ast t), ?e)" for n N
    unfolding climbs_def by meson
  obtain a where a: "atom_node (first_operand t) = Some a" using first_atom [OF assms(2)] by auto
  have cur: "p_current p = first_operand t" using first_token assms(3) by simp
  have "tok_type (p_current p) \<noteq> TOKEN_EOF" using a cur by (auto simp: atom_node_def Let_def)
  then have eof: "\<not> parser_check p TOKEN_EOF" using assms(5) by (simp add: parser_check_def primed_prime)
  have "tok_type (p_current (parser_advance p)) \<notin> {OP TOKEN_PLUS_PLUS, OP TOKEN_MINUS_MINUS}"
    using second_token [OF assms(2,3)] assms(4) by (simp add: stops_def)
  then have post: "parse_postfix_ops a (parser_advance p) = (a, parser_advance p)"
    by (subst parse_postfix_ops.simps) (simp add: Let_def)
  have e: "p_current ?e = s" "p_has_current ?e"
    using assms(3,5) by (simp_all, cases "length (tree_tokens t)") simp_all
  then have stop: "infix_step K m ((b, tree_ast t), ?e) = Some (False, (b, tree_ast t), ?e)" for K b
    using assms(4) by (auto simp: infix_step_def stops_def skip_newlines_id token_in_def parser_check_any_def
        primed_prime Let_def list_ex_iff)
  have "parse_expr_prec (calls_at n) m p = Some (tree_ast t, ?e)" if "n \<ge> max n0 (Suc (spine t))" for n
  proof -
    have "Suc (spine t) \<le> n" using that by simp
    then obtain k where "n = Suc (spine t) + k" using le_Suc_ex by blast
    then have k: "n = Suc k + spine t" by simp
    have pre: "c_prefix (calls_at n) p = Some (a, parser_advance p)"
      unfolding k by (simp add: Let_def parse_prefix_def cur a)
    have "loop n (infix_step (calls_at n) m) ((False, a), parser_advance p) =
        Some ((root_prec t \<noteq> None, tree_ast t), ?e)"
    proof -
      have "loop n (infix_step (calls_at n) m) ((False, a), parser_advance p) =
          loop (Suc k) (infix_step (calls_at n) m) ((root_prec t \<noteq> None, tree_ast t), ?e)"
        using n0 [of n "Suc k"] that a by (simp only: k [symmetric]) simp
      also have "\<dots> = Some ((root_prec t \<noteq> None, tree_ast t), ?e)" by (simp add: stop)
      finally show ?thesis .
    qed
    then show ?thesis
      using atom_not_null [OF a] by (simp add: parse_expr_prec_def primed_prime assms(5) eof pre post Let_def)
  qed
  then show ?thesis by blast
qed

lemma climbs_operand: "climbs (Operand t)"
  by (auto simp: climbs_def)

lemma climbs_binary:
  assumes l: "climbs l" and r: "climbs r"
  shows "climbs (Binary l op r)"
  unfolding climbs_def
proof (intro allI impI, elim conjE)
  fix m p s
  let ?t = "Binary l op r" and ?p1 = "advance_by (length (tree_tokens l)) p"
  let ?q = "token_precedence (tok_type op)"
  assume can: "canonical m ?t" and rd: "reads_tokens p (tree_tokens ?t @ [s])"
    and stop: "\<forall>q. root_prec ?t = Some q \<longrightarrow> stops q s"
  have c: "binary_token op" "m \<le> ?q" "canonical (Suc ?q) l" "canonical ?q r" using can by (auto simp: Let_def)
  note special = binary_not_special [OF c(1)]
  have op: "p_current ?p1 = op" using rd by simp
  have nl: "tok_type op \<noteq> TOKEN_NEWLINE" using special(1) by (auto simp: expr_ends_def)
  have root_l: "root_prec l = Some q \<Longrightarrow> stops q op" for q
    using c(3) special nl by (cases l) (auto simp: stops_def Let_def)
  have "canonical m l" using canonical_mono [OF c(3)] c(2) by simp
  moreover have "reads_tokens p (tree_tokens l @ [op])" using rd by simp
  ultimately obtain nl where nl_loop: "n \<ge> nl \<Longrightarrow>
      loop (N + spine l) (infix_step (calls_at n) m) ((False, the (atom_node (first_operand l))), parser_advance p) =
      loop N (infix_step (calls_at n) m) ((root_prec l \<noteq> None, tree_ast l), ?p1)" for n N
    using l root_l unfolding climbs_def by meson
  have "reads_tokens (parser_advance ?p1) (tree_tokens r @ [s])" using rd by simp
  then obtain nr where nr: "n \<ge> nr \<Longrightarrow> parse_expr_prec (calls_at n) ?q (parser_advance ?p1) =
      Some (tree_ast r, advance_by (length (tree_tokens r)) (parser_advance ?p1))" for n
    using climbs_parse [OF r c(4)] stop by fastforce
  have "loop (N + spine ?t) (infix_step (calls_at n) m)
        ((False, the (atom_node (first_operand ?t))), parser_advance p) =
      loop N (infix_step (calls_at n) m) ((root_prec ?t \<noteq> None, tree_ast ?t), advance_by (length (tree_tokens ?t)) p)"
    if n: "n \<ge> Suc (Suc (max nl nr))" for n N
  proof -
    obtain k where k: "n = Suc (Suc k)" "k \<ge> nr" using n by (cases n, simp, cases "n - 1") auto
    have "parse_infix (calls_at (Suc k)) (tree_ast l) ?p1 =
        Some (binary_ast op (tree_ast l) (tree_ast r), advance_by (length (tree_tokens r)) (parser_advance ?p1))"
      using special(3) c(1) nr [OF k(2)]
      by (auto simp: parse_infix_def parse_binary_def op Let_def binary_token_def binary_ast_def)
    moreover have "advance_by (length (tree_tokens r)) (parser_advance ?p1) = advance_by (length (tree_tokens ?t)) p"
    proof -
      have "length (tree_tokens ?t) = length (tree_tokens r) + Suc (length (tree_tokens l))" by simp
      then show ?thesis by (simp only: funpow_add o_apply funpow.simps)
    qed
    ultimately have step: "infix_step (calls_at n) m ((b, tree_ast l), ?p1) =
        Some (True, (True, tree_ast ?t), advance_by (length (tree_tokens ?t)) p)" for b
      using c(1,2) special(1) nl binary_ast_not_null
      by (simp add: k infix_step_def op skip_newlines_id token_in_def Let_def binary_token_def
          del: funpow.simps tree_tokens.simps)
    show ?thesis using nl_loop [of n "Suc N"] n step by simp
  qed
  then show "\<exists>n0. \<forall>n\<ge>n0. \<forall>N. loop (N + spine ?t) (infix_step (calls_at n) m)
        ((False, the (atom_node (first_operand ?t))), parser_advance p) =
      loop N (infix_step (calls_at n) m) ((root_prec ?t \<noteq> None, tree_ast ?t), advance_by (length (tree_tokens ?t)) p)"
    by blast
qed

lemma climbs_all: "climbs t"
  by (induction t) (simp_all add: climbs_operand climbs_binary)

text \<open>
  C901: precedence climbing.  A tree of binary operators that needs no parentheses (the right operand of an operator
  may have operators of the same precedence, the left operand only tighter ones) is read back from its tokens, at
  every context precedence that admits it and before every token that ends it, with all fuel from some point on.
  So a chain of one precedence groups to the right: \<open>a - b - c\<close> is \<open>a - (b - c)\<close>.
\<close>

theorem expression_round_trip:
  assumes "canonical m t" "reads_tokens p (tree_tokens t @ [s])" "stops m s" "p_has_current p"
  shows "\<exists>n0. \<forall>n\<ge>n0. parse_expr_prec (calls_at n) m p = Some (tree_ast t, (parser_advance ^^ length (tree_tokens t)) p)"
  by (rule climbs_parse [OF climbs_all assms])

section \<open>Examples read from text\<close>

definition start_at :: "string \<Rightarrow> Parser" where
  "start_at s = parser_advance (parser_on (the (lexer_create (\<lambda>_. True) s (length s) None)))"

fun types_ahead :: "nat \<Rightarrow> Parser \<Rightarrow> TokenType list" where
  "types_ahead 0 p = []"
| "types_ahead (Suc n) p = tok_type (p_current p) # types_ahead n (parser_advance p)"

lemma types_ahead_nth: "i < n \<Longrightarrow> types_ahead n p ! i = tok_type (p_current (advance_by i p))"
  by (induction n p arbitrary: i rule: types_ahead.induct) (auto simp: nth_Cons' funpow_swap1 gr0_conv_Suc)

lemma start_at_primed: "p_has_current (start_at s)"
  by (simp add: start_at_def)

definition chain_text :: string where "chain_text = ''a-b-c)''"

definition chain_token :: "nat \<Rightarrow> Token" where
  "chain_token i = p_current (advance_by i (start_at chain_text))"

lemma chain_types:
  "map (\<lambda>i. tok_type (chain_token i)) [0..<6] =
     [TOKEN_IDENT, OP TOKEN_MINUS, TOKEN_IDENT, OP TOKEN_MINUS, TOKEN_IDENT, OP TOKEN_RPAREN]"
proof -
  have "types_ahead 6 (start_at chain_text) =
      [TOKEN_IDENT, OP TOKEN_MINUS, TOKEN_IDENT, OP TOKEN_MINUS, TOKEN_IDENT, OP TOKEN_RPAREN]"
    by code_simp
  then show ?thesis
    using types_ahead_nth [of _ 6 "start_at chain_text"] unfolding chain_token_def
    by (auto intro!: nth_equalityI simp: numeral_eq_Suc less_Suc_eq)
qed

lemma expression_round_trip_witness:
  "\<exists>n0. \<forall>n\<ge>n0. parse_expr_prec (calls_at n) PREC_MIN (start_at chain_text) =
     Some (binary_ast (chain_token 1) (tok_ident (chain_token 0))
             (binary_ast (chain_token 3) (tok_ident (chain_token 2)) (tok_ident (chain_token 4))),
           advance_by 5 (start_at chain_text))"
proof -
  let ?e = "Binary (Operand (chain_token 0)) (chain_token 1)
    (Binary (Operand (chain_token 2)) (chain_token 3) (Operand (chain_token 4)))"
  have ty: "tok_type (chain_token 0) = TOKEN_IDENT" "tok_type (chain_token 1) = OP TOKEN_MINUS"
    "tok_type (chain_token 2) = TOKEN_IDENT" "tok_type (chain_token 3) = OP TOKEN_MINUS"
    "tok_type (chain_token 4) = TOKEN_IDENT" "tok_type (chain_token 5) = OP TOKEN_RPAREN"
    using chain_types by (simp_all add: upt_rec numeral_eq_Suc)
  have "\<exists>n0. \<forall>n\<ge>n0. parse_expr_prec (calls_at n) PREC_MIN (start_at chain_text) =
      Some (tree_ast ?e, advance_by (length (tree_tokens ?e)) (start_at chain_text))"
  proof (rule expression_round_trip [where s = "chain_token 5"])
    show "reads_tokens (start_at chain_text) (tree_tokens ?e @ [chain_token 5])"
      by (simp add: chain_token_def numeral_eq_Suc)
    show "canonical PREC_MIN ?e" "stops PREC_MIN (chain_token 5)"
      by (simp_all add: ty ty [unfolded One_nat_def] Let_def binary_token_def atom_node_def stops_def expr_ends_def token_precedence_def
          precedences_def infix_ops_def prec_defs)
  qed (rule start_at_primed)
  moreover have "length (tree_tokens ?e) = 5" by simp
  moreover have "tree_ast ?e = binary_ast (chain_token 1) (tok_ident (chain_token 0))
      (binary_ast (chain_token 3) (tok_ident (chain_token 2)) (tok_ident (chain_token 4)))"
    by (simp add: atom_node_def ty)
  ultimately show ?thesis by (simp only:)
qed

section \<open>The bar\<close>

lemma loop_stuck: "step s = Some (True, s) \<Longrightarrow> loop n step s = None"
  by (induction n) simp_all

lemma infix_step_bar:
  assumes "tok_type (p_current p) = OP TOKEN_PIPE" "m \<le> PREC_BIT_OR" "left \<noteq> NULL"
  shows "infix_step (calls_at (Suc n)) m ((had, left), p) = Some (True, (True, left), p)"
  using assms
  by (simp add: infix_step_def skip_newlines_id token_in_def expr_ends_def Let_def token_precedence_def
      precedences_def prec_defs parse_infix_def)

text \<open>
  C902: an operand followed by \<open>|\<close> is never parsed, whatever the fuel, in every context that admits the operator:
  the branch of \<open>parse_infix\<close> for the bar returns its left operand and leaves the bar where it is, and the loop of
  \<open>parse_expr_prec\<close> calls it again.  (\<open>||\<close> is two bars to the scanner.)
\<close>

theorem bar_never_returns:
  assumes "p_has_current p" "atom_node (p_current p) = Some operand"
    "tok_type (p_current (parser_advance p)) = OP TOKEN_PIPE" "m \<le> PREC_BIT_OR"
  shows "parse_expr_prec (calls_at n) m p = None"
proof (cases n)
  case 0
  then show ?thesis using assms by (auto simp: parse_expr_prec_def primed_prime Let_def parser_check_def atom_node_def)
next
  case (Suc k)
  let ?q = "parser_advance p"
  have eof: "\<not> parser_check p TOKEN_EOF"
    using assms(1,2) by (auto simp: parser_check_def primed_prime atom_node_def Let_def)
  have post: "parse_postfix_ops operand ?q = (operand, ?q)"
    using assms(3) by (subst parse_postfix_ops.simps) (simp add: Let_def)
  have pre: "c_prefix (calls_at n) p = Some (operand, ?q)"
    unfolding Suc by (simp add: Let_def parse_prefix_def assms(2))
  note step = infix_step_bar [OF assms(3,4) atom_not_null [OF assms(2)]]
  have "loop n (infix_step (calls_at n) m) ((False, operand), ?q) = None"
    unfolding Suc loop.simps step using loop_stuck [of "infix_step (calls_at (Suc k)) m", OF step] by simp
  then show ?thesis
    using atom_not_null [OF assms(2)] by (simp add: parse_expr_prec_def primed_prime assms(1) eof pre post Let_def)
qed

lemma bar_never_returns_witness:
  "parse_expr_prec (calls_at 100) PREC_MIN (start_at ''a|b'') = None \<and>
   p_current (start_at ''a|b'') \<noteq> zero_token"
proof -
  have ty: "types_ahead 2 (start_at ''a|b'') = [TOKEN_IDENT, OP TOKEN_PIPE]" by code_simp
  then have "tok_type (p_current (start_at ''a|b'')) = TOKEN_IDENT"
    "tok_type (p_current (parser_advance (start_at ''a|b''))) = OP TOKEN_PIPE"
    by (simp_all add: numeral_eq_Suc)
  then show ?thesis
    using bar_never_returns [OF start_at_primed, of "''a|b''" "tok_ident (p_current (start_at ''a|b''))" PREC_MIN 100]
    by (auto simp: atom_node_def prec_defs zero_token_def)
qed

lemma skip_tokens_idem: "skip_tokens P (skip_tokens P p) = skip_tokens P p"
proof (induction P p rule: skip_tokens.induct)
  case (1 P p)
  show ?case
  proof (cases "tok_type (p_current p) \<noteq> TOKEN_EOF \<and> P (tok_type (p_current p))")
    case True
    then show ?thesis using 1 by (simp add: skip_tokens.simps [of P p])
  next
    case False
    then have "skip_tokens P p = p" by (subst skip_tokens.simps) auto
    then show ?thesis by simp
  qed
qed

text \<open>Behind an infix operator, and behind a call, a newline does not end an expression: it is skipped.\<close>

lemma newline_does_not_end:
  "infix_step K m ((True, left), p) = infix_step K m ((True, left), skip_newlines p)"
  by (simp add: infix_step_def skip_tokens_idem)

end
