(* ===== verification/Generics.thy ===== *)
theory Generics
  imports Parser
begin

text \<open>
  The instances of generic functions of \<open>src/semantic.c\<close>: \<open>monomorphize_type\<close>, \<open>monomorphize_expr\<close>,
  \<open>monomorphize_node\<close> and \<open>monomorphize_func\<close>.  A type parameter is replaced by a concrete type that is
  itself substituted, so the recursion may not end: the functions take fuel, and \<open>None\<close> is a recursion
  that does not end within it (the C code overflows its stack) or a read through NULL.
\<close>

section \<open>Types\<close>

text \<open>\<open>len\<close> equal and \<open>memcmp\<close>.\<close>

definition same_text :: "StringView \<Rightarrow> StringView \<Rightarrow> bool" where
  "same_text a b \<longleftrightarrow> sv_len a = sv_len b \<and> sv_bytes a = sv_bytes b"

text \<open>The name of a type parameter, for the two kinds of node that carry one.\<close>

fun tparam_name :: "AstNode \<Rightarrow> StringView option" where
  "tparam_name (TypeParam _ (IdentNode _ name) _) = Some name"
| "tparam_name (IdentNode _ name) = Some name"
| "tparam_name _ = None"

text \<open>The concrete type of the first parameter of that name that has one.\<close>

fun concrete_for :: "StringView \<Rightarrow> AstNode list \<Rightarrow> AstNode list \<Rightarrow> AstNode option" where
  "concrete_for name (tp # tps) (ct # cts) =
     (case tparam_name tp of
        Some n \<Rightarrow> if same_text name n then Some ct else concrete_for name tps cts
      | None \<Rightarrow> concrete_for name tps cts)"
| "concrete_for name _ _ = None"

definition mono_list :: "(AstNode \<Rightarrow> AstNode option) \<Rightarrow> AstNode list \<Rightarrow> AstNode list option" where
  "mono_list f xs = map_option (filter (\<lambda>x. \<not> is_null x)) (those (map f xs))"

text \<open>The element types: of the kinds with one element type, only a reference and an array copy a field.\<close>

definition elem_info :: "NodeType \<Rightarrow> TypeInfo \<Rightarrow> TypeInfo" where
  "elem_info ty info =
     (if ty = NODE_TYPE_REF then ti_zero\<lparr>ti_is_ref := ti_is_ref info\<rparr>
      else if ty = NODE_TYPE_ARRAY then ti_zero\<lparr>ti_array_size := ti_array_size info\<rparr> else ti_zero)"

definition elem_types :: "NodeType list" where
  "elem_types = [NODE_TYPE_REF, NODE_TYPE_PTR, NODE_TYPE_ARRAY, NODE_TYPE_SLICE, NODE_TYPE_OPTIONAL]"

text \<open>One call, with the recursive calls as the argument \<open>self\<close>.\<close>

definition mono_type_step :: "(AstNode \<Rightarrow> AstNode option) \<Rightarrow> AstNode list \<Rightarrow> AstNode list \<Rightarrow> AstNode \<Rightarrow> AstNode option" where
  "mono_type_step self tps cts t =
     (case t of
        NULL \<Rightarrow> Some NULL
      | TypeNode ty loc prim elem tuple rty ps info \<Rightarrow>
          if ty = NODE_TYPE_PRIMITIVE then Some (node_type_prim True loc prim)
          else if ty = NODE_TYPE_NAMED
          then case concrete_for (ti_name info) tps cts of
                 Some ct \<Rightarrow> self ct
               | None \<Rightarrow> Some (node_type_named True loc (ti_name info))
          else if ty \<in> set elem_types
          then do { e \<leftarrow> self elem; Some (TypeNode ty loc PRIM_VOID e [] NULL [] (elem_info ty info)) }
          else if ty = NODE_TYPE_TUPLE
          then do { ps \<leftarrow> mono_list self ps; Some (TypeNode ty loc PRIM_VOID NULL [] NULL ps ti_zero) }
          else if ty = NODE_TYPE_FN
          then do { ps \<leftarrow> mono_list self ps; r \<leftarrow> self rty; Some (TypeNode ty loc PRIM_VOID NULL [] r ps ti_zero) }
          else Some t
      | _ \<Rightarrow> Some t)"

fun monomorphize_type :: "nat \<Rightarrow> AstNode \<Rightarrow> AstNode list \<Rightarrow> AstNode list \<Rightarrow> AstNode option" where
  "monomorphize_type 0 t tps cts = None"
| "monomorphize_type (Suc n) t tps cts = mono_type_step (\<lambda>t. monomorphize_type n t tps cts) tps cts t"

section \<open>Expressions\<close>

fun blank_literal :: "Literal \<Rightarrow> Literal" where
  "blank_literal (LitInt _ _) = LitInt 0 False"
| "blank_literal (LitFloat _ _) = LitFloat 0 0"
| "blank_literal (LitString _) = LitString SV0"
| "blank_literal (LitChar _) = LitChar 0"
| "blank_literal (LitBool _) = LitBool False"
| "blank_literal LitNone = LitNone"

definition blank_attr :: AttrInfo where
  "blank_attr = \<lparr>at_name = SV0, at_int_value = 0, at_has_layout_start = False, at_layout_start = 0,
     at_has_layout_max = False, at_layout_max = 0, at_layout_bits = 0, at_layout_signature = 0,
     at_layout_file = SV0, at_has_module_abi = False, at_module_abi_version = 0, at_has_test = False\<rparr>"

text \<open>A node of the same type as another with nothing else set: what \<open>node_create\<close> returns.\<close>

fun blank_node :: "AstNode \<Rightarrow> AstNode" where
  "blank_node (FuncDecl loc _ _ _ _ _ _ _ _ _) = FuncDecl loc NULL [] NULL NULL [] [] [] [] fi_zero"
| "blank_node (Param t loc _ _ _ _ _) = Param t loc NULL NULL False False NULL"
| "blank_node (LetDecl t loc _ _ _ _ _) = LetDecl t loc NULL NULL NULL False False"
| "blank_node (IfNode loc _ _ _ _ _ _) = IfNode loc NULL NULL NULL NULL False NULL"
| "blank_node (WhileNode loc _ _) = WhileNode loc NULL NULL"
| "blank_node (ForNode loc _ _ _ _) = ForNode loc NULL NULL NULL NULL"
| "blank_node (MatchNode loc _ _) = MatchNode loc NULL []"
| "blank_node (MatchArm loc _ _ _ _) = MatchArm loc NULL [] [] NULL"
| "blank_node (ReturnNode loc _) = ReturnNode loc NULL"
| "blank_node (BinaryOpNode t loc _ _ _ _) = BinaryOpNode t loc BIN_ADD NULL NULL SV0"
| "blank_node (UnaryOpNode loc _ _) = UnaryOpNode loc UNARY_NEG NULL"
| "blank_node (CallNode t loc _ _) = CallNode t loc NULL []"
| "blank_node (IdentNode loc _) = IdentNode loc SV0"
| "blank_node (LabelNode t loc _) = NoData t loc"
| "blank_node (ImportNode loc _) = ImportNode loc SV0"
| "blank_node (IndexNode loc _ _) = IndexNode loc NULL NULL"
| "blank_node (SliceNode loc _ _ _) = SliceNode loc NULL NULL NULL"
| "blank_node (FieldAccess loc _ _) = FieldAccess loc NULL NULL"
| "blank_node (TypeNode t loc _ _ _ _ _ _) = TypeNode t loc PRIM_VOID NULL [] NULL [] ti_zero"
| "blank_node (LambdaNode loc _ _ _ _) = LambdaNode loc [] NULL NULL NULL"
| "blank_node (ArrayLit loc _) = ArrayLit loc []"
| "blank_node (StructDecl t loc _ _ _ _ _) = StructDecl t loc NULL [] [] [] False"
| "blank_node (EnumDecl loc _ _ _) = EnumDecl loc NULL [] False"
| "blank_node (EnumVariant loc _ _) = EnumVariant loc NULL []"
| "blank_node (AsmBlock loc _ _ _ _) = AsmBlock loc NULL [] [] []"
| "blank_node (DeferNode loc _) = DeferNode loc NULL"
| "blank_node (SpawnNode loc _) = SpawnNode loc NULL"
| "blank_node (RegionNode loc _ _) = RegionNode loc SV0 NULL"
| "blank_node (TraitDecl loc _ _ _) = TraitDecl loc NULL [] False"
| "blank_node (ImplBlock loc _ _ _) = ImplBlock loc SV0 SV0 []"
| "blank_node (ModuleDecl loc _ _ _) = ModuleDecl loc NULL [] 0"
| "blank_node (PoolDecl loc _ _ _ _) = PoolDecl loc NULL 0 0 0"
| "blank_node (ProtocolDecl loc _ _) = ProtocolDecl loc NULL []"
| "blank_node (TryNode loc _ _ _) = TryNode loc NULL [] NULL"
| "blank_node (ThrowNode loc _) = ThrowNode loc NULL"
| "blank_node (CatchArm loc _ _ _ _) = CatchArm loc NULL NULL NULL False"
| "blank_node (NodeList t loc _) = NodeList t loc []"
| "blank_node (TypeParam loc _ _) = TypeParam loc NULL NULL"
| "blank_node (LiteralNode loc l) = LiteralNode loc (blank_literal l)"
| "blank_node (AttrNode loc _) = AttrNode loc blank_attr"
| "blank_node (NoData t loc) = NoData t loc"
| "blank_node NULL = NULL"

text \<open>A literal is copied without its sign.\<close>

fun mono_literal :: "Literal \<Rightarrow> Literal" where
  "mono_literal (LitInt v _) = LitInt v False"
| "mono_literal l = l"

definition mono_expr_step :: "(AstNode \<Rightarrow> AstNode option) \<Rightarrow> (AstNode \<Rightarrow> AstNode option) \<Rightarrow> AstNode \<Rightarrow> AstNode option" where
  "mono_expr_step self mty node =
     (case node of
        LiteralNode loc l \<Rightarrow> Some (LiteralNode loc (mono_literal l))
      | IdentNode loc name \<Rightarrow> Some (IdentNode loc name)
      | BinaryOpNode t loc op l r _ \<Rightarrow>
          if t = NODE_BINARY_OP
          then do { l \<leftarrow> self l; r \<leftarrow> self r; Some (BinaryOpNode t loc op l r SV0) }
          else if t = NODE_CAST
          then do { l \<leftarrow> self l; r \<leftarrow> mty r; Some (BinaryOpNode t loc BIN_ADD l r SV0) }
          else Some (blank_node node)
      | UnaryOpNode loc op e \<Rightarrow> do { e \<leftarrow> self e; Some (UnaryOpNode loc op e) }
      | CallNode t loc f args \<Rightarrow>
          if t = NODE_CALL then do { f \<leftarrow> self f; args \<leftarrow> mono_list self args; Some (CallNode t loc f args) }
          else Some (blank_node node)
      | IndexNode loc a i \<Rightarrow> do { a \<leftarrow> self a; i \<leftarrow> self i; Some (IndexNode loc a i) }
      | FieldAccess loc a f \<Rightarrow> do { a \<leftarrow> self a; f \<leftarrow> self f; Some (FieldAccess loc a f) }
      | ArrayLit loc es \<Rightarrow> do { es \<leftarrow> mono_list self es; Some (ArrayLit loc es) }
      | _ \<Rightarrow> Some (blank_node node))"

fun monomorphize_expr :: "nat \<Rightarrow> AstNode \<Rightarrow> AstNode list \<Rightarrow> AstNode list \<Rightarrow> AstNode option" where
  "monomorphize_expr 0 node tps cts = None"
| "monomorphize_expr (Suc n) node tps cts =
     mono_expr_step (\<lambda>e. monomorphize_expr n e tps cts) (\<lambda>t. monomorphize_type n t tps cts) node"

section \<open>Statements\<close>

definition mono_node_step ::
    "(AstNode \<Rightarrow> AstNode option) \<Rightarrow> (AstNode \<Rightarrow> AstNode option) \<Rightarrow> (AstNode \<Rightarrow> AstNode option) \<Rightarrow> AstNode \<Rightarrow> AstNode option" where
  "mono_node_step self expr mty node =
     (case node of
        NodeList t loc ss \<Rightarrow>
          if t = NODE_BLOCK then do { ss \<leftarrow> mono_list self ss; Some (NodeList t loc ss) } else Some (blank_node node)
      | LetDecl t loc name ty v is_mut is_global \<Rightarrow>
          if t = NODE_LET
          then do { name \<leftarrow> expr name; ty \<leftarrow> mty ty; v \<leftarrow> expr v;
                    Some (LetDecl t loc name ty v is_mut is_global) }
          else Some (blank_node node)
      | ReturnNode loc v \<Rightarrow> do { v \<leftarrow> expr v; Some (ReturnNode loc v) }
      | IfNode loc c th el es _ _ \<Rightarrow>
          do { c \<leftarrow> expr c; th \<leftarrow> self th; el \<leftarrow> self el; es \<leftarrow> self es; Some (IfNode loc c th el es False NULL) }
      | WhileNode loc c b \<Rightarrow> do { c \<leftarrow> expr c; b \<leftarrow> self b; Some (WhileNode loc c b) }
      | ForNode loc v it b ix \<Rightarrow>
          do { v \<leftarrow> expr v; ix \<leftarrow> expr ix; it \<leftarrow> expr it; b \<leftarrow> self b; Some (ForNode loc v it b ix) }
      | CallNode t loc e _ \<Rightarrow>
          if t = NODE_EXPR_STMT then do { e \<leftarrow> expr e; Some (CallNode t loc e []) } else Some (blank_node node)
      | MatchNode loc v arms \<Rightarrow> do { v \<leftarrow> expr v; arms \<leftarrow> mono_list self arms; Some (MatchNode loc v arms) }
      | MatchArm loc p ps _ b \<Rightarrow>
          do { p \<leftarrow> expr p; b \<leftarrow> self b; ps \<leftarrow> mono_list expr ps; Some (MatchArm loc p ps [] b) }
      | TryNode loc b arms fin \<Rightarrow>
          do { b \<leftarrow> self b; arms \<leftarrow> mono_list self arms; fin \<leftarrow> self fin; Some (TryNode loc b arms fin) }
      | CatchArm loc _ v b _ \<Rightarrow> do { v \<leftarrow> expr v; b \<leftarrow> self b; Some (CatchArm loc NULL v b False) }
      | ThrowNode loc v \<Rightarrow> do { v \<leftarrow> expr v; Some (ThrowNode loc v) }
      | DeferNode loc b \<Rightarrow> do { b \<leftarrow> self b; Some (DeferNode loc b) }
      | AsmBlock loc txt outs ins clob \<Rightarrow> Some node
      | SpawnNode loc c \<Rightarrow> do { c \<leftarrow> self c; Some (SpawnNode loc c) }
      | _ \<Rightarrow> Some (blank_node node))"

fun monomorphize_node :: "nat \<Rightarrow> AstNode \<Rightarrow> AstNode list \<Rightarrow> AstNode list \<Rightarrow> AstNode option" where
  "monomorphize_node 0 node tps cts = None"
| "monomorphize_node (Suc n) node tps cts =
     mono_node_step (\<lambda>s. monomorphize_node n s tps cts) (\<lambda>e. monomorphize_expr n e tps cts)
       (\<lambda>t. monomorphize_type n t tps cts) node"

section \<open>Functions\<close>

definition prim_mangled :: "PrimType \<Rightarrow> string" where
  "prim_mangled prim = (if prim = PRIM_BYTE then ''u8'' else primtype_name prim)"

text \<open>The part of the mangled name a concrete type contributes behind the underscore.\<close>

fun type_mangled :: "AstNode \<Rightarrow> string" where
  "type_mangled (TypeNode ty _ prim _ _ _ _ info) =
     (if ty = NODE_TYPE_PRIMITIVE then prim_mangled prim
      else if ty = NODE_TYPE_NAMED then sv_bytes (ti_name info) else [])"
| "type_mangled _ = []"

definition MANGLED_MAX :: nat where "MANGLED_MAX = 256"

text \<open>A piece is written if the buffer has room for it and a terminator, and dropped otherwise.\<close>

definition mangle_put :: "string \<Rightarrow> string \<Rightarrow> string" where
  "mangle_put buf s = (if length buf + length s < MANGLED_MAX then buf @ s else buf)"

definition mangle_step :: "string \<Rightarrow> AstNode \<Rightarrow> string" where
  "mangle_step buf ct = (if length buf < 250 then mangle_put (buf @ ''_'') (type_mangled ct) else buf)"

definition mangled_name :: "StringView \<Rightarrow> AstNode list \<Rightarrow> string" where
  "mangled_name fname cts = foldl mangle_step (mangle_put [] (sv_bytes fname)) cts"

fun mono_param :: "nat \<Rightarrow> AstNode list \<Rightarrow> AstNode list \<Rightarrow> AstNode \<Rightarrow> AstNode option" where
  "mono_param n tps cts (Param _ loc name ty _ varargs _) =
     do { name \<leftarrow> monomorphize_expr n name tps cts; ty \<leftarrow> monomorphize_type n ty tps cts;
          Some (Param NODE_PARAM loc name ty False varargs NULL) }"
| "mono_param n tps cts _ = None"

definition mono_info :: "FuncInfo \<Rightarrow> FuncInfo" where
  "mono_info info = fi_zero\<lparr>fi_is_pub := fi_is_pub info, fi_is_static := fi_is_static info, fi_sys_index := -1,
     fi_entry_addr := -1, fi_is_asm := fi_is_asm info, fi_is_sys := fi_is_sys info, fi_is_throws := fi_is_throws info,
     fi_is_operator := fi_is_operator info, fi_is_inline := fi_is_inline info,
     fi_is_force_inline := fi_is_force_inline info, fi_is_no_inline := fi_is_no_inline info,
     fi_access := fi_access info\<rparr>"

text \<open>
  The name of the instance is a view of a local buffer, which is dead when the function returns: \<open>dead\<close> is
  what it reads as from then on.
\<close>

fun monomorphize_func :: "nat \<Rightarrow> (StringView \<Rightarrow> StringView) \<Rightarrow> AstNode \<Rightarrow> AstNode list \<Rightarrow> AstNode option" where
  "monomorphize_func n dead (FuncDecl loc name params rty body defers tps pres posts info) cts =
     (if tps = [] then Some (FuncDecl loc name params rty body defers tps pres posts info)
      else case name of
        IdentNode nloc fname \<Rightarrow>
          do { rty \<leftarrow> monomorphize_type n rty tps cts;
               params \<leftarrow> those (map (mono_param n tps cts) params);
               body \<leftarrow> monomorphize_node n body tps cts;
               Some (FuncDecl loc (IdentNode nloc (dead (let m = mangled_name fname cts in sv_from_parts m (length m)))) params rty body
                       [] [] [] [] (mono_info info)) }
      | _ \<Rightarrow> None)"
| "monomorphize_func n dead _ cts = None"

end
