(* ===== verification/Semantic.thy ===== *)
theory Semantic
  imports Generics ParserDecl Optimizer
begin

text \<open>
  The semantic analyser of \<open>src/semantic.c\<close>: the constant evaluator, the scopes, the two visitors and
  \<open>semantic_analyze\<close>.

  The state is the chain of scopes (the current one first), the error count and the declarations of the
  program, which grow while they are visited.  A symbol holds its declaration by value: a constant is the
  only declaration the analyser changes, and it is declared again behind the change, in front of the older
  symbol.  The field \<open>resolved\<close> of an identifier is what \<open>scope_lookup\<close> gives when the identifier is visited;
  nothing reads it later.  The children of a scope are linked and never read.

  The visitors are mutually recursive, and neither constants nor instances of generic functions need end, so
  the functions take fuel.  \<open>None\<close> is a run that does not end within it, or that reads through NULL or freed
  memory.
\<close>

section \<open>State and scopes\<close>

type_synonym frame = "(string \<times> AstNode) list"

record SemanticAnalyzer =
  sa_scopes :: "frame list"
  sa_error_count :: int
  sa_program :: "AstNode list"

definition semantic_create :: "bool \<Rightarrow> SemanticAnalyzer option" where
  "semantic_create granted = (if granted then Some \<lparr>sa_scopes = [[]], sa_error_count = 0, sa_program = []\<rparr> else None)"

definition scope_declare :: "SemanticAnalyzer \<Rightarrow> string \<Rightarrow> AstNode \<Rightarrow> SemanticAnalyzer" where
  "scope_declare sa name decl =
     sa\<lparr>sa_scopes := (case sa_scopes sa of f # fs \<Rightarrow> ((name, decl) # f) # fs | [] \<Rightarrow> [])\<rparr>"

definition lookup_in :: "frame list \<Rightarrow> string \<Rightarrow> AstNode option" where
  "lookup_in fs name = map_of (concat fs) name"

definition scope_lookup :: "SemanticAnalyzer \<Rightarrow> string \<Rightarrow> AstNode option" where
  "scope_lookup sa name = lookup_in (sa_scopes sa) name"

definition scope_enter :: "SemanticAnalyzer \<Rightarrow> SemanticAnalyzer" where
  "scope_enter sa = sa\<lparr>sa_scopes := [] # sa_scopes sa\<rparr>"

definition scope_exit :: "SemanticAnalyzer \<Rightarrow> SemanticAnalyzer" where
  "scope_exit sa = sa\<lparr>sa_scopes := (case sa_scopes sa of f # g # fs \<Rightarrow> g # fs | fs \<Rightarrow> fs)\<rparr>"

definition sa_error :: "SemanticAnalyzer \<Rightarrow> SemanticAnalyzer" where
  "sa_error sa = sa\<lparr>sa_error_count := sa_error_count sa + 1\<rparr>"

text \<open>The text of an identifier node; another node has no such member.\<close>

fun ident_text :: "AstNode \<Rightarrow> string option" where
  "ident_text (IdentNode _ v) = Some (strndup v)"
| "ident_text _ = None"

definition declare_as :: "AstNode \<Rightarrow> AstNode \<Rightarrow> SemanticAnalyzer \<Rightarrow> SemanticAnalyzer option" where
  "declare_as name decl sa = map_option (\<lambda>s. scope_declare sa s decl) (ident_text name)"

section \<open>Constants\<close>

text \<open>The operators of \<open>const_eval_expr\<close>; the orderings are signed.\<close>

fun const_op :: "BinOp \<Rightarrow> u64 \<Rightarrow> u64 \<Rightarrow> Eval" where
  "const_op BIN_ADD l r = EvVal (l + r)"
| "const_op BIN_SUB l r = EvVal (l - r)"
| "const_op BIN_MUL l r = EvVal (l * r)"
| "const_op BIN_DIV l r = (if r = 0 then EvFalse else EvVal (l div r))"
| "const_op BIN_MOD l r = (if r = 0 then EvFalse else EvVal (l mod r))"
| "const_op BIN_EQ l r = EvVal (bool_word (l = r))"
| "const_op BIN_NEQ l r = EvVal (bool_word (l \<noteq> r))"
| "const_op BIN_LT l r = EvVal (bool_word (sint l < sint r))"
| "const_op BIN_GT l r = EvVal (bool_word (sint l > sint r))"
| "const_op BIN_LE l r = EvVal (bool_word (sint l \<le> sint r))"
| "const_op BIN_GE l r = EvVal (bool_word (sint l \<ge> sint r))"
| "const_op BIN_BIT_AND l r = EvVal (l AND r)"
| "const_op BIN_BIT_OR l r = EvVal (l OR r)"
| "const_op BIN_BIT_XOR l r = EvVal (l XOR r)"
| "const_op BIN_SHL l r = (if unat r \<ge> 64 then EvUndef else EvVal (push_bit (unat r) l))"
| "const_op BIN_SHR l r = (if unat r \<ge> 64 then EvUndef else EvVal (drop_bit (unat r) l))"
| "const_op BIN_AND l r = EvVal (bool_word (l \<noteq> 0 \<and> r \<noteq> 0))"
| "const_op BIN_OR l r = EvVal (bool_word (l \<noteq> 0 \<or> r \<noteq> 0))"
| "const_op _ l r = EvFalse"

fun const_unop :: "UnaryOp \<Rightarrow> u64 \<Rightarrow> Eval" where
  "const_unop UNARY_NEG v = neg_int64 v"
| "const_unop UNARY_NOT v = EvVal (if v \<noteq> 0 then 0 else 1)"
| "const_unop UNARY_BIT_NOT v = EvVal (NOT v)"
| "const_unop _ v = EvFalse"

fun const_literal :: "Literal \<Rightarrow> Eval" where
  "const_literal (LitInt v _) = EvVal v"
| "const_literal (LitBool b) = EvVal (bool_word b)"
| "const_literal (LitChar c) = EvVal (ucast c)"
| "const_literal LitNone = EvVal 0"
| "const_literal _ = EvFalse"

text \<open>The switch of \<open>sizeof\<close> and \<open>alignof\<close> over the primitive types; there is no case for \<open>u128\<close>.\<close>

fun prim_size :: "PrimType \<Rightarrow> u64 option" where
  "prim_size PRIM_VOID = Some 0"
| "prim_size PRIM_BOOL = Some 1" | "prim_size PRIM_BYTE = Some 1" | "prim_size PRIM_U8 = Some 1" | "prim_size PRIM_I8 = Some 1"
| "prim_size PRIM_U16 = Some 2" | "prim_size PRIM_I16 = Some 2"
| "prim_size PRIM_U32 = Some 4" | "prim_size PRIM_I32 = Some 4" | "prim_size PRIM_F32 = Some 4"
| "prim_size PRIM_U64 = Some 8" | "prim_size PRIM_I64 = Some 8" | "prim_size PRIM_F64 = Some 8"
| "prim_size PRIM_STRING = Some 8"
| "prim_size PRIM_U128 = None"

fun const_sizeof :: "AstNode \<Rightarrow> Eval" where
  "const_sizeof (TypeNode ty _ prim _ _ _ _ _) =
     (if ty = NODE_TYPE_PRIMITIVE then (case prim_size prim of Some k \<Rightarrow> EvVal k | None \<Rightarrow> EvFalse)
      else if ty = NODE_TYPE_NAMED then EvVal 8 else EvFalse)"
| "const_sizeof _ = EvFalse"

fun const_alignof :: "AstNode \<Rightarrow> Eval" where
  "const_alignof (TypeNode ty _ prim _ _ _ _ _) =
     (if ty = NODE_TYPE_PRIMITIVE \<and> prim_size prim \<noteq> None
      then EvVal (if prim = PRIM_VOID then 1 else the (prim_size prim)) else EvVal 8)"
| "const_alignof _ = EvVal 8"

definition const_call :: "AstNode \<Rightarrow> AstNode list \<Rightarrow> Eval" where
  "const_call callee args =
     (case (ident_text callee, args) of
        (Some fname, arg # _) \<Rightarrow>
          if fname = ''sizeof'' then const_sizeof arg
          else if fname = ''alignof'' then const_alignof arg else EvFalse
      | _ \<Rightarrow> EvFalse)"

text \<open>The value of a constant the name is declared as.\<close>

fun const_value :: "AstNode option \<Rightarrow> AstNode" where
  "const_value (Some (LetDecl t _ _ _ v _ _)) = (if t = NODE_CONST_DECL then v else NULL)"
| "const_value _ = NULL"

fun const_eval_expr :: "nat \<Rightarrow> frame list \<Rightarrow> AstNode \<Rightarrow> Eval option" where
  "const_eval_expr 0 fs node = None"
| "const_eval_expr (Suc n) fs node =
     (case node of
        LiteralNode _ l \<Rightarrow> Some (const_literal l)
      | UnaryOpNode _ op e \<Rightarrow>
          do { r \<leftarrow> const_eval_expr n fs e; Some (case r of EvVal v \<Rightarrow> const_unop op v | r \<Rightarrow> r) }
      | BinaryOpNode t _ op l r _ \<Rightarrow>
          if t = NODE_BINARY_OP
          then do { a \<leftarrow> const_eval_expr n fs l; b \<leftarrow> const_eval_expr n fs r;
                    Some (case (a, b) of
                            (EvUndef, _) \<Rightarrow> EvUndef
                          | (_, EvUndef) \<Rightarrow> EvUndef
                          | (EvVal x, EvVal y) \<Rightarrow> const_op op x y
                          | _ \<Rightarrow> EvFalse) }
          else Some EvFalse
      | IdentNode _ v \<Rightarrow>
          let name = strndup v; value = const_value (lookup_in fs name)
          in if \<not> is_null value then const_eval_expr n fs value
             else if name = ''true'' then Some (EvVal 1)
             else if name = ''false'' then Some (EvVal 0)
             else Some EvFalse
      | CallNode t _ callee args \<Rightarrow> Some (if t = NODE_CALL then const_call callee args else EvFalse)
      | _ \<Rightarrow> Some EvFalse)"

section \<open>Visitors\<close>

text \<open>What a visit calls, and what the dead buffers of instances read as.\<close>

record visits =
  v_fuel :: nat
  v_dead :: "StringView \<Rightarrow> StringView"
  v_node :: "AstNode \<Rightarrow> SemanticAnalyzer \<Rightarrow> SemanticAnalyzer option"
  v_expr :: "AstNode \<Rightarrow> SemanticAnalyzer \<Rightarrow> SemanticAnalyzer option"

fun visit_all :: "(AstNode \<Rightarrow> SemanticAnalyzer \<Rightarrow> SemanticAnalyzer option) \<Rightarrow> AstNode list \<Rightarrow> SemanticAnalyzer \<Rightarrow> SemanticAnalyzer option" where
  "visit_all f [] sa = Some sa"
| "visit_all f (x # xs) sa = do { sa \<leftarrow> f x sa; visit_all f xs sa }"

subsection \<open>Calls\<close>

definition constructor_names :: "string list" where
  "constructor_names = [''string'', ''u8'', ''u16'', ''u32'', ''u64'', ''i8'', ''i16'', ''i32'', ''i64'', ''f32'',
     ''f64'', ''bool'', ''byte'']"

definition builtin_names :: "string list" where
  "builtin_names = [''sizeof'', ''alignof'', ''offsetof'', ''typeName'', ''panic'']"

definition type_arg_names :: "string list" where
  "type_arg_names = [''u8'', ''u16'', ''u32'', ''u64'', ''i8'', ''i16'', ''i32'', ''i64'', ''f32'', ''f64'', ''bool'',
     ''byte'', ''string'', ''void'', ''int'', ''float'', ''double'']"

definition is_type_arg :: "AstNode \<Rightarrow> bool" where
  "is_type_arg arg \<longleftrightarrow> (case ident_text arg of Some name \<Rightarrow> name \<in> set type_arg_names | None \<Rightarrow> False)"

fun decl_type_of :: "AstNode option \<Rightarrow> AstNode" where
  "decl_type_of (Some (LetDecl t _ _ ty _ _ _)) = (if t = NODE_LET then ty else NULL)"
| "decl_type_of (Some (Param t _ _ ty _ _ _)) = (if t = NODE_PARAM then ty else NULL)"
| "decl_type_of _ = NULL"

fun literal_type :: "Literal \<Rightarrow> PrimType option" where
  "literal_type (LitInt _ _) = Some PRIM_I64"
| "literal_type (LitFloat _ _) = Some PRIM_F64"
| "literal_type (LitString _) = Some PRIM_STRING"
| "literal_type (LitBool _) = Some PRIM_BOOL"
| "literal_type _ = None"

text \<open>The concrete type for the \<open>i\<close>th type parameter: the type of the \<open>i\<close>th argument, as far as it is known.\<close>

definition infer_concrete :: "SemanticAnalyzer \<Rightarrow> AstNode list \<Rightarrow> nat \<Rightarrow> AstNode" where
  "infer_concrete sa args i =
     (let fallback = node_type_prim True NO_LOCATION PRIM_I64
      in if i < length args
         then case args ! i of
                IdentNode _ v \<Rightarrow>
                  let ty = decl_type_of (scope_lookup sa (strndup v)) in if is_null ty then fallback else ty
              | LiteralNode loc l \<Rightarrow>
                  (case literal_type l of Some prim \<Rightarrow> node_type_prim True loc prim | None \<Rightarrow> fallback)
              | _ \<Rightarrow> fallback
         else fallback)"

fun func_tparams :: "AstNode option \<Rightarrow> AstNode list" where
  "func_tparams (Some (FuncDecl _ _ _ _ _ _ tps _ _ _)) = tps"
| "func_tparams _ = []"

text \<open>A call of a generic function adds an instance to the program.\<close>

definition instantiate :: "visits \<Rightarrow> AstNode option \<Rightarrow> AstNode list \<Rightarrow> SemanticAnalyzer \<Rightarrow> SemanticAnalyzer option" where
  "instantiate V decl args sa =
     (if func_tparams decl = [] then Some sa
      else do {
        inst \<leftarrow> monomorphize_func (v_fuel V) (v_dead V) (the decl)
                  (map (infer_concrete sa args) [0..<length (func_tparams decl)]);
        Some (sa\<lparr>sa_program := sa_program sa @ [inst]\<rparr>) })"

definition visit_call :: "visits \<Rightarrow> AstNode \<Rightarrow> AstNode list \<Rightarrow> SemanticAnalyzer \<Rightarrow> SemanticAnalyzer option" where
  "visit_call V callee args sa =
     (case ident_text callee of
        Some cn \<Rightarrow>
          if length args = 1 \<and> cn \<in> set constructor_names then visit_all (v_expr V) args sa
          else if cn \<in> set builtin_names
          then visit_all (\<lambda>arg sa. if is_type_arg arg then Some sa else v_expr V arg sa) args sa
          else do { sa \<leftarrow> v_expr V callee sa; sa \<leftarrow> visit_all (v_expr V) args sa;
                    instantiate V (scope_lookup sa cn) args sa }
      | None \<Rightarrow> do { sa \<leftarrow> v_expr V callee sa; visit_all (v_expr V) args sa })"

subsection \<open>Expressions\<close>

text \<open>The parameters of a lambda; only identifiers are declared.\<close>

fun declare_lambda_param :: "AstNode \<Rightarrow> SemanticAnalyzer \<Rightarrow> SemanticAnalyzer option" where
  "declare_lambda_param (Param t loc name ty m va d) sa =
     (case ident_text name of
        Some s \<Rightarrow> Some (scope_declare sa s (Param t loc name ty m va d))
      | None \<Rightarrow> Some sa)"
| "declare_lambda_param _ sa = None"

definition visit_expr :: "visits \<Rightarrow> AstNode \<Rightarrow> SemanticAnalyzer \<Rightarrow> SemanticAnalyzer option" where
  "visit_expr V node sa =
     (case node of
        IdentNode _ v \<Rightarrow> Some (if scope_lookup sa (strndup v) = None then sa_error sa else sa)
      | BinaryOpNode t _ _ l r _ \<Rightarrow>
          if t = NODE_BINARY_OP then do { sa \<leftarrow> v_expr V l sa; v_expr V r sa } else Some sa
      | UnaryOpNode _ _ e \<Rightarrow> v_expr V e sa
      | CallNode t _ callee args \<Rightarrow> if t = NODE_CALL then visit_call V callee args sa else Some sa
      | IndexNode _ a i \<Rightarrow> do { sa \<leftarrow> v_expr V a sa; v_expr V i sa }
      | FieldAccess _ a _ \<Rightarrow> v_expr V a sa
      | MatchNode _ v arms \<Rightarrow> do { sa \<leftarrow> v_expr V v sa; visit_all (v_node V) arms sa }
      | LambdaNode _ ps rty body _ \<Rightarrow>
          do { sa \<leftarrow> visit_all declare_lambda_param ps (scope_enter sa);
               sa \<leftarrow> v_node V rty sa; sa \<leftarrow> v_expr V body sa; Some (scope_exit sa) }
      | ArrayLit _ es \<Rightarrow> visit_all (v_expr V) es sa
      | _ \<Rightarrow> Some sa)"

subsection \<open>Declarations and statements\<close>

fun is_void_type :: "AstNode \<Rightarrow> bool" where
  "is_void_type (TypeNode ty _ prim _ _ _ _ _) \<longleftrightarrow> ty = NODE_TYPE_PRIMITIVE \<and> prim = PRIM_VOID"
| "is_void_type _ = False"

fun ends_function :: "AstNode \<Rightarrow> bool" where
  "ends_function (ReturnNode _ _) = True"
| "ends_function (AsmBlock _ _ _ _ _) = True"
| "ends_function _ = False"

fun has_return :: "AstNode \<Rightarrow> bool" where
  "has_return (NodeList t _ stmts) \<longleftrightarrow> t = NODE_BLOCK \<and> stmts \<noteq> [] \<and> ends_function (last stmts)"
| "has_return n = ends_function n"

text \<open>The check behind the body: a function with a return type ends with a return.\<close>

definition missing_return :: "AstNode \<Rightarrow> AstNode \<Rightarrow> bool" where
  "missing_return rty body \<longleftrightarrow> \<not> is_null rty \<and> \<not> is_null body \<and> \<not> is_void_type rty \<and> \<not> has_return body"

fun declare_tparam :: "AstNode \<Rightarrow> SemanticAnalyzer \<Rightarrow> SemanticAnalyzer option" where
  "declare_tparam (IdentNode loc v) sa = declare_as (IdentNode loc v) (IdentNode loc v) sa"
| "declare_tparam _ sa = Some sa"

fun declare_param :: "AstNode \<Rightarrow> SemanticAnalyzer \<Rightarrow> SemanticAnalyzer option" where
  "declare_param (Param t loc name ty m va d) sa = declare_as name (Param t loc name ty m va d) sa"
| "declare_param _ sa = None"

definition visit_func ::
    "visits \<Rightarrow> AstNode \<Rightarrow> AstNode \<Rightarrow> AstNode list \<Rightarrow> AstNode \<Rightarrow> AstNode \<Rightarrow> AstNode list \<Rightarrow> SemanticAnalyzer \<Rightarrow>
     SemanticAnalyzer option" where
  "visit_func V node name params rty body tps sa =
     do { sa \<leftarrow> declare_as name node sa;
          sa \<leftarrow> visit_all declare_tparam tps (scope_enter sa);
          sa \<leftarrow> visit_all declare_param params sa;
          sa \<leftarrow> v_node V rty sa;
          sa \<leftarrow> v_node V body sa;
          Some (scope_exit (if missing_return rty body then sa_error sa else sa)) }"

text \<open>A constant: the declaration with its value evaluated, and the state behind it.\<close>

definition visit_const :: "nat \<Rightarrow> AstNode \<Rightarrow> SemanticAnalyzer \<Rightarrow> (AstNode \<times> SemanticAnalyzer) option" where
  "visit_const n node sa =
     (case node of
        LetDecl t loc name ty v m g \<Rightarrow>
          do { r \<leftarrow> (if is_null v then Some EvFalse else const_eval_expr n (sa_scopes sa) v);
               v \<leftarrow> (case r of EvVal w \<Rightarrow> Some (node_int_literal True loc w) | EvFalse \<Rightarrow> Some v | EvUndef \<Rightarrow> None);
               let node = LetDecl t loc name ty v m g;
               sa \<leftarrow> (if is_null name then Some sa else declare_as name node sa);
               Some (node, sa) }
      | _ \<Rightarrow> None)"

definition visit_catch :: "visits \<Rightarrow> AstNode \<Rightarrow> SemanticAnalyzer \<Rightarrow> SemanticAnalyzer option" where
  "visit_catch V arm sa =
     (case arm of
        CatchArm _ _ var body _ \<Rightarrow>
          do { sa \<leftarrow> (if is_null var then Some sa else declare_as var var sa); v_node V body sa }
      | _ \<Rightarrow> None)"

text \<open>\<open>if\<close> and \<open>if let\<close>; the pattern is declared in the scope around the body.\<close>

definition visit_if ::
    "visits \<Rightarrow> AstNode \<Rightarrow> AstNode \<Rightarrow> AstNode \<Rightarrow> AstNode \<Rightarrow> bool \<Rightarrow> AstNode \<Rightarrow> SemanticAnalyzer \<Rightarrow> SemanticAnalyzer option" where
  "visit_if V cond th el es is_let pattern sa =
     (if is_let
      then do { sa \<leftarrow> v_expr V cond sa;
                v_node V th (case ident_text pattern of Some s \<Rightarrow> scope_declare sa s pattern | None \<Rightarrow> sa) }
      else do { sa \<leftarrow> v_expr V cond sa; sa \<leftarrow> v_node V th sa; sa \<leftarrow> v_node V el sa; v_node V es sa })"

definition visit_var :: "visits \<Rightarrow> AstNode \<Rightarrow> SemanticAnalyzer \<Rightarrow> SemanticAnalyzer option" where
  "visit_var V var sa =
     (if is_null var then Some sa else do { sa \<leftarrow> declare_as var var sa; v_node V var sa })"

definition visit_node :: "visits \<Rightarrow> AstNode \<Rightarrow> SemanticAnalyzer \<Rightarrow> SemanticAnalyzer option" where
  "visit_node V node sa =
     (case node of
        FuncDecl _ name params rty body _ tps _ _ _ \<Rightarrow> visit_func V node name params rty body tps sa
      | NodeList t _ xs \<Rightarrow>
          if t = NODE_BLOCK then do { sa \<leftarrow> visit_all (v_node V) xs (scope_enter sa); Some (scope_exit sa) }
          else if t = NODE_RUN_BLOCK then visit_all (v_node V) xs sa
          else if t = NODE_TYPE_ALIAS then (case xs of [] \<Rightarrow> Some sa | name # _ \<Rightarrow> declare_as name node sa)
          else Some sa
      | LetDecl t _ name ty v _ _ \<Rightarrow>
          if t = NODE_LET
          then do { s \<leftarrow> ident_text name; sa \<leftarrow> v_expr V v sa; v_node V ty (scope_declare sa s node) }
          else if t = NODE_CONST_DECL then map_option snd (visit_const (v_fuel V) node sa)
          else Some sa
      | StructDecl _ _ name _ methods _ _ \<Rightarrow>
          do { sa \<leftarrow> (if is_null name then Some sa else declare_as name node sa); visit_all (v_node V) methods sa }
      | EnumDecl _ name _ _ \<Rightarrow> if is_null name then Some sa else declare_as name node sa
      | ReturnNode _ v \<Rightarrow> v_expr V v sa
      | IfNode _ cond th el es is_let pattern \<Rightarrow> visit_if V cond th el es is_let pattern sa
      | WhileNode _ cond body \<Rightarrow> do { sa \<leftarrow> v_expr V cond sa; v_node V body sa }
      | ForNode _ var iterable body index_var \<Rightarrow>
          do { sa \<leftarrow> visit_var V var sa; sa \<leftarrow> visit_var V index_var sa;
               sa \<leftarrow> v_expr V iterable sa; v_node V body sa }
      | CallNode t _ e _ \<Rightarrow> if t = NODE_EXPR_STMT then v_expr V e sa else Some sa
      | TryNode _ body arms fin \<Rightarrow>
          do { sa \<leftarrow> v_node V body sa; sa \<leftarrow> visit_all (visit_catch V) arms sa; v_node V fin sa }
      | ThrowNode _ v \<Rightarrow> v_expr V v sa
      | SpawnNode _ call \<Rightarrow> v_node V call sa
      | _ \<Rightarrow> Some sa)"

text \<open>The knot.\<close>

primrec visits_at :: "(StringView \<Rightarrow> StringView) \<Rightarrow> nat \<Rightarrow> visits" where
  "visits_at dead 0 = \<lparr>v_fuel = 0, v_dead = dead, v_node = \<lambda>_ _. None, v_expr = \<lambda>_ _. None\<rparr>"
| "visits_at dead (Suc n) = (let V = visits_at dead n
     in \<lparr>v_fuel = Suc n, v_dead = dead, v_node = visit_node V, v_expr = visit_expr V\<rparr>)"

section \<open>Programs\<close>

text \<open>The first pass declares the names of the program.\<close>

definition first_pass :: "AstNode \<Rightarrow> SemanticAnalyzer \<Rightarrow> SemanticAnalyzer option" where
  "first_pass decl sa =
     (case decl of
        FuncDecl _ name _ _ _ _ _ _ _ _ \<Rightarrow> declare_as name decl sa
      | LetDecl t _ name _ _ _ global \<Rightarrow>
          if t = NODE_CONST_DECL \<or> t = NODE_LET \<and> global then declare_as name decl sa else Some sa
      | StructDecl _ _ name _ _ _ _ \<Rightarrow> declare_as name decl sa
      | EnumDecl _ name _ _ \<Rightarrow> declare_as name decl sa
      | TraitDecl _ name _ _ \<Rightarrow> declare_as name decl sa
      | _ \<Rightarrow> Some sa)"

fun is_const_decl :: "AstNode \<Rightarrow> bool" where
  "is_const_decl (LetDecl t _ _ _ _ _ _) \<longleftrightarrow> t = NODE_CONST_DECL"
| "is_const_decl _ = False"

fun is_import :: "AstNode \<Rightarrow> bool" where
  "is_import (ImportNode _ _) = True"
| "is_import _ = False"

text \<open>The second pass visits the declarations in turn, the instances added on the way included.\<close>

definition second_pass_step ::
    "visits \<Rightarrow> nat \<times> SemanticAnalyzer \<Rightarrow> (bool \<times> nat \<times> SemanticAnalyzer) option" where
  "second_pass_step V = (\<lambda>(i, sa).
     if i \<ge> length (sa_program sa) then Some (False, i, sa)
     else let decl = sa_program sa ! i
          in if is_import decl then Some (True, Suc i, sa)
             else if is_const_decl decl
             then do { (decl, sa) \<leftarrow> visit_const (v_fuel V) decl sa;
                       Some (True, Suc i, sa\<lparr>sa_program := (sa_program sa)[i := decl]\<rparr>) }
             else do { sa \<leftarrow> v_node V decl sa; Some (True, Suc i, sa) })"

definition visit_program :: "visits \<Rightarrow> SemanticAnalyzer \<Rightarrow> SemanticAnalyzer option" where
  "visit_program V sa =
     do { sa \<leftarrow> visit_all first_pass (sa_program sa) sa;
          (_, sa) \<leftarrow> loop (v_fuel V) (second_pass_step V) (0, sa);
          Some sa }"

section \<open>Generated code\<close>

text \<open>The text of the first argument of a statement \<open>emit("...")\<close>, without its quotes, if it is not empty.\<close>

definition emitted_code :: "AstNode \<Rightarrow> string" where
  "emitted_code stmt =
     (case (case stmt of CallNode t _ e _ \<Rightarrow> if t = NODE_EXPR_STMT then e else stmt | _ \<Rightarrow> NULL) of
        CallNode t _ callee args \<Rightarrow>
          (case args of
             LiteralNode _ (LitString code) # _ \<Rightarrow>
               if t = NODE_CALL \<and> ident_text callee = Some ''emit''
               then let bs = sv_bytes code
                    in if length bs \<ge> 2 \<and> hd bs = DQUOTE \<and> last bs = DQUOTE then butlast (tl bs) else bs
               else []
           | _ \<Rightarrow> [])
      | _ \<Rightarrow> [])"

text \<open>
  A generated declaration is copied without its contents, but for the payload of a function, whose nodes are in
  the arena that is destroyed afterwards: \<open>freed\<close> is what they read as from then on.
\<close>

definition freed_child :: "(AstNode \<Rightarrow> AstNode) \<Rightarrow> AstNode \<Rightarrow> AstNode" where
  "freed_child freed n = (if is_null n then NULL else freed n)"

definition add_generated :: "(AstNode \<Rightarrow> AstNode) \<Rightarrow> AstNode \<Rightarrow> SemanticAnalyzer \<Rightarrow> SemanticAnalyzer option" where
  "add_generated freed decl sa =
     (case decl of
        FuncDecl loc name params rty body defers tps pres posts info \<Rightarrow>
          let copy = FuncDecl loc name (map freed params) (freed_child freed rty) (freed_child freed body)
                       (map freed defers) (map freed tps) (map freed pres) (map freed posts) info
          in do { sa \<leftarrow> declare_as name copy sa; Some (sa\<lparr>sa_program := sa_program sa @ [copy]\<rparr>) }
      | _ \<Rightarrow> Some (sa\<lparr>sa_program := sa_program sa @ [blank_node decl]\<rparr>))"

definition run_emit :: "nat \<Rightarrow> (AstNode \<Rightarrow> AstNode) \<Rightarrow> AstNode \<Rightarrow> SemanticAnalyzer \<Rightarrow> SemanticAnalyzer option" where
  "run_emit n freed stmt sa =
     (let code = emitted_code stmt
      in if code = [] then Some sa
         else do { p \<leftarrow> parser_create (\<lambda>_. True) code (length code) (Some ''<emit>'');
                   (generated, _) \<leftarrow> parser_parse n p;
                   (case generated of
                      NodeList t _ decls \<Rightarrow> if t = NODE_PROGRAM then visit_all (add_generated freed) decls sa else Some sa
                    | _ \<Rightarrow> Some sa) })"

text \<open>
  The statements of a \<open>#run\<close> block.  A block is visited twice, by this pass and with the program, so a
  constant among its statements is kept with its value.
\<close>

fun visit_run_stmts :: "visits \<Rightarrow> AstNode list \<Rightarrow> SemanticAnalyzer \<Rightarrow> (AstNode list \<times> SemanticAnalyzer) option" where
  "visit_run_stmts V [] sa = Some ([], sa)"
| "visit_run_stmts V (stmt # stmts) sa =
     do { (stmt, sa) \<leftarrow> (if is_const_decl stmt then visit_const (v_fuel V) stmt sa
                        else map_option (Pair stmt) (v_node V stmt sa));
          (stmts, sa) \<leftarrow> visit_run_stmts V stmts sa;
          Some (stmt # stmts, sa) }"

text \<open>The pass over the \<open>#run\<close> blocks before the program is visited.\<close>

definition run_blocks_step ::
    "visits \<Rightarrow> (AstNode \<Rightarrow> AstNode) \<Rightarrow> nat \<times> SemanticAnalyzer \<Rightarrow> (bool \<times> nat \<times> SemanticAnalyzer) option" where
  "run_blocks_step V freed = (\<lambda>(i, sa).
     if i \<ge> length (sa_program sa) then Some (False, i, sa)
     else case sa_program sa ! i of
            NodeList t loc stmts \<Rightarrow>
              if t = NODE_RUN_BLOCK
              then do { (stmts, sa) \<leftarrow> visit_run_stmts V stmts sa;
                        sa \<leftarrow> visit_all (run_emit (v_fuel V) freed) stmts
                                (sa\<lparr>sa_program := (sa_program sa)[i := NodeList t loc stmts]\<rparr>);
                        Some (True, Suc i, sa) }
              else Some (True, Suc i, sa)
          | _ \<Rightarrow> Some (True, Suc i, sa))"

definition declared_builtins :: "string list" where
  "declared_builtins = [''print'', ''exit'', ''sizeof'', ''alignof'', ''offsetof'', ''typeName'', ''panic'', ''emit'',
     ''target_arch'']"

definition builtin_decl :: AstNode where
  "builtin_decl = FuncDecl NO_LOCATION NULL [] NULL NULL [] [] [] [] fi_zero"

definition semantic_analyze ::
    "nat \<Rightarrow> (StringView \<Rightarrow> StringView) \<Rightarrow> (AstNode \<Rightarrow> AstNode) \<Rightarrow> AstNode list \<Rightarrow> SemanticAnalyzer \<Rightarrow> SemanticAnalyzer option" where
  "semantic_analyze n dead freed program sa =
     (let V = visits_at dead n;
          sa = foldl (\<lambda>sa name. scope_declare sa name builtin_decl) (sa\<lparr>sa_program := program\<rparr>) declared_builtins
      in do { (_, sa) \<leftarrow> loop (v_fuel V) (run_blocks_step V freed) (0, sa);
              visit_program V sa })"

end
