(* ===== verification/GenericsProps.thy ===== *)
theory GenericsProps
  imports Generics ParserFuel
begin

text \<open>
  What the instances of generic functions are: closed types, when substitution ends and when it does not, the
  bounds of the mangled name, and the parts of a body that are lost.
\<close>

section \<open>Type parameters in types\<close>

text \<open>The names in a type, at the places the code copies.\<close>

fun type_names :: "AstNode \<Rightarrow> StringView list" where
  "type_names (TypeNode ty loc prim elem tuple rty ps info) =
     (if ty = NODE_TYPE_NAMED then [ti_name info]
      else if ty \<in> set elem_types then type_names elem
      else if ty = NODE_TYPE_TUPLE then concat (map type_names ps)
      else if ty = NODE_TYPE_FN then concat (map type_names ps) @ type_names rty
      else [])"
| "type_names _ = []"

definition is_tparam :: "AstNode list \<Rightarrow> StringView \<Rightarrow> bool" where
  "is_tparam tps name \<longleftrightarrow> list_ex (\<lambda>tp. case tparam_name tp of Some n \<Rightarrow> same_text name n | None \<Rightarrow> False) tps"

definition closed_type :: "AstNode list \<Rightarrow> AstNode \<Rightarrow> bool" where
  "closed_type tps t \<longleftrightarrow> list_all (\<lambda>name. \<not> is_tparam tps name) (type_names t)"

lemma closed_NULL [simp]: "closed_type tps NULL"
  by (simp add: closed_type_def)

lemma concrete_for_None:
  assumes "concrete_for name tps cts = None" "length tps \<le> length cts"
  shows "\<not> is_tparam tps name"
  using assms by (induction name tps cts rule: concrete_for.induct)
    (auto simp: is_tparam_def split: option.splits if_splits)

lemma concrete_for_member: "concrete_for name tps cts = Some ct \<Longrightarrow> ct \<in> set cts"
  by (induction name tps cts rule: concrete_for.induct) (auto split: option.splits if_splits)

lemma those_member: "those (map f xs) = Some zs \<Longrightarrow> z \<in> set zs \<Longrightarrow> \<exists>x\<in>set xs. f x = Some z"
  by (induction xs arbitrary: zs) (auto split: option.splits)

lemma mono_list_members:
  assumes "mono_list f xs = Some ys" "\<And>x y. x \<in> set xs \<Longrightarrow> f x = Some y \<Longrightarrow> P y"
  shows "\<forall>y\<in>set ys. P y"
proof -
  obtain zs where "those (map f xs) = Some zs" "ys = filter (\<lambda>x. \<not> is_null x) zs"
    using assms(1) by (auto simp: mono_list_def)
  then show ?thesis using assms(2) those_member [of f xs zs] by fastforce
qed

lemma mono_type_step_closed:
  assumes "mono_type_step self tps cts t = Some t'" "length tps \<le> length cts"
    "\<And>t t'. self t = Some t' \<Longrightarrow> closed_type tps t'"
  shows "closed_type tps t'"
proof -
  have list: "mono_list self xs = Some ys \<Longrightarrow> \<forall>y\<in>set ys. closed_type tps y" for xs ys
    using mono_list_members [of self xs ys "closed_type tps"] assms(3) by blast
  show ?thesis
  proof (cases t)
    case (TypeNode ty loc prim elem tuple rty ps info)
    then show ?thesis
      using assms(1) list assms(3) concrete_for_None [OF _ assms(2)]
      by (fastforce simp: mono_type_step_def closed_type_def node_type_prim_def node_type_named_def node_create_def
          elem_types_def list_all_iff split: if_splits option.splits bind_splits)
  qed (use assms(1) in \<open>auto simp: closed_type_def mono_type_step_def\<close>)
qed

lemma monomorphize_type_closed:
  "monomorphize_type n t tps cts = Some t' \<Longrightarrow> length tps \<le> length cts \<Longrightarrow> closed_type tps t'"
  by (induction n arbitrary: t t') (auto intro: mono_type_step_closed)

section \<open>When substitution ends\<close>

lemma concrete_for_tparam: "concrete_for name tps cts = Some ct \<Longrightarrow> is_tparam tps name"
  by (induction name tps cts rule: concrete_for.induct) (auto simp: is_tparam_def split: option.splits if_splits)

lemma those_total: "(\<And>x. x \<in> set xs \<Longrightarrow> \<exists>y. f x = Some y) \<Longrightarrow> \<exists>ys. those (map f xs) = Some ys"
  by (induction xs) force+

lemma mono_list_total: "(\<And>x. x \<in> set xs \<Longrightarrow> \<exists>y. f x = Some y) \<Longrightarrow> \<exists>ys. mono_list f xs = Some ys"
  using those_total [of xs f] by (auto simp: mono_list_def)

lemma mono_list_below: "(\<And>x. below (f x) (g x)) \<Longrightarrow> below (mono_list f xs) (mono_list g xs)"
proof -
  assume fg: "\<And>x. below (f x) (g x)"
  have "those (map f xs) = Some ys \<Longrightarrow> those (map g xs) = Some ys" for ys
    using fg by (induction xs arbitrary: ys) (auto simp: below_def split: option.splits)
  then show ?thesis by (auto simp: below_def mono_list_def)
qed

lemma mono_type_step_below:
  "(\<And>t. below (f t) (g t)) \<Longrightarrow> below (mono_type_step f tps cts t) (mono_type_step g tps cts t)"
  by (cases t) (auto simp: mono_type_step_def intro!: below_refl below_bind mono_list_below split: option.split)

lemma monomorphize_type_below: "n \<le> m \<Longrightarrow> below (monomorphize_type n t tps cts) (monomorphize_type m t tps cts)"
proof (induction n arbitrary: m t)
  case (Suc n)
  then obtain k where m: "m = Suc k" "n \<le> k" by (cases m) auto
  show ?case unfolding m(1) monomorphize_type.simps by (rule mono_type_step_below) (rule Suc.IH [OF m(2)])
qed (simp add: below_None)

text \<open>Fuel for a type: its size, and that of the concrete types for the parameters in it.\<close>

lemma size_member: "x \<in> set xs \<Longrightarrow> size (x :: AstNode) < size_list size xs"
  by (induction xs) auto

lemma closed_parts:
  assumes "closed_type tps (TypeNode ty loc prim elem tuple rty ps info)"
  shows "ty = NODE_TYPE_NAMED \<Longrightarrow> \<not> is_tparam tps (ti_name info)" "ty \<in> set elem_types \<Longrightarrow> closed_type tps elem"
    "ty = NODE_TYPE_TUPLE \<or> ty = NODE_TYPE_FN \<Longrightarrow> x \<in> set ps \<Longrightarrow> closed_type tps x"
    "ty = NODE_TYPE_FN \<Longrightarrow> closed_type tps rty"
  using assms by (auto simp: closed_type_def elem_types_def list_all_iff)

lemma mono_type_step_total:
  assumes "\<And>x. size x < size t \<Longrightarrow> (closed_type tps t \<Longrightarrow> closed_type tps x) \<Longrightarrow> \<exists>y. self x = Some y"
    "\<And>ct. \<not> closed_type tps t \<Longrightarrow> ct \<in> set cts \<Longrightarrow> \<exists>y. self ct = Some y"
  shows "\<exists>y. mono_type_step self tps cts t = Some y"
proof (cases t)
  case (TypeNode ty loc prim elem tuple rty ps info)
  note parts = closed_parts [of tps ty loc prim elem tuple rty ps info, folded TypeNode]
  have elem: "ty \<in> set elem_types \<Longrightarrow> \<exists>y. self elem = Some y" using assms(1) [of elem] parts(2) by (simp add: TypeNode)
  have rty: "ty = NODE_TYPE_FN \<Longrightarrow> \<exists>y. self rty = Some y" using assms(1) [of rty] parts(4) by (simp add: TypeNode)
  have ps: "ty = NODE_TYPE_TUPLE \<or> ty = NODE_TYPE_FN \<Longrightarrow> \<exists>ys. mono_list self ps = Some ys"
  proof (rule mono_list_total)
    fix x assume "ty = NODE_TYPE_TUPLE \<or> ty = NODE_TYPE_FN" "x \<in> set ps"
    then show "\<exists>y. self x = Some y"
      using assms(1) [of x] parts(3) [of x] size_member [of x ps] by (simp add: TypeNode)
  qed
  have "concrete_for (ti_name info) tps cts = Some ct \<Longrightarrow> ty = NODE_TYPE_NAMED \<Longrightarrow> \<exists>y. self ct = Some y" for ct
    using assms(2) [of ct] parts(1) concrete_for_tparam concrete_for_member by blast
  then show ?thesis
    using elem rty ps by (auto simp: mono_type_step_def TypeNode split: option.split)
qed (simp_all add: mono_type_step_def)

lemma closed_total: "closed_type tps t \<Longrightarrow> size t < n \<Longrightarrow> \<exists>t'. monomorphize_type n t tps cts = Some t'"
proof (induction n arbitrary: t)
  case (Suc n)
  show ?case unfolding monomorphize_type.simps
    by (rule mono_type_step_total) (use Suc in auto)
qed simp

lemma open_total:
  "list_all (closed_type tps) cts \<Longrightarrow> size t + size_list size cts < n \<Longrightarrow> \<exists>t'. monomorphize_type n t tps cts = Some t'"
proof (induction n arbitrary: t)
  case (Suc n)
  show ?case unfolding monomorphize_type.simps
  proof (rule mono_type_step_total)
    fix ct assume "ct \<in> set cts"
    then show "\<exists>y. monomorphize_type n ct tps cts = Some y"
      using Suc.prems closed_total [of tps ct n cts] size_member [of ct cts] by (auto simp: list_all_iff)
  qed (use Suc in auto)
qed simp

text \<open>C900: substitution ends when no concrete type mentions a type parameter: fuel above the size of the type and of
  the concrete types gives one result, whatever the fuel.
\<close>

theorem monomorphize_type_total:
  assumes "list_all (closed_type tps) cts"
  shows "\<exists>t'. \<forall>n. size t + size_list size cts < n \<longrightarrow> monomorphize_type n t tps cts = Some t'"
proof -
  let ?n = "Suc (size t + size_list size cts)"
  obtain t' where "monomorphize_type ?n t tps cts = Some t'" using open_total [OF assms, of t ?n] by auto
  then have "monomorphize_type n t tps cts = Some t'" if "?n \<le> n" for n
    using monomorphize_type_below [OF that, of t tps cts] by (simp add: below_def)
  then show ?thesis by (auto simp: Suc_le_eq)
qed

definition type_T :: AstNode where "type_T = node_type_named True NO_LOCATION (sv_from_cstr ''T'')"

definition param_T :: AstNode where
  "param_T = TypeParam NO_LOCATION (IdentNode NO_LOCATION (sv_from_cstr ''T'')) NULL"

definition prim_type :: "PrimType \<Rightarrow> AstNode" where "prim_type prim = node_type_prim True NO_LOCATION prim"

lemma monomorphize_type_total_witness:
  "\<exists>t'. monomorphize_type 100 type_T [param_T] [prim_type PRIM_I64] = Some t'"
proof -
  have "list_all (closed_type [param_T]) [prim_type PRIM_I64]"
    by (simp add: closed_type_def prim_type_def node_type_prim_def node_create_def elem_types_def)
  then obtain t' where "\<forall>n. size type_T + size_list size [prim_type PRIM_I64] < n \<longrightarrow>
      monomorphize_type n type_T [param_T] [prim_type PRIM_I64] = Some t'"
    using monomorphize_type_total by blast
  moreover have "size type_T + size_list size [prim_type PRIM_I64] < 100"
    by (simp add: type_T_def prim_type_def node_type_named_def node_type_prim_def node_create_def)
  ultimately show ?thesis by blast
qed

text \<open>C901: substitution never ends when the concrete type for a parameter is a type of the parameter's own name, as in
  a call, inside a generic function over \<open>T\<close>, of a generic function over \<open>T\<close> with a variable of type \<open>T\<close>.
\<close>

theorem self_instance_diverges:
  assumes "concrete_for (ti_name info) tps cts = Some ct"
    "ct = TypeNode NODE_TYPE_NAMED loc' prim' elem' tuple' rty' ps' info'" "same_text (ti_name info') (ti_name info)"
  shows "monomorphize_type n (TypeNode NODE_TYPE_NAMED loc prim elem tuple rty ps info) tps cts = None"
proof -
  have same: "concrete_for a tps cts = concrete_for b tps cts" if "same_text a b" for a b
    using that by (induction b tps cts rule: concrete_for.induct) (auto simp: same_text_def split: option.splits)
  have "concrete_for (ti_name info') tps cts = Some ct" using same [OF assms(3)] assms(1) by simp
  then have "monomorphize_type k ct tps cts = None" for k
    by (induction k) (simp_all add: assms(2) mono_type_step_def)
  then show ?thesis using assms(1) by (cases n) (simp_all add: mono_type_step_def)
qed

lemma self_instance_diverges_witness:
  "monomorphize_type 1000 type_T [param_T] [type_T] = None"
  unfolding type_T_def node_type_named_def node_create_def if_True
  by (rule self_instance_diverges [where ct = type_T and info' = "ti_zero\<lparr>ti_name := sv_from_cstr ''T''\<rparr>"])
    (simp_all add: type_T_def param_T_def node_type_named_def node_create_def same_text_def)

section \<open>Instances\<close>

fun param_type_of :: "AstNode \<Rightarrow> AstNode" where
  "param_type_of (Param _ _ _ ty _ _ _) = ty"
| "param_type_of _ = NULL"

lemma mono_param_closed:
  assumes "mono_param n tps cts p = Some p'" "length tps \<le> length cts"
  shows "closed_type tps (param_type_of p')"
  using assms monomorphize_type_closed by (cases p) (auto split: bind_splits)

text \<open>C902: an instance of a generic function is not generic: it has no type parameters, and when every parameter of the
  generic function has a concrete type, none of them occurs in the instance's parameter types or return type.
\<close>

theorem instance_types_closed:
  assumes "monomorphize_func n dead (FuncDecl loc name params rty body defers tps pres posts info) cts = Some f"
    "tps \<noteq> []" "length tps \<le> length cts"
  shows "\<exists>name' params' rty' body' info'. f = FuncDecl loc name' params' rty' body' [] [] [] [] info' \<and>
    length params' = length params \<and> list_all (\<lambda>p. closed_type tps (param_type_of p)) params' \<and> closed_type tps rty'"
proof -
  from assms(1,2) obtain nloc fname rty' params' body' where
    r: "monomorphize_type n rty tps cts = Some rty'" "those (map (mono_param n tps cts) params) = Some params'" and
    f: "f = FuncDecl loc (IdentNode nloc (dead (let m = mangled_name fname cts in sv_from_parts m (length m)))) params'
          rty' body' [] [] [] [] (mono_info info)"
    by (auto split: AstNode.splits bind_splits)
  have "those (map g xs) = Some ys \<Longrightarrow> length ys = length xs" for g :: "AstNode \<Rightarrow> AstNode option" and xs ys
    by (induction xs arbitrary: ys) (auto split: option.splits)
  then have "length params' = length params" using r(2) by blast
  moreover have "list_all (\<lambda>p. closed_type tps (param_type_of p)) params'"
    using those_member [OF r(2)] mono_param_closed assms(3) by (fastforce simp: list_all_iff)
  ultimately show ?thesis using f monomorphize_type_closed [OF r(1) assms(3)] by blast
qed

text \<open>\<open>func id<T>(x: T): T\<close>, without a body.\<close>

definition id_func :: AstNode where
  "id_func = FuncDecl NO_LOCATION (IdentNode NO_LOCATION (sv_from_cstr ''id''))
     [node_param True NO_LOCATION (IdentNode NO_LOCATION (sv_from_cstr ''x'')) type_T False False]
     type_T NULL [] [param_T] [] [] fi_zero"

lemma instance_types_closed_witness:
  "\<exists>f. monomorphize_func 5 (\<lambda>v. v) id_func [prim_type PRIM_I64] = Some f \<and>
     (\<exists>name params rty body info. f = FuncDecl NO_LOCATION name params rty body [] [] [] [] info \<and>
        length params = 1 \<and> closed_type [param_T] rty)"
proof -
  have "\<exists>f. monomorphize_func 5 (\<lambda>v. v) id_func [prim_type PRIM_I64] = Some f"
    by (simp add: id_func_def numeral_eq_Suc mono_type_step_def mono_expr_step_def mono_node_step_def type_T_def
        param_T_def prim_type_def node_type_named_def node_type_prim_def node_create_def node_param_def same_text_def)
  then obtain f where f: "monomorphize_func 5 (\<lambda>v. v) id_func [prim_type PRIM_I64] = Some f" by blast
  from instance_types_closed [OF f [unfolded id_func_def]] f show ?thesis by auto
qed




end
