(* ===== verification/SemanticProps.thy ===== *)
theory SemanticProps
  imports Semantic GenericsProps
begin

text \<open>
  Properties of the semantic analyser: scopes are a stack discipline (the locale \<open>visit_contract\<close>, interpreted
  on the visitors), the count of errors is the number of uses of undeclared names in the expressions that are
  visited at all, and what is not visited.
\<close>

section \<open>Scopes\<close>

text \<open>A visit may declare names in the current scope, report errors and add declarations; nothing else.\<close>

definition visited :: "SemanticAnalyzer \<Rightarrow> SemanticAnalyzer \<Rightarrow> bool" where
  "visited sa sb \<longleftrightarrow> (\<exists>new. sa_scopes sb = (new @ hd (sa_scopes sa)) # tl (sa_scopes sa)) \<and>
     sa_error_count sa \<le> sa_error_count sb \<and> (\<exists>ds. sa_program sb = sa_program sa @ ds)"

lemma current_scope [simp]: "sa_scopes sa \<noteq> [] \<Longrightarrow> \<exists>new. sa_scopes sa = (new @ hd (sa_scopes sa)) # tl (sa_scopes sa)"
  by (rule exI[of _ "[]"]) simp

lemma visited_refl: "sa_scopes sa \<noteq> [] \<Longrightarrow> visited sa sa"
  by (simp add: visited_def)

lemma visited_open: "visited sa sb \<Longrightarrow> sa_scopes sb \<noteq> []"
  by (auto simp: visited_def)

lemma visited_trans: "visited sa sb \<Longrightarrow> visited sb sc \<Longrightarrow> visited sa sc"
  by (fastforce simp: visited_def)

lemma visited_declare: "sa_scopes sa \<noteq> [] \<Longrightarrow> visited sa (scope_declare sa s d)"
  by (cases "sa_scopes sa") (auto simp: visited_def scope_declare_def)

lemma visited_error: "sa_scopes sa \<noteq> [] \<Longrightarrow> visited sa (sa_error sa)"
  by (simp add: visited_def sa_error_def)

lemma scope_enter_open [simp]: "sa_scopes (scope_enter sa) \<noteq> []"
  by (simp add: scope_enter_def)

text \<open>Whatever is declared in a scope is gone when it is left.\<close>

lemma visited_block: "sa_scopes sa \<noteq> [] \<Longrightarrow> visited (scope_enter sa) sb \<Longrightarrow> visited sa (scope_exit sb)"
  by (cases "sa_scopes sa") (auto simp: visited_def scope_enter_def scope_exit_def)

text \<open>Steps that keep the outer scopes, and the rest of a block up to its end.\<close>

definition keeps :: "(SemanticAnalyzer \<Rightarrow> SemanticAnalyzer option) \<Rightarrow> bool" where
  "keeps f \<longleftrightarrow> (\<forall>sa sb. f sa = Some sb \<longrightarrow> sa_scopes sa \<noteq> [] \<longrightarrow> visited sa sb)"

definition exits :: "(SemanticAnalyzer \<Rightarrow> SemanticAnalyzer option) \<Rightarrow> bool" where
  "exits f \<longleftrightarrow> (\<forall>sa sb. f sa = Some sb \<longrightarrow> sa_scopes sa \<noteq> [] \<longrightarrow> (\<exists>m. visited sa m \<and> sb = scope_exit m))"

lemma keeps_visited: "keeps f \<Longrightarrow> f sa = Some sb \<Longrightarrow> sa_scopes sa \<noteq> [] \<Longrightarrow> visited sa sb"
  by (simp add: keeps_def)

named_theorems keeping \<open>steps that keep the outer scopes\<close>

lemma keeps_Some [keeping]: "keeps Some"
  by (simp add: keeps_def visited_refl)

lemma keeps_None [keeping]: "keeps (\<lambda>sa. None)"
  by (simp add: keeps_def)

lemma keeps_error [keeping]: "keeps (\<lambda>sa. Some (if b sa then sa_error sa else sa))"
  by (simp add: keeps_def visited_refl visited_error)

lemma keeps_bind [keeping]:
  assumes "keeps f" "keeps g"
  shows "keeps (\<lambda>sa. f sa \<bind> g)"
  using assms unfolding keeps_def bind_eq_Some_conv
  by (metis visited_open visited_trans)

lemma keeps_if [keeping]: "keeps f \<Longrightarrow> keeps g \<Longrightarrow> keeps (\<lambda>sa. if b sa then f sa else g sa)"
  by (simp add: keeps_def)

lemma keeps_state: "(\<And>x. keeps (F x)) \<Longrightarrow> keeps (\<lambda>sa. F sa sa)"
  by (simp add: keeps_def)

lemma keeps_all [keeping]:
  assumes "\<And>x. keeps (f x)"
  shows "keeps (visit_all f xs)"
proof (induction xs)
  case Nil
  show ?case by (simp add: keeps_def visited_refl)
next
  case (Cons x xs)
  have "visit_all f (x # xs) = (\<lambda>sa. f x sa \<bind> visit_all f xs)" by (simp add: fun_eq_iff)
  then show ?case using keeps_bind[OF assms Cons] by simp
qed

lemma exits_exit: "exits (\<lambda>sa. Some (scope_exit (if b sa then sa_error sa else sa)))"
  by (auto simp: exits_def intro: visited_refl visited_error)

lemma exits_exit_plain: "exits (\<lambda>sa. Some (scope_exit sa))"
  by (auto simp: exits_def intro: visited_refl)

lemma exits_bind:
  assumes "keeps f" "exits g"
  shows "exits (\<lambda>sa. f sa \<bind> g)"
  using assms unfolding keeps_def exits_def bind_eq_Some_conv
  by (metis visited_open visited_trans)

lemma keeps_block:
  assumes "exits f"
  shows "keeps (\<lambda>sa. f (scope_enter sa))"
  using assms unfolding keeps_def exits_def
  by (metis scope_enter_open visited_block)

lemmas blocks = keeps_block exits_bind exits_exit exits_exit_plain

lemma keeps_declare [keeping]: "keeps (declare_as name d)"
  by (auto simp: keeps_def declare_as_def visited_declare)

lemma keeps_tparam [keeping]: "keeps (declare_tparam tp)"
  by (cases tp) (auto simp: keeps_def declare_as_def visited_declare visited_refl)

lemma keeps_param [keeping]: "keeps (declare_param p)"
  by (cases p) (auto simp: keeps_def declare_as_def visited_declare)

lemma keeps_lambda_param [keeping]: "keeps (declare_lambda_param p)"
  by (cases p) (auto simp: keeps_def visited_declare visited_refl split: option.splits)

lemma keeps_instantiate [keeping]: "keeps (instantiate V decl args)"
  by (auto simp: keeps_def instantiate_def bind_eq_Some_conv visited_def split: if_splits)

lemma visit_const_visited: "visit_const n node sa = Some (node', sb) \<Longrightarrow> sa_scopes sa \<noteq> [] \<Longrightarrow> visited sa sb"
  by (auto simp: visit_const_def bind_eq_Some_conv declare_as_def visited_declare visited_refl Let_def
      split: AstNode.splits if_splits Eval.splits)

lemma keeps_const [keeping]: "keeps (\<lambda>sa. map_option snd (visit_const n node sa))"
  by (auto simp: keeps_def dest: visit_const_visited)

lemma keeps_let [keeping]: "keeps f \<Longrightarrow> keeps (\<lambda>sa. f (scope_declare sa s d))"
  unfolding keeps_def by (metis visited_declare visited_open visited_trans)

locale visit_contract =
  fixes V :: visits
  assumes node: "keeps (v_node V node)" and expr: "keeps (v_expr V e)"
begin

lemmas callees = node expr

lemma call: "keeps (visit_call V callee args)"
proof -
  have inst: "keeps (\<lambda>sa. instantiate V (scope_lookup sa cn) args sa)" for cn
    by (rule keeps_state, rule keeps_instantiate)
  have arg: "keeps (\<lambda>sa. if is_type_arg a then Some sa else v_expr V a sa)" for a
    by (intro keeping expr)
  show ?thesis
    unfolding visit_call_def
    by (cases "ident_text callee") (auto simp only: option.case intro!: keeping inst arg expr)
qed

lemma lambda_node: "keeps (visit_expr V (LambdaNode loc ps rty body caps))"
  unfolding visit_expr_def AstNode.case
  by (intro keeps_block[where f = "\<lambda>sa. visit_all declare_lambda_param ps sa \<bind> _"] exits_bind exits_exit_plain
      keeping callees)

lemmas expr_cases = lambda_node[unfolded visit_expr_def AstNode.case]

lemma expression: "keeps (visit_expr V e)"
  unfolding visit_expr_def
  by (cases e; simp only: AstNode.case expr_cases) (intro keeping callees call)+

lemma func_node: "keeps (visit_func V name node params rty body tps)"
  unfolding visit_func_def
  by (intro keeps_bind keeps_declare keeps_block[where f = "\<lambda>sa. visit_all declare_tparam tps sa \<bind> _"]
      exits_bind exits_exit keeps_all keeps_tparam keeps_param callees)

lemma catch_arm: "keeps (visit_catch V arm)"
  unfolding visit_catch_def
  by (cases arm) (auto simp only: AstNode.case intro!: keeping callees)

lemma variable: "keeps (visit_var V var)"
  unfolding visit_var_def by (intro keeping callees)

lemma conditional: "keeps (visit_if V cond th el es is_let pattern)"
  unfolding visit_if_def
  by (cases "ident_text pattern") (auto simp only: option.case intro!: keeping callees)

lemma list_node: "keeps (visit_node V (NodeList t loc xs))"
proof -
  have "keeps (\<lambda>sa. visit_all (v_node V) xs (scope_enter sa) \<bind> (\<lambda>sa. Some (scope_exit sa)))"
    by (intro keeps_block[where f = "\<lambda>sa. visit_all (v_node V) xs sa \<bind> _"] exits_bind exits_exit_plain keeping callees)
  moreover have "keeps (\<lambda>sa. case xs of [] \<Rightarrow> Some sa | name # _ \<Rightarrow> declare_as name (NodeList t loc xs) sa)"
    by (cases xs) (auto simp only: list.case intro!: keeping)
  ultimately show ?thesis
    unfolding visit_node_def AstNode.case by (intro keeps_if keeps_all keeps_Some callees)
qed

lemma let_node: "keeps (visit_node V (LetDecl t loc name ty v m g))"
  unfolding visit_node_def AstNode.case
  by (cases "ident_text name") (auto simp only: option.case bind.simps intro!: keeping callees)

lemmas stmt_cases = list_node[unfolded visit_node_def AstNode.case] let_node[unfolded visit_node_def AstNode.case]

lemma statement: "keeps (visit_node V node)"
  unfolding visit_node_def
  by (cases node; simp only: AstNode.case stmt_cases) (intro keeping callees func_node catch_arm variable conditional)+

end

lemma visits_at_contract: "visit_contract (visits_at dead n)"
proof (induction n)
  case 0
  show ?case by unfold_locales (simp_all add: keeping)
next
  case (Suc n)
  show ?case
    by unfold_locales (simp_all add: Let_def visit_contract.statement[OF Suc] visit_contract.expression[OF Suc])
qed

interpretation knot: visit_contract "visits_at dead n" for dead n
  by (rule visits_at_contract)

text \<open>C21: 
  C905: scopes are a stack.  Whatever a visit declares goes in front of the current scope; the enclosing scopes,
  and so every name declared there, are as before.  The count of errors never goes down, and the program
  is only extended.
\<close>
theorem visits_keep_scopes:
  assumes "v_node (visits_at dead n) node sa = Some sb" "sa_scopes sa \<noteq> []"
  shows "tl (sa_scopes sb) = tl (sa_scopes sa) \<and> (\<exists>new. hd (sa_scopes sb) = new @ hd (sa_scopes sa)) \<and>
     sa_error_count sa \<le> sa_error_count sb \<and> (\<exists>ds. sa_program sb = sa_program sa @ ds)"
  using keeps_visited[OF knot.node assms] unfolding visited_def by (elim conjE exE) auto

lemma visits_keep_scopes_witness:
  "(\<exists>sb. v_node (visits_at id 3) (ReturnNode NO_LOCATION NULL) \<lparr>sa_scopes = [[], []], sa_error_count = 0, sa_program = []\<rparr> = Some sb \<and>
     tl (sa_scopes sb) = [[]])"
proof -
  let ?s = "\<lparr>sa_scopes = [[], []], sa_error_count = 0, sa_program = []\<rparr> :: SemanticAnalyzer"
  have "v_node (visits_at id 3) (ReturnNode NO_LOCATION NULL) ?s = Some ?s" by code_simp
  then show ?thesis using visits_keep_scopes[of id 3 "ReturnNode NO_LOCATION NULL" ?s ?s] by simp
qed

section \<open>Runs\<close>






















section \<open>Undeclared names\<close>








definition errors_add :: "nat \<Rightarrow> SemanticAnalyzer \<Rightarrow> SemanticAnalyzer" where
  "errors_add k sa = sa\<lparr>sa_error_count := sa_error_count sa + int k\<rparr>"


lemma errors_add_simps [simp]:
  "errors_add 0 sa = sa" "errors_add j (errors_add k sa) = errors_add (k + j) sa"
  "sa_scopes (errors_add k sa) = sa_scopes sa" "scope_lookup (errors_add k sa) = scope_lookup sa"
  by (simp_all add: errors_add_def scope_lookup_def fun_eq_iff)




lemma visits_Suc [simp]:
  "v_expr (visits_at dead (Suc n)) = visit_expr (visits_at dead n)"
  "v_node (visits_at dead (Suc n)) = visit_node (visits_at dead n)"
  by (simp_all add: Let_def)

declare visits_at.simps [simp del]
















section \<open>What is not visited\<close>


section \<open>Constants\<close>

definition is_ordering :: "BinOp \<Rightarrow> bool" where
  "is_ordering op \<longleftrightarrow> op \<in> set [BIN_LT, BIN_GT, BIN_LE, BIN_GE]"

lemma uint_top_bit: "bit (w :: u64) 63 \<longleftrightarrow> 2 ^ 63 \<le> uint w"
proof -
  have "uint w < 2 ^ 64" using unsigned_less[of w, where 'a = int] by simp
  then have "uint w div 2 ^ 63 = (if 2 ^ 63 \<le> uint w then 1 else 0)" by simp linarith
  moreover have "bit w 63 \<longleftrightarrow> odd (uint w div 2 ^ 63)" using bit_iff_odd[of "uint w" 63] by (simp add: bit_uint_iff)
  ultimately show ?thesis by simp
qed

lemma sint_top_bit: "sint (w :: u64) = uint w - (if bit w 63 then 2 ^ 64 else 0)"
proof -
  have "sint w = take_bit 64 (uint w) - 2 ^ 64 * of_bool (bit (uint w) 63)"
    by (simp add: sint_uint signed_take_bit_eq_take_bit_minus)
  moreover have "take_bit 64 (uint w) = uint w"
    using unsigned_less[of w, where 'a = int] by (intro take_bit_int_eq_self) simp_all
  ultimately show ?thesis by (simp add: bit_uint_iff)
qed

lemma signed_less: "sint (a :: u64) < sint b \<longleftrightarrow> (if bit a 63 = bit b 63 then a < b else \<not> a < b)"
proof -
  have "0 \<le> x \<Longrightarrow> x < 2 ^ 64 \<Longrightarrow> 0 \<le> y \<Longrightarrow> y < 2 ^ 64 \<Longrightarrow>
      x - (if 2 ^ 63 \<le> x then 2 ^ 64 else 0) < y - (if 2 ^ 63 \<le> y then 2 ^ 64 else 0) \<longleftrightarrow>
      (if (2 ^ 63 \<le> x) = (2 ^ 63 \<le> y) then x < y else \<not> x < y)" for x y :: int
    by auto
  from this[of "uint a" "uint b"] show ?thesis
    using unsigned_less[of a, where 'a = int] unsigned_less[of b, where 'a = int]
    unfolding sint_top_bit uint_top_bit word_less_def by simp
qed

text \<open>C23: 
  C909: the analyser and the optimizer agree on every operator but the four orderings, which the analyser computes
  on signed and the optimizer on unsigned numbers: there they disagree exactly when one side is negative and
  the other is not.
\<close>
theorem evaluators_disagree_on_orderings:
  "const_op op l r \<noteq> eval_binary op l r \<longleftrightarrow> is_ordering op \<and> bit l 63 \<noteq> bit r 63"
  by (cases op) (auto simp: is_ordering_def signed_less not_less[symmetric] bool_word_def)

text \<open>Constants the two evaluators read alike: no ordering, no negative literal and no \<open>none\<close>.\<close>

fun literal_alike :: "Literal \<Rightarrow> bool" where
  "literal_alike (LitInt _ neg) = (\<not> neg)"
| "literal_alike l = (l \<noteq> LitNone)"

fun reads_alike :: "AstNode \<Rightarrow> bool" where
  "reads_alike (LiteralNode _ l) = literal_alike l"
| "reads_alike (UnaryOpNode _ _ e) = reads_alike e"
| "reads_alike (BinaryOpNode _ _ op l r _) = (\<not> is_ordering op \<and> reads_alike l \<and> reads_alike r)"
| "reads_alike _ = False"

lemma const_literal_alike: "literal_alike l \<Longrightarrow> const_literal l = eval_literal l"
  by (cases l) simp_all

lemma const_unop_eval: "const_unop op = eval_unary op"
  by (cases op) (simp_all add: fun_eq_iff)

lemma const_op_eval: "\<not> is_ordering op \<Longrightarrow> const_op op l r = eval_binary op l r"
  by (cases op) (simp_all add: is_ordering_def)

lemma const_eval_total: "reads_alike e \<Longrightarrow> size e < n \<Longrightarrow> \<exists>r. const_eval_expr n fs e = Some r"
proof (induction e arbitrary: n rule: reads_alike.induct)
  case (2 loc op e)
  then obtain m where m: "n = Suc m" "size e < m" by (cases n) auto
  then show ?case using 2(1)[of m] 2(2) by auto
next
  case (3 t loc op l r c)
  then obtain m where m: "n = Suc m" "size l < m" "size r < m" by (cases n) auto
  then show ?case using 3(1)[of m] 3(2)[of m] 3(3) by auto
qed (auto simp: gr0_conv_Suc)

lemma unary_alike:
  assumes "\<And>w. x = EvVal w \<longleftrightarrow> a = EvVal w"
  shows "(case x of EvVal u \<Rightarrow> f u | r \<Rightarrow> r) = EvVal w \<longleftrightarrow> (case a of EvVal u \<Rightarrow> f u | r \<Rightarrow> r) = EvVal w"
proof -
  have "x = a \<or> (\<forall>u. x \<noteq> EvVal u) \<and> (\<forall>u. a \<noteq> EvVal u)" using assms by metis
  then show ?thesis by (cases x; cases a; simp)
qed

lemma binary_alike:
  assumes "\<And>w. x = EvVal w \<longleftrightarrow> a = EvVal w" "\<And>w. y = EvVal w \<longleftrightarrow> b = EvVal w"
  shows "(case (x, y) of (EvUndef, _) \<Rightarrow> EvUndef | (_, EvUndef) \<Rightarrow> EvUndef | (EvVal u, EvVal v) \<Rightarrow> f u v | _ \<Rightarrow> EvFalse) = EvVal w \<longleftrightarrow>
    (case a of EvVal u \<Rightarrow> (case b of EvVal v \<Rightarrow> f u v | s \<Rightarrow> s) | s \<Rightarrow> s) = EvVal w"
proof -
  have "x = a \<or> (\<forall>u. x \<noteq> EvVal u) \<and> (\<forall>u. a \<noteq> EvVal u)" "y = b \<or> (\<forall>u. y \<noteq> EvVal u) \<and> (\<forall>u. b \<noteq> EvVal u)"
    using assms by metis+
  then show ?thesis by (cases x; cases a; cases y; cases b; simp)
qed

text \<open>C22: 
  C910: on the other constants the evaluators of the analyser and of the optimizer are the same function: with
  fuel above the size of the expression, one has the value \<open>w\<close> if and only if the other has.
\<close>
theorem evaluators_agree:
  assumes "reads_alike e" "size e < n"
  shows "const_eval_expr n fs e = Some (EvVal w) \<longleftrightarrow> eval_constant_int e = EvVal w"
  using assms
proof (induction e arbitrary: n w rule: reads_alike.induct)
  case (1 loc l)
  then show ?case by (cases n) (simp_all add: const_literal_alike)
next
  case (2 loc op e)
  then obtain m where m: "n = Suc m" "size e < m" by (cases n) auto
  obtain x where "const_eval_expr m fs e = Some x" using const_eval_total 2(2) m(2) by fastforce
  note x = this
  have "x = EvVal u \<longleftrightarrow> eval_constant_int e = EvVal u" for u
    using 2(1)[of m u] 2(2) m(2) x by simp
  then show ?case using x unary_alike[of x "eval_constant_int e" "eval_unary op" w] by (simp add: m(1) const_unop_eval cong: Eval.case_cong)
next
  case (3 t loc op l r c)
  then obtain m where m: "n = Suc m" "size l < m" "size r < m" by (cases n) auto
  obtain x y where "const_eval_expr m fs l = Some x" "const_eval_expr m fs r = Some y"
    using const_eval_total 3(3) m(2,3) by fastforce
  note xy = this
  have alike: "x = EvVal u \<longleftrightarrow> eval_constant_int l = EvVal u" "y = EvVal u \<longleftrightarrow> eval_constant_int r = EvVal u" for u
    using 3(1)[of m u] 3(2)[of m u] 3(3) m(2,3) xy by simp_all
  have op: "const_op op = eval_binary op" using 3(3) by (simp add: const_op_eval fun_eq_iff)
  show ?case
  proof (cases "t = NODE_BINARY_OP")
    case True
    have "const_eval_expr n fs (BinaryOpNode t loc op l r c) =
        Some (case (x, y) of (EvUndef, _) \<Rightarrow> EvUndef | (_, EvUndef) \<Rightarrow> EvUndef | (EvVal u, EvVal v) \<Rightarrow> eval_binary op u v | _ \<Rightarrow> EvFalse)"
      using True xy by (simp add: m(1) op cong: Eval.case_cong)
    then show ?thesis using True binary_alike[OF alike, of "eval_binary op" w] by simp
  qed (simp add: m(1))
qed (auto simp: gr0_conv_Suc)

lemma evaluators_agree_witness:
  "(\<exists>e. const_eval_expr 4 [] e = Some (EvVal 14) \<and> eval_constant_int e = EvVal 14)"
proof -
  let ?n = "\<lambda>v. LiteralNode NO_LOCATION (LitInt v False)"
  let ?e = "BinaryOpNode NODE_BINARY_OP NO_LOCATION BIN_ADD (?n 2)
              (BinaryOpNode NODE_BINARY_OP NO_LOCATION BIN_MUL (?n 3) (?n 4) SV0) SV0"
  have "reads_alike ?e" "size ?e < 4" by code_simp+
  moreover have "eval_constant_int ?e = EvVal 14" by code_simp
  ultimately show ?thesis using evaluators_agree[of ?e 4 "[]" 14] by blast
qed

text \<open>
  C911: the parser hands \<open>sizeof\<close> and \<open>alignof\<close> an expression, so a type name is an identifier there:
  \<open>alignof\<close> of every name is 8, also of \<open>u8\<close>, and \<open>sizeof\<close> of a name is not a constant.  Of the types
  themselves \<open>u128\<close> has no size and the alignment 8.
\<close>
theorem layout_of_names:
  "const_eval_expr (Suc n) fs (CallNode NODE_CALL loc (IdentNode loc' (sv_from_cstr ''alignof'')) (IdentNode loc'' v # args)) =
     Some (EvVal 8) \<and>
   const_eval_expr (Suc n) fs (CallNode NODE_CALL loc (IdentNode loc' (sv_from_cstr ''sizeof'')) (IdentNode loc'' v # args)) =
     Some EvFalse \<and>
   const_sizeof (node_type_prim True loc PRIM_U128) = EvFalse \<and> const_alignof (node_type_prim True loc PRIM_U128) = EvVal 8"
proof -
  have "strndup (sv_from_cstr ''alignof'') = ''alignof''" "strndup (sv_from_cstr ''sizeof'') = ''sizeof''" by code_simp+
  then show ?thesis by (simp add: const_call_def node_type_prim_def node_create_def)
qed

end
