(* ===== verification/AsmIR.thy ===== *)
theory AsmIR
  imports Prelude Vector
begin

text \<open>
  The intermediate representation of the multi-target assembler (\<open>include/aether/asm_ir.h\<close>,
  \<open>src/asm_ir.c\<close>): the register table, operands, instructions, directives and the growable block of
  elements.  A register is its number in the enumeration, \<open>ASM_REG_COUNT\<close> standing for none; the names
  of the enumeration are abbreviations.  A character array of n bytes that is filled by \<open>strncpy\<close> of at
  most n - 1 bytes into zeroed storage is the string of those bytes.
\<close>

section \<open>Registers\<close>

type_synonym AsmRegister = nat

abbreviation (input) ASM_REG_RAX :: AsmRegister where "ASM_REG_RAX \<equiv> 0"
abbreviation (input) ASM_REG_RBX :: AsmRegister where "ASM_REG_RBX \<equiv> 1"
abbreviation (input) ASM_REG_RCX :: AsmRegister where "ASM_REG_RCX \<equiv> 2"
abbreviation (input) ASM_REG_RDX :: AsmRegister where "ASM_REG_RDX \<equiv> 3"
abbreviation (input) ASM_REG_RSI :: AsmRegister where "ASM_REG_RSI \<equiv> 4"
abbreviation (input) ASM_REG_RDI :: AsmRegister where "ASM_REG_RDI \<equiv> 5"
abbreviation (input) ASM_REG_RBP :: AsmRegister where "ASM_REG_RBP \<equiv> 6"
abbreviation (input) ASM_REG_RSP :: AsmRegister where "ASM_REG_RSP \<equiv> 7"
abbreviation (input) ASM_REG_R8 :: AsmRegister where "ASM_REG_R8 \<equiv> 8"
abbreviation (input) ASM_REG_R9 :: AsmRegister where "ASM_REG_R9 \<equiv> 9"
abbreviation (input) ASM_REG_R10 :: AsmRegister where "ASM_REG_R10 \<equiv> 10"
abbreviation (input) ASM_REG_R11 :: AsmRegister where "ASM_REG_R11 \<equiv> 11"
abbreviation (input) ASM_REG_R12 :: AsmRegister where "ASM_REG_R12 \<equiv> 12"
abbreviation (input) ASM_REG_R13 :: AsmRegister where "ASM_REG_R13 \<equiv> 13"
abbreviation (input) ASM_REG_R14 :: AsmRegister where "ASM_REG_R14 \<equiv> 14"
abbreviation (input) ASM_REG_R15 :: AsmRegister where "ASM_REG_R15 \<equiv> 15"
abbreviation (input) ASM_REG_EAX :: AsmRegister where "ASM_REG_EAX \<equiv> 16"
abbreviation (input) ASM_REG_EBX :: AsmRegister where "ASM_REG_EBX \<equiv> 17"
abbreviation (input) ASM_REG_ECX :: AsmRegister where "ASM_REG_ECX \<equiv> 18"
abbreviation (input) ASM_REG_EDX :: AsmRegister where "ASM_REG_EDX \<equiv> 19"
abbreviation (input) ASM_REG_ESI :: AsmRegister where "ASM_REG_ESI \<equiv> 20"
abbreviation (input) ASM_REG_EDI :: AsmRegister where "ASM_REG_EDI \<equiv> 21"
abbreviation (input) ASM_REG_EBP :: AsmRegister where "ASM_REG_EBP \<equiv> 22"
abbreviation (input) ASM_REG_ESP :: AsmRegister where "ASM_REG_ESP \<equiv> 23"
abbreviation (input) ASM_REG_R8D :: AsmRegister where "ASM_REG_R8D \<equiv> 24"
abbreviation (input) ASM_REG_R9D :: AsmRegister where "ASM_REG_R9D \<equiv> 25"
abbreviation (input) ASM_REG_R10D :: AsmRegister where "ASM_REG_R10D \<equiv> 26"
abbreviation (input) ASM_REG_R11D :: AsmRegister where "ASM_REG_R11D \<equiv> 27"
abbreviation (input) ASM_REG_R12D :: AsmRegister where "ASM_REG_R12D \<equiv> 28"
abbreviation (input) ASM_REG_R13D :: AsmRegister where "ASM_REG_R13D \<equiv> 29"
abbreviation (input) ASM_REG_R14D :: AsmRegister where "ASM_REG_R14D \<equiv> 30"
abbreviation (input) ASM_REG_R15D :: AsmRegister where "ASM_REG_R15D \<equiv> 31"
abbreviation (input) ASM_REG_AX :: AsmRegister where "ASM_REG_AX \<equiv> 32"
abbreviation (input) ASM_REG_BX :: AsmRegister where "ASM_REG_BX \<equiv> 33"
abbreviation (input) ASM_REG_CX :: AsmRegister where "ASM_REG_CX \<equiv> 34"
abbreviation (input) ASM_REG_DX :: AsmRegister where "ASM_REG_DX \<equiv> 35"
abbreviation (input) ASM_REG_SI :: AsmRegister where "ASM_REG_SI \<equiv> 36"
abbreviation (input) ASM_REG_DI :: AsmRegister where "ASM_REG_DI \<equiv> 37"
abbreviation (input) ASM_REG_BP :: AsmRegister where "ASM_REG_BP \<equiv> 38"
abbreviation (input) ASM_REG_SP :: AsmRegister where "ASM_REG_SP \<equiv> 39"
abbreviation (input) ASM_REG_R8W :: AsmRegister where "ASM_REG_R8W \<equiv> 40"
abbreviation (input) ASM_REG_R9W :: AsmRegister where "ASM_REG_R9W \<equiv> 41"
abbreviation (input) ASM_REG_R10W :: AsmRegister where "ASM_REG_R10W \<equiv> 42"
abbreviation (input) ASM_REG_R11W :: AsmRegister where "ASM_REG_R11W \<equiv> 43"
abbreviation (input) ASM_REG_R12W :: AsmRegister where "ASM_REG_R12W \<equiv> 44"
abbreviation (input) ASM_REG_R13W :: AsmRegister where "ASM_REG_R13W \<equiv> 45"
abbreviation (input) ASM_REG_R14W :: AsmRegister where "ASM_REG_R14W \<equiv> 46"
abbreviation (input) ASM_REG_R15W :: AsmRegister where "ASM_REG_R15W \<equiv> 47"
abbreviation (input) ASM_REG_AL :: AsmRegister where "ASM_REG_AL \<equiv> 48"
abbreviation (input) ASM_REG_BL :: AsmRegister where "ASM_REG_BL \<equiv> 49"
abbreviation (input) ASM_REG_CL :: AsmRegister where "ASM_REG_CL \<equiv> 50"
abbreviation (input) ASM_REG_DL :: AsmRegister where "ASM_REG_DL \<equiv> 51"
abbreviation (input) ASM_REG_AH :: AsmRegister where "ASM_REG_AH \<equiv> 52"
abbreviation (input) ASM_REG_BH :: AsmRegister where "ASM_REG_BH \<equiv> 53"
abbreviation (input) ASM_REG_CH :: AsmRegister where "ASM_REG_CH \<equiv> 54"
abbreviation (input) ASM_REG_DH :: AsmRegister where "ASM_REG_DH \<equiv> 55"
abbreviation (input) ASM_REG_SIL :: AsmRegister where "ASM_REG_SIL \<equiv> 56"
abbreviation (input) ASM_REG_DIL :: AsmRegister where "ASM_REG_DIL \<equiv> 57"
abbreviation (input) ASM_REG_BPL :: AsmRegister where "ASM_REG_BPL \<equiv> 58"
abbreviation (input) ASM_REG_SPL :: AsmRegister where "ASM_REG_SPL \<equiv> 59"
abbreviation (input) ASM_REG_R8B :: AsmRegister where "ASM_REG_R8B \<equiv> 60"
abbreviation (input) ASM_REG_R9B :: AsmRegister where "ASM_REG_R9B \<equiv> 61"
abbreviation (input) ASM_REG_R10B :: AsmRegister where "ASM_REG_R10B \<equiv> 62"
abbreviation (input) ASM_REG_R11B :: AsmRegister where "ASM_REG_R11B \<equiv> 63"
abbreviation (input) ASM_REG_R12B :: AsmRegister where "ASM_REG_R12B \<equiv> 64"
abbreviation (input) ASM_REG_R13B :: AsmRegister where "ASM_REG_R13B \<equiv> 65"
abbreviation (input) ASM_REG_R14B :: AsmRegister where "ASM_REG_R14B \<equiv> 66"
abbreviation (input) ASM_REG_R15B :: AsmRegister where "ASM_REG_R15B \<equiv> 67"
abbreviation (input) ASM_REG_XMM0 :: AsmRegister where "ASM_REG_XMM0 \<equiv> 68"
abbreviation (input) ASM_REG_XMM1 :: AsmRegister where "ASM_REG_XMM1 \<equiv> 69"
abbreviation (input) ASM_REG_XMM2 :: AsmRegister where "ASM_REG_XMM2 \<equiv> 70"
abbreviation (input) ASM_REG_XMM3 :: AsmRegister where "ASM_REG_XMM3 \<equiv> 71"
abbreviation (input) ASM_REG_XMM4 :: AsmRegister where "ASM_REG_XMM4 \<equiv> 72"
abbreviation (input) ASM_REG_XMM5 :: AsmRegister where "ASM_REG_XMM5 \<equiv> 73"
abbreviation (input) ASM_REG_XMM6 :: AsmRegister where "ASM_REG_XMM6 \<equiv> 74"
abbreviation (input) ASM_REG_XMM7 :: AsmRegister where "ASM_REG_XMM7 \<equiv> 75"
abbreviation (input) ASM_REG_XMM8 :: AsmRegister where "ASM_REG_XMM8 \<equiv> 76"
abbreviation (input) ASM_REG_XMM9 :: AsmRegister where "ASM_REG_XMM9 \<equiv> 77"
abbreviation (input) ASM_REG_XMM10 :: AsmRegister where "ASM_REG_XMM10 \<equiv> 78"
abbreviation (input) ASM_REG_XMM11 :: AsmRegister where "ASM_REG_XMM11 \<equiv> 79"
abbreviation (input) ASM_REG_XMM12 :: AsmRegister where "ASM_REG_XMM12 \<equiv> 80"
abbreviation (input) ASM_REG_XMM13 :: AsmRegister where "ASM_REG_XMM13 \<equiv> 81"
abbreviation (input) ASM_REG_XMM14 :: AsmRegister where "ASM_REG_XMM14 \<equiv> 82"
abbreviation (input) ASM_REG_XMM15 :: AsmRegister where "ASM_REG_XMM15 \<equiv> 83"
abbreviation (input) ASM_REG_CS :: AsmRegister where "ASM_REG_CS \<equiv> 84"
abbreviation (input) ASM_REG_DS :: AsmRegister where "ASM_REG_DS \<equiv> 85"
abbreviation (input) ASM_REG_ES :: AsmRegister where "ASM_REG_ES \<equiv> 86"
abbreviation (input) ASM_REG_FS :: AsmRegister where "ASM_REG_FS \<equiv> 87"
abbreviation (input) ASM_REG_GS :: AsmRegister where "ASM_REG_GS \<equiv> 88"
abbreviation (input) ASM_REG_SS :: AsmRegister where "ASM_REG_SS \<equiv> 89"
abbreviation (input) ASM_REG_X0 :: AsmRegister where "ASM_REG_X0 \<equiv> 90"
abbreviation (input) ASM_REG_X1 :: AsmRegister where "ASM_REG_X1 \<equiv> 91"
abbreviation (input) ASM_REG_X2 :: AsmRegister where "ASM_REG_X2 \<equiv> 92"
abbreviation (input) ASM_REG_X3 :: AsmRegister where "ASM_REG_X3 \<equiv> 93"
abbreviation (input) ASM_REG_X4 :: AsmRegister where "ASM_REG_X4 \<equiv> 94"
abbreviation (input) ASM_REG_X5 :: AsmRegister where "ASM_REG_X5 \<equiv> 95"
abbreviation (input) ASM_REG_X6 :: AsmRegister where "ASM_REG_X6 \<equiv> 96"
abbreviation (input) ASM_REG_X7 :: AsmRegister where "ASM_REG_X7 \<equiv> 97"
abbreviation (input) ASM_REG_X8 :: AsmRegister where "ASM_REG_X8 \<equiv> 98"
abbreviation (input) ASM_REG_X9 :: AsmRegister where "ASM_REG_X9 \<equiv> 99"
abbreviation (input) ASM_REG_X10 :: AsmRegister where "ASM_REG_X10 \<equiv> 100"
abbreviation (input) ASM_REG_X11 :: AsmRegister where "ASM_REG_X11 \<equiv> 101"
abbreviation (input) ASM_REG_X12 :: AsmRegister where "ASM_REG_X12 \<equiv> 102"
abbreviation (input) ASM_REG_X13 :: AsmRegister where "ASM_REG_X13 \<equiv> 103"
abbreviation (input) ASM_REG_X14 :: AsmRegister where "ASM_REG_X14 \<equiv> 104"
abbreviation (input) ASM_REG_X15 :: AsmRegister where "ASM_REG_X15 \<equiv> 105"
abbreviation (input) ASM_REG_X16 :: AsmRegister where "ASM_REG_X16 \<equiv> 106"
abbreviation (input) ASM_REG_X17 :: AsmRegister where "ASM_REG_X17 \<equiv> 107"
abbreviation (input) ASM_REG_X18 :: AsmRegister where "ASM_REG_X18 \<equiv> 108"
abbreviation (input) ASM_REG_X19 :: AsmRegister where "ASM_REG_X19 \<equiv> 109"
abbreviation (input) ASM_REG_X20 :: AsmRegister where "ASM_REG_X20 \<equiv> 110"
abbreviation (input) ASM_REG_X21 :: AsmRegister where "ASM_REG_X21 \<equiv> 111"
abbreviation (input) ASM_REG_X22 :: AsmRegister where "ASM_REG_X22 \<equiv> 112"
abbreviation (input) ASM_REG_X23 :: AsmRegister where "ASM_REG_X23 \<equiv> 113"
abbreviation (input) ASM_REG_X24 :: AsmRegister where "ASM_REG_X24 \<equiv> 114"
abbreviation (input) ASM_REG_X25 :: AsmRegister where "ASM_REG_X25 \<equiv> 115"
abbreviation (input) ASM_REG_X26 :: AsmRegister where "ASM_REG_X26 \<equiv> 116"
abbreviation (input) ASM_REG_X27 :: AsmRegister where "ASM_REG_X27 \<equiv> 117"
abbreviation (input) ASM_REG_X28 :: AsmRegister where "ASM_REG_X28 \<equiv> 118"
abbreviation (input) ASM_REG_X29 :: AsmRegister where "ASM_REG_X29 \<equiv> 119"
abbreviation (input) ASM_REG_X30 :: AsmRegister where "ASM_REG_X30 \<equiv> 120"
abbreviation (input) ASM_REG_XZR :: AsmRegister where "ASM_REG_XZR \<equiv> 121"
abbreviation (input) ASM_REG_RV_ZERO :: AsmRegister where "ASM_REG_RV_ZERO \<equiv> 122"
abbreviation (input) ASM_REG_RV_RA :: AsmRegister where "ASM_REG_RV_RA \<equiv> 123"
abbreviation (input) ASM_REG_RV_SP :: AsmRegister where "ASM_REG_RV_SP \<equiv> 124"
abbreviation (input) ASM_REG_RV_GP :: AsmRegister where "ASM_REG_RV_GP \<equiv> 125"
abbreviation (input) ASM_REG_RV_TP :: AsmRegister where "ASM_REG_RV_TP \<equiv> 126"
abbreviation (input) ASM_REG_RV_T0 :: AsmRegister where "ASM_REG_RV_T0 \<equiv> 127"
abbreviation (input) ASM_REG_RV_T1 :: AsmRegister where "ASM_REG_RV_T1 \<equiv> 128"
abbreviation (input) ASM_REG_RV_T2 :: AsmRegister where "ASM_REG_RV_T2 \<equiv> 129"
abbreviation (input) ASM_REG_RV_S0 :: AsmRegister where "ASM_REG_RV_S0 \<equiv> 130"
abbreviation (input) ASM_REG_RV_S1 :: AsmRegister where "ASM_REG_RV_S1 \<equiv> 131"
abbreviation (input) ASM_REG_RV_S2 :: AsmRegister where "ASM_REG_RV_S2 \<equiv> 132"
abbreviation (input) ASM_REG_RV_S3 :: AsmRegister where "ASM_REG_RV_S3 \<equiv> 133"
abbreviation (input) ASM_REG_RV_S4 :: AsmRegister where "ASM_REG_RV_S4 \<equiv> 134"
abbreviation (input) ASM_REG_RV_S5 :: AsmRegister where "ASM_REG_RV_S5 \<equiv> 135"
abbreviation (input) ASM_REG_RV_S6 :: AsmRegister where "ASM_REG_RV_S6 \<equiv> 136"
abbreviation (input) ASM_REG_RV_S7 :: AsmRegister where "ASM_REG_RV_S7 \<equiv> 137"
abbreviation (input) ASM_REG_RV_S8 :: AsmRegister where "ASM_REG_RV_S8 \<equiv> 138"
abbreviation (input) ASM_REG_RV_S9 :: AsmRegister where "ASM_REG_RV_S9 \<equiv> 139"
abbreviation (input) ASM_REG_RV_S10 :: AsmRegister where "ASM_REG_RV_S10 \<equiv> 140"
abbreviation (input) ASM_REG_RV_S11 :: AsmRegister where "ASM_REG_RV_S11 \<equiv> 141"
abbreviation (input) ASM_REG_RV_A0 :: AsmRegister where "ASM_REG_RV_A0 \<equiv> 142"
abbreviation (input) ASM_REG_RV_A1 :: AsmRegister where "ASM_REG_RV_A1 \<equiv> 143"
abbreviation (input) ASM_REG_RV_A2 :: AsmRegister where "ASM_REG_RV_A2 \<equiv> 144"
abbreviation (input) ASM_REG_RV_A3 :: AsmRegister where "ASM_REG_RV_A3 \<equiv> 145"
abbreviation (input) ASM_REG_RV_A4 :: AsmRegister where "ASM_REG_RV_A4 \<equiv> 146"
abbreviation (input) ASM_REG_RV_A5 :: AsmRegister where "ASM_REG_RV_A5 \<equiv> 147"
abbreviation (input) ASM_REG_RV_A6 :: AsmRegister where "ASM_REG_RV_A6 \<equiv> 148"
abbreviation (input) ASM_REG_RV_A7 :: AsmRegister where "ASM_REG_RV_A7 \<equiv> 149"
abbreviation (input) ASM_REG_RV_T3 :: AsmRegister where "ASM_REG_RV_T3 \<equiv> 150"
abbreviation (input) ASM_REG_RV_T4 :: AsmRegister where "ASM_REG_RV_T4 \<equiv> 151"
abbreviation (input) ASM_REG_RV_T5 :: AsmRegister where "ASM_REG_RV_T5 \<equiv> 152"
abbreviation (input) ASM_REG_RV_T6 :: AsmRegister where "ASM_REG_RV_T6 \<equiv> 153"

definition ASM_REG_COUNT :: AsmRegister where "ASM_REG_COUNT = 154"

datatype (plugins only: code) AsmArch = ASM_ARCH_X86_64 | ASM_ARCH_ARM64 | ASM_ARCH_RISCV64

text \<open>A row of the register table: the names on the three targets, callee saved, width in bits.\<close>

datatype (plugins only: code) AsmRegEntry = Reg "string option" "string option" "string option" bool nat

definition asm_reg_table :: "AsmRegEntry list" where
  "asm_reg_table = [
     Reg (Some ''rax'') (Some ''x0'') (Some ''a0'') False 64,
     Reg (Some ''rbx'') (Some ''x19'') (Some ''s1'') True 64,
     Reg (Some ''rcx'') (Some ''x1'') (Some ''a1'') False 64,
     Reg (Some ''rdx'') (Some ''x2'') (Some ''a2'') False 64,
     Reg (Some ''rsi'') (Some ''x3'') (Some ''a3'') False 64,
     Reg (Some ''rdi'') (Some ''x4'') (Some ''a4'') False 64,
     Reg (Some ''rbp'') (Some ''x29'') (Some ''s0'') True 64,
     Reg (Some ''rsp'') (Some ''sp'') (Some ''sp'') True 64,
     Reg (Some ''r8'') (Some ''x5'') (Some ''a5'') False 64,
     Reg (Some ''r9'') (Some ''x6'') (Some ''a6'') False 64,
     Reg (Some ''r10'') (Some ''x7'') (Some ''a7'') False 64,
     Reg (Some ''r11'') (Some ''x8'') (Some ''s2'') False 64,
     Reg (Some ''r12'') (Some ''x9'') (Some ''s3'') True 64,
     Reg (Some ''r13'') (Some ''x10'') (Some ''s4'') True 64,
     Reg (Some ''r14'') (Some ''x11'') (Some ''s5'') True 64,
     Reg (Some ''r15'') (Some ''x12'') (Some ''s6'') True 64,
     Reg (Some ''eax'') (Some ''w0'') (Some ''a0'') False 32,
     Reg (Some ''ebx'') (Some ''w19'') (Some ''s1'') True 32,
     Reg (Some ''ecx'') (Some ''w1'') (Some ''a1'') False 32,
     Reg (Some ''edx'') (Some ''w2'') (Some ''a2'') False 32,
     Reg (Some ''esi'') (Some ''w3'') (Some ''a3'') False 32,
     Reg (Some ''edi'') (Some ''w4'') (Some ''a4'') False 32,
     Reg (Some ''ebp'') (Some ''w29'') (Some ''s0'') True 32,
     Reg (Some ''esp'') (Some ''wsp'') (Some ''sp'') True 32,
     Reg (Some ''r8d'') (Some ''w5'') (Some ''a5'') False 32,
     Reg (Some ''r9d'') (Some ''w6'') (Some ''a6'') False 32,
     Reg (Some ''r10d'') (Some ''w7'') (Some ''a7'') False 32,
     Reg (Some ''r11d'') (Some ''w8'') (Some ''s2'') False 32,
     Reg (Some ''r12d'') (Some ''w9'') (Some ''s3'') True 32,
     Reg (Some ''r13d'') (Some ''w10'') (Some ''s4'') True 32,
     Reg (Some ''r14d'') (Some ''w11'') (Some ''s5'') True 32,
     Reg (Some ''r15d'') (Some ''w12'') (Some ''s6'') True 32,
     Reg (Some ''ax'') None None False 16,
     Reg (Some ''bx'') None None True 16,
     Reg (Some ''cx'') None None False 16,
     Reg (Some ''dx'') None None False 16,
     Reg (Some ''si'') None None False 16,
     Reg (Some ''di'') None None False 16,
     Reg (Some ''bp'') None None True 16,
     Reg (Some ''sp'') None None True 16,
     Reg (Some ''r8w'') None None False 16,
     Reg (Some ''r9w'') None None False 16,
     Reg (Some ''r10w'') None None False 16,
     Reg (Some ''r11w'') None None False 16,
     Reg (Some ''r12w'') None None True 16,
     Reg (Some ''r13w'') None None True 16,
     Reg (Some ''r14w'') None None True 16,
     Reg (Some ''r15w'') None None True 16,
     Reg (Some ''al'') None None False 8,
     Reg (Some ''bl'') None None True 8,
     Reg (Some ''cl'') None None False 8,
     Reg (Some ''dl'') None None False 8,
     Reg (Some ''ah'') None None False 8,
     Reg (Some ''bh'') None None True 8,
     Reg (Some ''ch'') None None False 8,
     Reg (Some ''dh'') None None False 8,
     Reg (Some ''sil'') None None False 8,
     Reg (Some ''dil'') None None False 8,
     Reg (Some ''bpl'') None None True 8,
     Reg (Some ''spl'') None None True 8,
     Reg (Some ''r8b'') None None False 8,
     Reg (Some ''r9b'') None None False 8,
     Reg (Some ''r10b'') None None False 8,
     Reg (Some ''r11b'') None None False 8,
     Reg (Some ''r12b'') None None True 8,
     Reg (Some ''r13b'') None None True 8,
     Reg (Some ''r14b'') None None True 8,
     Reg (Some ''r15b'') None None True 8,
     Reg (Some ''xmm0'') (Some ''v0'') None False 128,
     Reg (Some ''xmm1'') (Some ''v1'') None False 128,
     Reg (Some ''xmm2'') (Some ''v2'') None False 128,
     Reg (Some ''xmm3'') (Some ''v3'') None False 128,
     Reg (Some ''xmm4'') (Some ''v4'') None False 128,
     Reg (Some ''xmm5'') (Some ''v5'') None False 128,
     Reg (Some ''xmm6'') (Some ''v6'') None False 128,
     Reg (Some ''xmm7'') (Some ''v7'') None False 128,
     Reg (Some ''xmm8'') (Some ''v8'') None False 128,
     Reg (Some ''xmm9'') (Some ''v9'') None False 128,
     Reg (Some ''xmm10'') (Some ''v10'') None False 128,
     Reg (Some ''xmm11'') (Some ''v11'') None False 128,
     Reg (Some ''xmm12'') (Some ''v12'') None False 128,
     Reg (Some ''xmm13'') (Some ''v13'') None False 128,
     Reg (Some ''xmm14'') (Some ''v14'') None False 128,
     Reg (Some ''xmm15'') (Some ''v15'') None False 128,
     Reg (Some ''cs'') None None False 16,
     Reg (Some ''ds'') None None False 16,
     Reg (Some ''es'') None None False 16,
     Reg (Some ''fs'') None None False 16,
     Reg (Some ''gs'') None None False 16,
     Reg (Some ''ss'') None None False 16,
     Reg None (Some ''x0'') None False 64,
     Reg None (Some ''x1'') None False 64,
     Reg None (Some ''x2'') None False 64,
     Reg None (Some ''x3'') None False 64,
     Reg None (Some ''x4'') None False 64,
     Reg None (Some ''x5'') None False 64,
     Reg None (Some ''x6'') None False 64,
     Reg None (Some ''x7'') None False 64,
     Reg None (Some ''x8'') None False 64,
     Reg None (Some ''x9'') None False 64,
     Reg None (Some ''x10'') None False 64,
     Reg None (Some ''x11'') None False 64,
     Reg None (Some ''x12'') None False 64,
     Reg None (Some ''x13'') None False 64,
     Reg None (Some ''x14'') None False 64,
     Reg None (Some ''x15'') None False 64,
     Reg None (Some ''x16'') None False 64,
     Reg None (Some ''x17'') None False 64,
     Reg None (Some ''x18'') None False 64,
     Reg None (Some ''x19'') None True 64,
     Reg None (Some ''x20'') None True 64,
     Reg None (Some ''x21'') None True 64,
     Reg None (Some ''x22'') None True 64,
     Reg None (Some ''x23'') None True 64,
     Reg None (Some ''x24'') None True 64,
     Reg None (Some ''x25'') None True 64,
     Reg None (Some ''x26'') None True 64,
     Reg None (Some ''x27'') None True 64,
     Reg None (Some ''x28'') None True 64,
     Reg None (Some ''x29'') None True 64,
     Reg None (Some ''x30'') None False 64,
     Reg None (Some ''xzr'') None False 64,
     Reg None None (Some ''zero'') False 64,
     Reg None None (Some ''ra'') False 64,
     Reg None None (Some ''sp'') True 64,
     Reg None None (Some ''gp'') False 64,
     Reg None None (Some ''tp'') False 64,
     Reg None None (Some ''t0'') False 64,
     Reg None None (Some ''t1'') False 64,
     Reg None None (Some ''t2'') False 64,
     Reg None None (Some ''s0'') True 64,
     Reg None None (Some ''s1'') True 64,
     Reg None None (Some ''s2'') True 64,
     Reg None None (Some ''s3'') True 64,
     Reg None None (Some ''s4'') True 64,
     Reg None None (Some ''s5'') True 64,
     Reg None None (Some ''s6'') True 64,
     Reg None None (Some ''s7'') True 64,
     Reg None None (Some ''s8'') True 64,
     Reg None None (Some ''s9'') True 64,
     Reg None None (Some ''s10'') True 64,
     Reg None None (Some ''s11'') True 64,
     Reg None None (Some ''a0'') False 64,
     Reg None None (Some ''a1'') False 64,
     Reg None None (Some ''a2'') False 64,
     Reg None None (Some ''a3'') False 64,
     Reg None None (Some ''a4'') False 64,
     Reg None None (Some ''a5'') False 64,
     Reg None None (Some ''a6'') False 64,
     Reg None None (Some ''a7'') False 64,
     Reg None None (Some ''t3'') False 64,
     Reg None None (Some ''t4'') False 64,
     Reg None None (Some ''t5'') False 64,
     Reg None None (Some ''t6'') False 64]"

fun entry_name :: "AsmArch \<Rightarrow> AsmRegEntry \<Rightarrow> string option" where
  "entry_name ASM_ARCH_X86_64 (Reg x _ _ _ _) = x"
| "entry_name ASM_ARCH_ARM64 (Reg _ a _ _ _) = a"
| "entry_name ASM_ARCH_RISCV64 (Reg _ _ r _ _) = r"

fun entry_callee_saved :: "AsmRegEntry \<Rightarrow> bool" where
  "entry_callee_saved (Reg _ _ _ c _) = c"

fun entry_width :: "AsmRegEntry \<Rightarrow> nat" where
  "entry_width (Reg _ _ _ _ w) = w"

definition asm_reg_name :: "AsmRegister \<Rightarrow> AsmArch \<Rightarrow> string option" where
  "asm_reg_name reg arch =
     (if reg \<ge> ASM_REG_COUNT then None else entry_name arch (asm_reg_table ! reg))"

text \<open>The loop over the table: the first row from number \<open>i\<close> on whose name is the one looked for.\<close>

primrec reg_search :: "AsmArch \<Rightarrow> string \<Rightarrow> AsmRegister \<Rightarrow> AsmRegEntry list \<Rightarrow> AsmRegister" where
  "reg_search arch name i [] = ASM_REG_COUNT"
| "reg_search arch name i (e # es) =
     (if entry_name arch e = Some name then i else reg_search arch name (Suc i) es)"

definition asm_reg_from_name :: "string \<Rightarrow> AsmRegister" where
  "asm_reg_from_name name = reg_search ASM_ARCH_X86_64 name 0 asm_reg_table"

definition asm_reg_width :: "AsmRegister \<Rightarrow> nat" where
  "asm_reg_width reg = (if reg \<ge> ASM_REG_COUNT then 0 else entry_width (asm_reg_table ! reg))"

definition asm_reg_is_callee_saved :: "AsmRegister \<Rightarrow> bool" where
  "asm_reg_is_callee_saved reg = (reg < ASM_REG_COUNT \<and> entry_callee_saved (asm_reg_table ! reg))"

section \<open>Operands, instructions, directives\<close>

definition ASM_MAX_OPERANDS :: nat where "ASM_MAX_OPERANDS = 3"
definition ASM_MAX_LABEL_LEN :: nat where "ASM_MAX_LABEL_LEN = 48"
definition ASM_MAX_MNEMONIC_LEN :: nat where "ASM_MAX_MNEMONIC_LEN = 12"

text \<open>\<open>strncpy(buf, s, n - 1)\<close> into a zeroed array of n bytes, read back as a C string.\<close>

definition strncpy_buf :: "nat \<Rightarrow> string \<Rightarrow> string" where
  "strncpy_buf n s = take (n - 1) (takeWhile (\<lambda>c. c \<noteq> NUL) s)"

datatype (plugins only: code) AsmSizeSpec =
      ASM_SIZE_NONE | ASM_SIZE_BYTE | ASM_SIZE_WORD | ASM_SIZE_DWORD
    | ASM_SIZE_QWORD | ASM_SIZE_OWORD | ASM_SIZE_TWORD

datatype (plugins only: code) AsmAddrMode =
      ASM_ADDR_NONE | ASM_ADDR_DIRECT | ASM_ADDR_BASE | ASM_ADDR_BASE_DISP
    | ASM_ADDR_BASE_INDEX | ASM_ADDR_BASE_INDEX_DISP | ASM_ADDR_RIP_REL

datatype (plugins only: code) AsmOperandType =
      ASM_OP_REGISTER | ASM_OP_IMMEDIATE | ASM_OP_MEMORY | ASM_OP_LABEL | ASM_OP_EXPR

datatype (plugins only: code) AsmDirectiveType =
      ASM_DIR_NONE | ASM_DIR_SECTION | ASM_DIR_GLOBAL | ASM_DIR_EXTERN | ASM_DIR_ALIGN
    | ASM_DIR_TIMES | ASM_DIR_DB | ASM_DIR_DW | ASM_DIR_DD | ASM_DIR_DQ
    | ASM_DIR_RESB | ASM_DIR_RESW | ASM_DIR_RESD | ASM_DIR_RESQ | ASM_DIR_ORG
    | ASM_DIR_BITS | ASM_DIR_INCBIN | ASM_DIR_EQU | ASM_DIR_STRUC | ASM_DIR_MACRO

text \<open>Size specifiers are ordered by the number of bytes they stand for.\<close>

fun size_bytes :: "AsmSizeSpec \<Rightarrow> nat" where
  "size_bytes ASM_SIZE_NONE = 0"
| "size_bytes ASM_SIZE_BYTE = 1"
| "size_bytes ASM_SIZE_WORD = 2"
| "size_bytes ASM_SIZE_DWORD = 4"
| "size_bytes ASM_SIZE_QWORD = 8"
| "size_bytes ASM_SIZE_OWORD = 16"
| "size_bytes ASM_SIZE_TWORD = 10"

lemma size_bytes_inject: "size_bytes s = size_bytes t \<longleftrightarrow> s = t"
  by (cases s; cases t) simp_all

instantiation AsmSizeSpec :: linorder
begin

definition less_eq_AsmSizeSpec :: "AsmSizeSpec \<Rightarrow> AsmSizeSpec \<Rightarrow> bool" where
  "less_eq_AsmSizeSpec s t \<longleftrightarrow> size_bytes s \<le> size_bytes t"

definition less_AsmSizeSpec :: "AsmSizeSpec \<Rightarrow> AsmSizeSpec \<Rightarrow> bool" where
  "less_AsmSizeSpec s t \<longleftrightarrow> size_bytes s < size_bytes t"

instance
  by standard (auto simp: less_eq_AsmSizeSpec_def less_AsmSizeSpec_def size_bytes_inject)

end

record AsmMem =
  mem_mode :: AsmAddrMode
  mem_base :: AsmRegister
  mem_index :: AsmRegister
  mem_scale :: int
  mem_displacement :: "64 word"
  mem_label :: string
  mem_size :: AsmSizeSpec

record AsmOperand =
  op_type :: AsmOperandType
  op_reg :: AsmRegister
  op_immediate :: "64 word"
  op_mem :: AsmMem
  op_label :: string
  op_expr :: string

record AsmInstruction =
  ins_mnemonic :: string
  ins_operands :: "AsmOperand list"
  ins_has_size_spec :: bool
  ins_size_spec :: AsmSizeSpec
  ins_is_lock_prefix :: bool
  ins_is_rep_prefix :: bool

record AsmDirective =
  dir_type :: AsmDirectiveType
  dir_name :: string
  dir_value :: "64 word"
  dir_value2 :: "64 word"
  dir_data :: "AsmOperand list"

record AsmLabel =
  lab_name :: string
  lab_is_global :: bool
  lab_is_local :: bool

text \<open>An element is the tagged member of its struct.\<close>

datatype (plugins only: code) AsmElement =
    ElemInstruction AsmInstruction
  | ElemDirective AsmDirective
  | ElemLabel AsmLabel
  | ElemComment string

definition mem_zero :: AsmMem where
  "mem_zero = \<lparr>mem_mode = ASM_ADDR_NONE, mem_base = 0, mem_index = 0, mem_scale = 0,
     mem_displacement = 0, mem_label = [], mem_size = ASM_SIZE_NONE\<rparr>"

definition op_zero :: AsmOperand where
  "op_zero = \<lparr>op_type = ASM_OP_REGISTER, op_reg = 0, op_immediate = 0, op_mem = mem_zero,
     op_label = [], op_expr = []\<rparr>"

definition asm_instr_init :: "string \<Rightarrow> AsmInstruction" where
  "asm_instr_init mnemonic = \<lparr>ins_mnemonic = strncpy_buf ASM_MAX_MNEMONIC_LEN mnemonic, ins_operands = [],
     ins_has_size_spec = False, ins_size_spec = ASM_SIZE_NONE, ins_is_lock_prefix = False,
     ins_is_rep_prefix = False\<rparr>"

definition asm_instr_add_operand :: "AsmInstruction \<Rightarrow> AsmOperand \<Rightarrow> AsmInstruction" where
  "asm_instr_add_operand instr op =
     (if length (ins_operands instr) \<ge> ASM_MAX_OPERANDS then instr
      else instr\<lparr>ins_operands := ins_operands instr @ [op]\<rparr>)"

definition asm_op_reg :: "AsmRegister \<Rightarrow> AsmOperand" where
  "asm_op_reg reg = op_zero\<lparr>op_type := ASM_OP_REGISTER, op_reg := reg\<rparr>"

definition asm_op_imm :: "64 word \<Rightarrow> AsmOperand" where
  "asm_op_imm v = op_zero\<lparr>op_type := ASM_OP_IMMEDIATE, op_immediate := v\<rparr>"

definition asm_op_label :: "string \<Rightarrow> AsmOperand" where
  "asm_op_label l = op_zero\<lparr>op_type := ASM_OP_LABEL, op_label := strncpy_buf ASM_MAX_LABEL_LEN l\<rparr>"

definition asm_op_mem :: "AsmMem \<Rightarrow> AsmOperand" where
  "asm_op_mem m = op_zero\<lparr>op_type := ASM_OP_MEMORY, op_mem := m\<rparr>"

definition asm_op_expr :: "string \<Rightarrow> AsmOperand" where
  "asm_op_expr e = op_zero\<lparr>op_type := ASM_OP_EXPR, op_expr := strncpy_buf ASM_MAX_LABEL_LEN e\<rparr>"

definition asm_mem_init :: AsmMem where
  "asm_mem_init = mem_zero\<lparr>mem_base := ASM_REG_COUNT, mem_index := ASM_REG_COUNT, mem_scale := 1\<rparr>"

definition asm_mem_base :: "AsmRegister \<Rightarrow> AsmMem" where
  "asm_mem_base base = asm_mem_init\<lparr>mem_mode := ASM_ADDR_BASE, mem_base := base\<rparr>"

definition asm_mem_base_disp :: "AsmRegister \<Rightarrow> 64 word \<Rightarrow> AsmMem" where
  "asm_mem_base_disp base disp =
     asm_mem_init\<lparr>mem_mode := ASM_ADDR_BASE_DISP, mem_base := base, mem_displacement := disp\<rparr>"

definition asm_mem_base_index :: "AsmRegister \<Rightarrow> AsmRegister \<Rightarrow> int \<Rightarrow> AsmMem" where
  "asm_mem_base_index base index scale =
     asm_mem_init\<lparr>mem_mode := ASM_ADDR_BASE_INDEX, mem_base := base, mem_index := index, mem_scale := scale\<rparr>"

definition asm_mem_full :: "AsmRegister \<Rightarrow> AsmRegister \<Rightarrow> int \<Rightarrow> 64 word \<Rightarrow> AsmMem" where
  "asm_mem_full base index scale disp =
     asm_mem_init\<lparr>mem_mode := ASM_ADDR_BASE_INDEX_DISP, mem_base := base, mem_index := index,
       mem_scale := scale, mem_displacement := disp\<rparr>"

definition asm_mem_rip_rel :: "string \<Rightarrow> AsmMem" where
  "asm_mem_rip_rel l = asm_mem_init\<lparr>mem_mode := ASM_ADDR_RIP_REL, mem_label := strncpy_buf ASM_MAX_LABEL_LEN l\<rparr>"

section \<open>Blocks\<close>

text \<open>
  The elements with the capacity of the array.  \<open>granted\<close> says whether \<open>realloc\<close> finds memory for a
  number of elements; the answer is the return code 0 or -1.
\<close>

record AsmIRBlock =
  blk_elements :: "AsmElement list"
  blk_capacity :: nat

definition asm_block_init :: AsmIRBlock where
  "asm_block_init = \<lparr>blk_elements = [], blk_capacity = 16\<rparr>"

definition asm_block_free :: "AsmIRBlock \<Rightarrow> AsmIRBlock" where
  "asm_block_free block = \<lparr>blk_elements = [], blk_capacity = 0\<rparr>"

definition asm_block_add :: "(nat \<Rightarrow> bool) \<Rightarrow> AsmIRBlock \<Rightarrow> AsmElement \<Rightarrow> int \<times> AsmIRBlock" where
  "asm_block_add granted block elem =
     (if length (blk_elements block) \<ge> blk_capacity block then
        let new_cap = blk_capacity block * 2
        in if \<not> granted new_cap then (-1, block)
           else (0, block\<lparr>blk_elements := blk_elements block @ [elem], blk_capacity := new_cap\<rparr>)
      else (0, block\<lparr>blk_elements := blk_elements block @ [elem]\<rparr>))"

interpretation asm_block: doubling_buffer
  "\<lambda>x b. (case asm_block_add granted b x of (r, b') \<Rightarrow> if r = 0 then Some b' else None)"
  blk_elements blk_capacity "\<lambda>b. length (blk_elements b) \<le> blk_capacity b \<and> 0 < blk_capacity b"
  "\<lambda>_. True" 16
  for granted :: "nat \<Rightarrow> bool"
proof
  fix b x b'
  assume wf: "length (blk_elements b) \<le> blk_capacity b \<and> 0 < blk_capacity b"
    and "(case asm_block_add granted b x of (r, b') \<Rightarrow> if r = 0 then Some b' else None) = Some b'"
  then show "(length (blk_elements b') \<le> blk_capacity b' \<and> 0 < blk_capacity b') \<and>
    blk_elements b' = blk_elements b @ [x] \<and>
    blk_capacity b' = (if length (blk_elements b) < blk_capacity b then blk_capacity b
                       else if blk_capacity b = 0 then 16 else 2 * blk_capacity b)"
    using wf by (cases "granted (blk_capacity b * 2)") (auto simp: asm_block_add_def Let_def Suc_le_eq split: if_splits)
qed auto

section \<open>The register table\<close>

lemma length_asm_reg_table [simp]: "length asm_reg_table = ASM_REG_COUNT"
  by (simp add: asm_reg_table_def ASM_REG_COUNT_def)

text \<open>The names a target has for the registers, in order.\<close>

definition reg_names :: "AsmArch \<Rightarrow> string list" where
  "reg_names arch = List.map_filter (entry_name arch) asm_reg_table"

lemma reg_search_found:
  "distinct (List.map_filter (entry_name arch) es) \<Longrightarrow> k < length es \<Longrightarrow> entry_name arch (es ! k) = Some s \<Longrightarrow>
   reg_search arch s i es = i + k"
proof (induction es arbitrary: i k)
  case (Cons e es)
  show ?case
  proof (cases k)
    case 0
    then show ?thesis using Cons.prems by simp
  next
    case (Suc j)
    have "s \<in> set (List.map_filter (entry_name arch) es)"
      using Cons.prems(2,3) Suc by (force simp: List.map_filter_def in_set_conv_nth image_iff)
    then have "entry_name arch e \<noteq> Some s"
      using Cons.prems(1) by (auto simp: List.map_filter_simps)
    then show ?thesis
      using Cons.IH [of j "Suc i"] Cons.prems Suc by (auto simp: List.map_filter_simps split: option.splits)
  qed
qed simp

lemma reg_search_bound: "reg_search arch s i es = ASM_REG_COUNT \<or>
   (\<exists>k < length es. reg_search arch s i es = i + k \<and> entry_name arch (es ! k) = Some s)"
proof (induction es arbitrary: i)
  case (Cons e es)
  show ?case
  proof (cases "entry_name arch e = Some s")
    case True
    then show ?thesis by (intro disjI2 exI [of _ 0]) simp
  next
    case False
    from Cons.IH [of "Suc i"] show ?thesis
    proof
      assume "\<exists>k < length es. reg_search arch s (Suc i) es = Suc i + k \<and> entry_name arch (es ! k) = Some s"
      then obtain k where "k < length es" "reg_search arch s (Suc i) es = Suc i + k" "entry_name arch (es ! k) = Some s"
        by blast
      with False show ?thesis by (intro disjI2 exI [of _ "Suc k"]) simp
    qed (use False in simp)
  qed
qed simp

lemma asm_reg_name_less: "asm_reg_name r arch = Some s \<Longrightarrow> r < ASM_REG_COUNT"
  by (auto simp: asm_reg_name_def split: if_splits)

lemma asm_reg_from_name_le: "asm_reg_from_name s \<le> ASM_REG_COUNT"
  using reg_search_bound [of ASM_ARCH_X86_64 s 0 asm_reg_table] by (auto simp: asm_reg_from_name_def)

lemma x86_names_distinct: "distinct (reg_names ASM_ARCH_X86_64)"
  by (simp add: reg_names_def asm_reg_table_def List.map_filter_simps)

lemma reg_from_name_of_name:
  "asm_reg_name r ASM_ARCH_X86_64 = Some s \<Longrightarrow> asm_reg_from_name s = r"
  using reg_search_found [OF x86_names_distinct [unfolded reg_names_def], of r s 0]
  by (auto simp: asm_reg_name_def asm_reg_from_name_def not_le split: if_splits)

lemma reg_name_of_from_name:
  "asm_reg_from_name s \<noteq> ASM_REG_COUNT \<Longrightarrow> asm_reg_name (asm_reg_from_name s) ASM_ARCH_X86_64 = Some s"
  using reg_search_bound [of ASM_ARCH_X86_64 s 0 asm_reg_table]
  by (auto simp: asm_reg_name_def asm_reg_from_name_def)

section \<open>Properties\<close>

text \<open>Looking a register up by its x86 name inverts naming it: a register is found exactly by its
  own name, and any other string answers \<open>ASM_REG_COUNT\<close>.\<close>
theorem asm_reg_from_name_inverse:
  "asm_reg_from_name s = r \<and> r \<noteq> ASM_REG_COUNT \<longleftrightarrow> asm_reg_name r ASM_ARCH_X86_64 = Some s"
  using reg_from_name_of_name [of r s] reg_name_of_from_name [of s] asm_reg_name_less [of r ASM_ARCH_X86_64 s]
  by auto

text \<open>The sixteen 64-bit registers are renamed one to one on either other target, their 32-bit
  halves follow them, and 8- and 16-bit registers have no name there.\<close>
theorem reg_table_renaming:
  "distinct (map (\<lambda>r. asm_reg_name r ASM_ARCH_ARM64) [ASM_REG_RAX..<ASM_REG_EAX]) \<and>
   distinct (map (\<lambda>r. asm_reg_name r ASM_ARCH_RISCV64) [ASM_REG_RAX..<ASM_REG_EAX]) \<and>
   map (\<lambda>r. asm_reg_name r ASM_ARCH_RISCV64) [ASM_REG_EAX..<ASM_REG_AX] =
     map (\<lambda>r. asm_reg_name r ASM_ARCH_RISCV64) [ASM_REG_RAX..<ASM_REG_EAX] \<and>
   list_all (\<lambda>r. asm_reg_name r ASM_ARCH_ARM64 = None \<and> asm_reg_name r ASM_ARCH_RISCV64 = None)
     [ASM_REG_AX..<ASM_REG_XMM0]"
  by (simp add: upt_rec asm_reg_name_def ASM_REG_COUNT_def asm_reg_table_def)

text \<open>The registers among the first sixteen whose row disagrees, on being callee saved, with the row of
  the target register they are renamed to.\<close>

definition saved_mismatch :: "AsmArch \<Rightarrow> AsmRegister list" where
  "saved_mismatch arch = map fst (filter (\<lambda>(r, e).
     list_ex (\<lambda>t. entry_name arch t = entry_name arch e \<and> entry_callee_saved t \<noteq> entry_callee_saved e)
       (drop ASM_REG_X0 asm_reg_table))
     (enumerate 0 (take 16 asm_reg_table)))"

text \<open>The table renames the callee-saved r12 to r15 to ARM registers its own ARM rows call
  caller-saved, and the caller-saved r11 to a RISC-V register its RISC-V row calls callee-saved.\<close>
theorem reg_table_saved_mismatch:
  "saved_mismatch ASM_ARCH_ARM64 = [ASM_REG_R12, ASM_REG_R13, ASM_REG_R14, ASM_REG_R15] \<and>
   saved_mismatch ASM_ARCH_RISCV64 = [ASM_REG_R11]"
  by (simp add: saved_mismatch_def asm_reg_table_def)

text \<open>An instruction keeps the first three operands it is given and drops the others.\<close>
theorem asm_instr_operands:
  "ins_operands (foldl asm_instr_add_operand (asm_instr_init mn) ops) = take 3 ops"
proof -
  have "length (ins_operands i) \<le> 3 \<Longrightarrow>
      ins_operands (foldl asm_instr_add_operand i ops) = take 3 (ins_operands i @ ops)" for i
    by (induction ops arbitrary: i) (auto simp: asm_instr_add_operand_def ASM_MAX_OPERANDS_def not_le take_Cons')
  from this [of "asm_instr_init mn"] show ?thesis by (simp add: asm_instr_init_def)
qed

text \<open>A block built by successful adds holds the elements in order, in an array of at most twice
  their number (or the first sixteen).\<close>
theorem asm_block_holds_elements:
  assumes "fold (\<lambda>x b. case b of None \<Rightarrow> None | Some b' \<Rightarrow>
      (case asm_block_add granted b' x of (r, b'') \<Rightarrow> if r = 0 then Some b'' else None)) xs (Some asm_block_init) = Some b"
  shows "blk_elements b = xs \<and> length xs \<le> blk_capacity b \<and> blk_capacity b \<le> max 16 (2 * length xs)"
proof -
  have none: "fold (\<lambda>x b. case b of None \<Rightarrow> None | Some b' \<Rightarrow> f x b') xs None = None" for f and xs :: "AsmElement list"
    by (induction xs) simp_all
  have all: "asm_block.push_all granted xs b = fold (\<lambda>x b. case b of None \<Rightarrow> None | Some b' \<Rightarrow>
      (case asm_block_add granted b' x of (r, b'') \<Rightarrow> if r = 0 then Some b'' else None)) xs (Some b)" for xs b
    by (induction xs arbitrary: b) (auto simp: none split: prod.splits)
  have "list_all (\<lambda>_. True) xs" by (simp add: list_all_iff)
  then show ?thesis
    using asm_block.push_all_elems [of asm_block_init xs granted b]
      asm_block.push_all_capacity [of asm_block_init xs granted b] assms
    by (simp add: all asm_block_init_def)
qed

theorem asm_block_holds_elements_witness:
  "\<exists>b. fold (\<lambda>x b. case b of None \<Rightarrow> None | Some b' \<Rightarrow>
      (case asm_block_add (\<lambda>n. n \<le> 100) b' x of (r, b'') \<Rightarrow> if r = 0 then Some b'' else None))
      [ElemComment ''a'', ElemComment ''b''] (Some asm_block_init) = Some b \<and>
    blk_elements b = [ElemComment ''a'', ElemComment ''b'']"
proof -
  obtain b where b: "fold (\<lambda>x b. case b of None \<Rightarrow> None | Some b' \<Rightarrow>
      (case asm_block_add (\<lambda>n. n \<le> 100) b' x of (r, b'') \<Rightarrow> if r = 0 then Some b'' else None))
      [ElemComment ''a'', ElemComment ''b''] (Some asm_block_init) = Some b"
    by (simp add: asm_block_add_def asm_block_init_def)
  with asm_block_holds_elements [OF b] show ?thesis by blast
qed

end
