(* ===== verification/AsmLexer.thy ===== *)
theory AsmLexer
  imports AsmIR
begin

text \<open>
  The lexer of the assembler (first half of \<open>src/asm_parser.c\<close>): a cursor over the source, with line
  and column, and \<open>asm_lex_next\<close>.  A token refers to the source by offset and length.  A NUL byte
  reads as the end of the input, as in the code.  Number literals accumulate in an \<open>int64_t\<close>; the
  overflow C leaves undefined is taken to wrap.
\<close>

section \<open>State\<close>

record AsmParser =
  ap_source :: string
  ap_pos :: nat
  ap_line :: int
  ap_col :: int
  ap_filename :: string
  ap_error_msg :: string
  ap_has_error :: bool

datatype (plugins only: code) AsmTokenType =
    ASM_TOK_EOF | ASM_TOK_IDENT | ASM_TOK_REGISTER | ASM_TOK_NUMBER | ASM_TOK_STRING | ASM_TOK_COMMA
  | ASM_TOK_COLON | ASM_TOK_LBRACKET | ASM_TOK_RBRACKET | ASM_TOK_LPAREN | ASM_TOK_RPAREN
  | ASM_TOK_PLUS | ASM_TOK_MINUS | ASM_TOK_STAR | ASM_TOK_DOLLAR | ASM_TOK_PERCENT | ASM_TOK_NEWLINE
  | ASM_TOK_SIZE_SPEC | ASM_TOK_DIRECTIVE | ASM_TOK_PREFIX | ASM_TOK_ERROR

record AsmToken =
  atk_type :: AsmTokenType
  atk_start :: nat
  atk_len :: nat
  atk_int :: "64 word"
  atk_line :: int
  atk_col :: int

definition asm_parser_init :: "string \<Rightarrow> string \<Rightarrow> AsmParser" where
  "asm_parser_init source filename = \<lparr>ap_source = source, ap_pos = 0, ap_line = 1, ap_col = 1,
     ap_filename = filename, ap_error_msg = [], ap_has_error = False\<rparr>"

definition asm_peek :: "AsmParser \<Rightarrow> char" where
  "asm_peek p = (if ap_pos p \<ge> length (ap_source p) then NUL else ap_source p ! ap_pos p)"

definition asm_advance :: "AsmParser \<Rightarrow> AsmParser" where
  "asm_advance p =
     (if ap_pos p \<ge> length (ap_source p) then p
      else let c = ap_source p ! ap_pos p; q = p\<lparr>ap_pos := ap_pos p + 1\<rparr>
           in if c = NL then q\<lparr>ap_line := ap_line p + 1, ap_col := 1\<rparr> else q\<lparr>ap_col := ap_col p + 1\<rparr>)"

text \<open>The bytes of a token, and a copy of at most \<open>bufsz - 1\<close> of them as a C string.\<close>

definition tok_text :: "AsmParser \<Rightarrow> AsmToken \<Rightarrow> string" where
  "tok_text p tok = take (atk_len tok) (drop (atk_start tok) (ap_source p))"

definition tok_copy :: "nat \<Rightarrow> AsmParser \<Rightarrow> AsmToken \<Rightarrow> string" where
  "tok_copy bufsz p tok = takeWhile (\<lambda>c. c \<noteq> NUL) (take (bufsz - 1) (tok_text p tok))"

definition reg_from_tok :: "AsmParser \<Rightarrow> AsmToken \<Rightarrow> AsmRegister" where
  "reg_from_tok p tok = asm_reg_from_name (tok_copy 16 p tok)"

section \<open>Scanning loops\<close>

text \<open>\<open>while (P(asm_peek(parser))) asm_advance(parser);\<close> for tests that fail on NUL.\<close>

lemma asm_peek_end: "ap_pos p \<ge> length (ap_source p) \<Longrightarrow> asm_peek p = NUL"
  by (simp add: asm_peek_def)

lemma asm_advance_pos:
  "asm_peek p \<noteq> NUL \<Longrightarrow> ap_pos (asm_advance p) = ap_pos p + 1 \<and> ap_pos p < length (ap_source p)"
  by (auto simp: asm_peek_def asm_advance_def Let_def split: if_splits)

lemma asm_advance_frame [simp]:
  "ap_source (asm_advance p) = ap_source p" "ap_filename (asm_advance p) = ap_filename p"
  "ap_error_msg (asm_advance p) = ap_error_msg p" "ap_has_error (asm_advance p) = ap_has_error p"
  by (simp_all add: asm_advance_def Let_def)

function asm_skip_while :: "(char \<Rightarrow> bool) \<Rightarrow> AsmParser \<Rightarrow> AsmParser" where
  "asm_skip_while P p = (if asm_peek p \<noteq> NUL \<and> P (asm_peek p) then asm_skip_while P (asm_advance p) else p)"
  by pat_completeness auto
termination
  by (relation "measure (\<lambda>(P, p). length (ap_source p) - ap_pos p)") (auto dest!: asm_advance_pos)

declare asm_skip_while.simps [simp del]

definition asm_skip_space :: "AsmParser \<Rightarrow> AsmParser" where
  "asm_skip_space p = asm_skip_while (\<lambda>c. c = SPACE \<or> c = TAB) p"

definition asm_skip_to_eol :: "AsmParser \<Rightarrow> AsmParser" where
  "asm_skip_to_eol p = asm_skip_while (\<lambda>c. c \<noteq> NL) p"

text \<open>The bytes between two positions of the cursor.\<close>

definition asm_between :: "AsmParser \<Rightarrow> AsmParser \<Rightarrow> string" where
  "asm_between p q = subbytes (ap_source p) (ap_pos p) (ap_pos q)"

section \<open>Word classes\<close>

definition asm_is_register :: "string \<Rightarrow> bool" where
  "asm_is_register s \<longleftrightarrow> 2 \<le> length s \<and> length s \<le> 4 \<and>
     asm_reg_from_name (takeWhile (\<lambda>c. c \<noteq> NUL) s) \<noteq> ASM_REG_COUNT"

definition asm_is_size_spec :: "string \<Rightarrow> bool" where
  "asm_is_size_spec s \<longleftrightarrow> s = ''byte'' \<or> s = ''word'' \<or> s = ''dword'' \<or> s = ''qword'' \<or>
     s = ''oword'' \<or> s = ''twor''"

definition asm_directives :: "string list" where
  "asm_directives = [''section'', ''global'', ''extern'', ''align'', ''org'', ''bits'',
     ''times'', ''db'', ''dw'', ''dd'', ''dq'', ''resb'', ''resw'', ''resd'', ''resq'',
     ''incbin'', ''equ'', ''struc'', ''endstruc'', ''istruc'', ''at'', ''iend'',
     ''macro'', ''endmacro'', ''imacro'', ''endimacro'']"

definition asm_is_directive :: "string \<Rightarrow> bool" where
  "asm_is_directive s \<longleftrightarrow> List.member asm_directives s"

definition asm_is_prefix :: "string \<Rightarrow> bool" where
  "asm_is_prefix s \<longleftrightarrow> s = ''lock'' \<or> s = ''rep'' \<or> s = ''repe'' \<or> s = ''repne''"

definition word_type :: "string \<Rightarrow> AsmTokenType" where
  "word_type s =
     (if asm_is_register s then ASM_TOK_REGISTER
      else if asm_is_size_spec s then ASM_TOK_SIZE_SPEC
      else if asm_is_directive s then ASM_TOK_DIRECTIVE
      else if asm_is_prefix s then ASM_TOK_PREFIX
      else ASM_TOK_IDENT)"

section \<open>The lexer\<close>

text \<open>A token of a type that starts at a cursor; line and column are those of the cursor before it.\<close>

definition asm_tok :: "AsmParser \<Rightarrow> AsmTokenType \<Rightarrow> AsmParser \<Rightarrow> nat \<Rightarrow> 64 word \<Rightarrow> AsmToken" where
  "asm_tok p0 ty p len v = \<lparr>atk_type = ty, atk_start = ap_pos p, atk_len = len, atk_int = v,
     atk_line = ap_line p0, atk_col = ap_col p0\<rparr>"

text \<open>The body of a string literal: an escape counts as one character of the token.\<close>

function asm_string_loop :: "char \<Rightarrow> AsmParser \<Rightarrow> nat \<Rightarrow> nat \<times> AsmParser" where
  "asm_string_loop quote p len =
     (if asm_peek p \<noteq> NUL \<and> asm_peek p \<noteq> quote then
        if asm_peek p = BSLASH then
          let q = asm_advance p
          in asm_string_loop quote (if asm_peek q \<noteq> NUL then asm_advance q else q) (len + 1)
        else asm_string_loop quote (asm_advance p) (len + 1)
      else (len, p))"
  by pat_completeness auto
termination
proof (relation "measure (\<lambda>(quote, p, len). length (ap_source p) - ap_pos p)", goal_cases)
  case (2 quote p len q)
  have p: "ap_pos (asm_advance p) = ap_pos p + 1" "ap_pos p < length (ap_source p)"
    using 2 asm_advance_pos [of p] by auto
  let ?r = "if asm_peek q \<noteq> NUL then asm_advance q else q"
  have "ap_pos q \<le> ap_pos ?r" using asm_advance_pos [of q] by auto
  then have r: "ap_pos p < ap_pos ?r" using p 2 by simp
  have "ap_source ?r = ap_source p" using 2 by simp
  then show ?case unfolding in_measure prod.case by (simp only: diff_less_mono2 [OF r p(2)])
next
  case (3 quote p len)
  then show ?case using asm_advance_pos [of p] by auto
qed simp

declare asm_string_loop.simps [simp del]

definition asm_lex_string :: "AsmParser \<Rightarrow> AsmParser \<Rightarrow> char \<Rightarrow> AsmToken \<times> AsmParser" where
  "asm_lex_string p0 p quote =
     (let p1 = asm_advance p; (len, p2) = asm_string_loop quote p1 0
      in (asm_tok p0 ASM_TOK_STRING p1 len 0, if asm_peek p2 = quote then asm_advance p2 else p2))"

definition digits_word :: "nat \<Rightarrow> string \<Rightarrow> 64 word" where
  "digits_word b s = foldl (\<lambda>v c. v * of_nat b + of_nat (digit_val c)) 0 s"

text \<open>A run of digits of a base from a cursor.\<close>

definition asm_lex_digits :: "AsmParser \<Rightarrow> nat \<Rightarrow> (char \<Rightarrow> bool) \<Rightarrow> AsmParser \<Rightarrow> AsmToken \<times> AsmParser" where
  "asm_lex_digits p0 b P p =
     (let q = asm_skip_while P p; s = asm_between p q
      in (asm_tok p0 ASM_TOK_NUMBER p (length s) (digits_word b s), q))"

definition asm_lex_number :: "AsmParser \<Rightarrow> AsmParser \<Rightarrow> char \<Rightarrow> AsmToken \<times> AsmParser" where
  "asm_lex_number p0 p c =
     (if c = CHR ''0'' then
        let p1 = asm_advance p; c = asm_peek p1
        in if c = CHR ''x'' \<or> c = CHR ''X'' then asm_lex_digits p0 16 c_isxdigit (asm_advance p1)
           else if c = CHR ''b'' \<or> c = CHR ''B'' then
             asm_lex_digits p0 2 (\<lambda>c. c = CHR ''0'' \<or> c = CHR ''1'') (asm_advance p1)
           else (asm_tok p0 ASM_TOK_NUMBER p 1 0, p1)
      else asm_lex_digits p0 10 c_isdigit p)"

definition asm_punct :: "char \<Rightarrow> AsmTokenType option" where
  "asm_punct c =
     (if c = CHR '','' then Some ASM_TOK_COMMA
      else if c = CHR '':'' then Some ASM_TOK_COLON
      else if c = CHR ''['' then Some ASM_TOK_LBRACKET
      else if c = CHR '']'' then Some ASM_TOK_RBRACKET
      else if c = CHR ''+'' then Some ASM_TOK_PLUS
      else if c = CHR ''-'' then Some ASM_TOK_MINUS
      else if c = CHR ''*'' then Some ASM_TOK_STAR
      else if c = CHR ''$'' then Some ASM_TOK_DOLLAR
      else if c = CHR ''%'' then Some ASM_TOK_PERCENT
      else None)"

definition is_word_char :: "char \<Rightarrow> bool" where
  "is_word_char c \<longleftrightarrow> c_isalnum c \<or> c = CHR ''_'' \<or> c = CHR ''.''"

definition is_word_start :: "char \<Rightarrow> bool" where
  "is_word_start c \<longleftrightarrow> c_isalpha c \<or> c = CHR ''_'' \<or> c = CHR ''.''"

definition asm_lex_word :: "AsmParser \<Rightarrow> AsmParser \<Rightarrow> AsmToken \<times> AsmParser" where
  "asm_lex_word p0 p =
     (let q = asm_skip_while is_word_char p; w = asm_between p q
      in (asm_tok p0 (word_type w) p (length w) 0, q))"

text \<open>The token at a byte that is no blank, no newline, no comment and not the end.\<close>

definition asm_lex_token :: "AsmParser \<Rightarrow> AsmParser \<Rightarrow> char \<Rightarrow> AsmToken \<times> AsmParser" where
  "asm_lex_token p0 p c =
     (if c = DQUOTE \<or> c = SQUOTE then asm_lex_string p0 p c
      else if c_isdigit c then asm_lex_number p0 p c
      else case asm_punct c of
             Some ty \<Rightarrow> (asm_tok p0 ty p 1 0, asm_advance p)
           | None \<Rightarrow>
               if is_word_start c then asm_lex_word p0 p
               else (asm_tok p0 ASM_TOK_ERROR p 1 0, asm_advance p))"

section \<open>The cursor only moves forward\<close>

text \<open>The fields no lexing touches.\<close>

definition asm_meta :: "AsmParser \<Rightarrow> string \<times> string \<times> bool" where
  "asm_meta p = (ap_filename p, ap_error_msg p, ap_has_error p)"

lemma asm_meta_advance [simp]: "asm_meta (asm_advance p) = asm_meta p"
  by (simp add: asm_meta_def)

definition asm_fwd :: "AsmParser \<Rightarrow> AsmParser \<Rightarrow> bool" where
  "asm_fwd p q \<longleftrightarrow> ap_source q = ap_source p \<and> ap_pos p \<le> ap_pos q \<and>
     (ap_pos p \<le> length (ap_source p) \<longrightarrow> ap_pos q \<le> length (ap_source p))"

definition asm_past :: "AsmParser \<Rightarrow> AsmParser \<Rightarrow> bool" where
  "asm_past p q \<longleftrightarrow> asm_fwd p q \<and> ap_pos p < ap_pos q \<and> ap_pos p < length (ap_source p)"

lemma asm_fwd_refl [simp]: "asm_fwd p p" by (simp add: asm_fwd_def)

lemma asm_fwd_trans [trans]: "asm_fwd p q \<Longrightarrow> asm_fwd q r \<Longrightarrow> asm_fwd p r"
  by (auto simp: asm_fwd_def)

lemma asm_past_fwd: "asm_past p q \<Longrightarrow> asm_fwd p q" by (simp add: asm_past_def)

lemma asm_past_trans1: "asm_past p q \<Longrightarrow> asm_fwd q r \<Longrightarrow> asm_past p r"
  by (auto simp: asm_past_def asm_fwd_def)

lemma asm_past_trans2: "asm_fwd p q \<Longrightarrow> asm_past q r \<Longrightarrow> asm_past p r"
  by (auto simp: asm_past_def asm_fwd_def)

lemma asm_fwd_advance [simp, progress_intros]: "asm_fwd p (asm_advance p)"
  by (auto simp: asm_fwd_def asm_advance_def Let_def)

lemma asm_past_advance: "asm_peek p \<noteq> NUL \<Longrightarrow> asm_past p (asm_advance p)"
  using asm_advance_pos [of p] by (simp add: asm_past_def)

lemma asm_fwd_skip_while [simp, progress_intros]: "asm_fwd p (asm_skip_while P p)"
proof (induction P p rule: asm_skip_while.induct)
  case (1 P p)
  then show ?case
    by (cases "asm_peek p \<noteq> NUL \<and> P (asm_peek p)")
      (auto simp: asm_skip_while.simps [of P p] intro: asm_fwd_trans [OF asm_fwd_advance])
qed

lemma asm_skip_while_stop: "asm_peek (asm_skip_while P p) = NUL \<or> \<not> P (asm_peek (asm_skip_while P p))"
proof (induction P p rule: asm_skip_while.induct)
  case (1 P p)
  then show ?case
    by (cases "asm_peek p \<noteq> NUL \<and> P (asm_peek p)") (auto simp: asm_skip_while.simps [of P p])
qed

lemma asm_skip_while_past: "asm_peek p \<noteq> NUL \<Longrightarrow> P (asm_peek p) \<Longrightarrow> asm_past p (asm_skip_while P p)"
  by (simp add: asm_skip_while.simps [of P p] asm_past_trans1 [OF asm_past_advance])

lemma asm_skip_while_frame [simp]:
  "ap_source (asm_skip_while P p) = ap_source p" "asm_meta (asm_skip_while P p) = asm_meta p"
proof -
  show "ap_source (asm_skip_while P p) = ap_source p"
    using asm_fwd_skip_while [of p P] by (simp add: asm_fwd_def)
  show "asm_meta (asm_skip_while P p) = asm_meta p"
  proof (induction P p rule: asm_skip_while.induct)
    case (1 P p)
    then show ?case
      by (cases "asm_peek p \<noteq> NUL \<and> P (asm_peek p)") (auto simp: asm_skip_while.simps [of P p])
  qed
qed

lemma asm_fwd_space [simp, progress_intros]: "asm_fwd p (asm_skip_space p)"
  by (simp add: asm_skip_space_def)

lemma asm_string_loop_fwd: "asm_fwd p (snd (asm_string_loop quote p len)) \<and>
   asm_meta (snd (asm_string_loop quote p len)) = asm_meta p"
proof (induction quote p len rule: asm_string_loop.induct)
  case (1 quote p len)
  show ?case
  proof (cases "asm_peek p \<noteq> NUL \<and> asm_peek p \<noteq> quote")
    case True
    let ?q = "asm_advance p"
    let ?r = "if asm_peek p = BSLASH then (if asm_peek ?q \<noteq> NUL then asm_advance ?q else ?q) else ?q"
    have e: "asm_string_loop quote p len = asm_string_loop quote ?r (len + 1)"
      using True by (simp add: asm_string_loop.simps [of quote p len] Let_def)
    have r: "asm_fwd p ?r" "asm_meta ?r = asm_meta p"
      by (auto intro: asm_fwd_trans [OF asm_fwd_advance asm_fwd_advance])
    have "asm_fwd ?r (snd (asm_string_loop quote ?r (len + 1))) \<and>
        asm_meta (snd (asm_string_loop quote ?r (len + 1))) = asm_meta ?r"
      using 1 True by (cases "asm_peek p = BSLASH") (simp_all split del: if_split)
    then show ?thesis unfolding e r(2) using asm_fwd_trans [OF r(1)] by blast
  next
    case False
    then have "asm_string_loop quote p len = (len, p)" by (auto simp: asm_string_loop.simps [of quote p len])
    then show ?thesis by simp
  qed
qed

function asm_lex_next :: "AsmParser \<Rightarrow> AsmToken \<times> AsmParser" where
  "asm_lex_next p0 =
     (let p = asm_skip_space p0; c = asm_peek p in
      if c = NUL then (asm_tok p0 ASM_TOK_EOF p 0 0, p)
      else if c = NL then (asm_tok p0 ASM_TOK_NEWLINE p 1 0, asm_advance p)
      else if c = CHR '';'' then asm_lex_next (asm_skip_to_eol p)
      else asm_lex_token p0 p c)"
  by pat_completeness auto
termination
proof (relation "measure (\<lambda>p. length (ap_source p) - ap_pos p)", goal_cases)
  case (2 p0 p c)
  then have "asm_past p (asm_skip_to_eol p)"
    unfolding asm_skip_to_eol_def by (intro asm_skip_while_past) auto
  then have "asm_past p0 (asm_skip_to_eol p)"
    using 2(1) by (simp add: asm_past_trans2 [OF asm_fwd_space])
  then show ?case by (auto simp: asm_past_def asm_fwd_def)
qed simp

declare asm_lex_next.simps [simp del]


text \<open>Every token but the end of the input moves the cursor, and no lexing sets the error flag.\<close>

lemma asm_lex_digits_fwd: "asm_fwd p (snd (asm_lex_digits p0 b P p)) \<and>
   asm_meta (snd (asm_lex_digits p0 b P p)) = asm_meta p"
  by (simp add: asm_lex_digits_def Let_def)

lemma asm_lex_token_past:
  assumes "asm_peek p = c" "c \<noteq> NUL"
  shows "asm_past p (snd (asm_lex_token p0 p c)) \<and> asm_meta (snd (asm_lex_token p0 p c)) = asm_meta p"
proof -
  have a: "asm_past p (asm_advance p)" using assms by (simp add: asm_past_advance)
  have str: "asm_past p (snd (asm_lex_string p0 p c)) \<and> asm_meta (snd (asm_lex_string p0 p c)) = asm_meta p"
  proof -
    obtain len p2 where l: "asm_string_loop c (asm_advance p) 0 = (len, p2)" by fastforce
    have "asm_fwd (asm_advance p) p2" and e: "asm_meta p2 = asm_meta p"
      using asm_string_loop_fwd [of "asm_advance p" c 0] by (auto simp: l)
    then have "asm_past p p2" by (intro asm_past_trans1 [OF a])
    moreover from asm_past_trans1 [OF this asm_fwd_advance] have "asm_past p (asm_advance p2)" .
    ultimately show ?thesis using e by (simp add: asm_lex_string_def Let_def l)
  qed
  have num: "asm_past p (snd (asm_lex_number p0 p c)) \<and> asm_meta (snd (asm_lex_number p0 p c)) = asm_meta p"
    if d: "c_isdigit c"
  proof (cases "c = CHR ''0''")
    case True
    have "asm_past p (snd (asm_lex_digits p0 b P (asm_advance (asm_advance p)))) \<and>
        asm_meta (snd (asm_lex_digits p0 b P (asm_advance (asm_advance p)))) = asm_meta p" for b P
      using asm_lex_digits_fwd [of "asm_advance (asm_advance p)" p0 b P]
      by (auto intro: asm_past_trans1 [OF a] asm_fwd_trans [OF asm_fwd_advance])
    then show ?thesis using True a by (simp add: asm_lex_number_def Let_def)
  next
    case False
    have "asm_past p (asm_skip_while c_isdigit p)" using assms d by (simp add: asm_skip_while_past)
    then show ?thesis using False by (simp add: asm_lex_number_def asm_lex_digits_def Let_def)
  qed
  have word: "asm_past p (snd (asm_lex_word p0 p)) \<and> asm_meta (snd (asm_lex_word p0 p)) = asm_meta p"
    if "is_word_start c"
  proof -
    have "is_word_char c" using that by (auto simp: is_word_start_def is_word_char_def c_isalnum_def)
    then have "asm_past p (asm_skip_while is_word_char p)" using assms by (simp add: asm_skip_while_past)
    then show ?thesis by (simp add: asm_lex_word_def Let_def)
  qed
  show ?thesis using a str num word by (auto simp: asm_lex_token_def split: option.splits)
qed

lemma atk_type_asm_tok [simp]: "atk_type (asm_tok p0 ty p n v) = ty"
  by (simp add: asm_tok_def)

lemma asm_lex_token_not_eof: "atk_type (fst (asm_lex_token p0 p c)) \<noteq> ASM_TOK_EOF"
  by (auto simp: asm_lex_token_def asm_lex_string_def asm_lex_number_def asm_lex_digits_def asm_lex_word_def
      word_type_def asm_punct_def Let_def case_prod_beta split: option.splits if_splits)

lemma asm_lex_token_not_newline: "atk_type (fst (asm_lex_token p0 p c)) \<noteq> ASM_TOK_NEWLINE"
  by (auto simp: asm_lex_token_def asm_lex_string_def asm_lex_number_def asm_lex_digits_def asm_lex_word_def
      word_type_def asm_punct_def Let_def case_prod_beta split: option.splits if_splits)

lemma asm_lex_next_fwd: "asm_fwd p (snd (asm_lex_next p)) \<and>
   asm_meta (snd (asm_lex_next p)) = asm_meta p \<and>
   (atk_type (fst (asm_lex_next p)) \<noteq> ASM_TOK_EOF \<longrightarrow> asm_past p (snd (asm_lex_next p)))"
proof (induction p rule: asm_lex_next.induct)
  case (1 p0)
  let ?p = "asm_skip_space p0"
  have s: "asm_fwd p0 ?p" "asm_meta ?p = asm_meta p0" by (simp_all add: asm_skip_space_def)
  consider "asm_peek ?p = NUL" | "asm_peek ?p = NL" | "asm_peek ?p = CHR '';''"
    | "asm_peek ?p \<noteq> NUL" "asm_peek ?p \<noteq> NL" "asm_peek ?p \<noteq> CHR '';''" by blast
  then show ?case
  proof cases
    case 1
    then show ?thesis using s by (simp add: asm_lex_next.simps [of p0] Let_def)
  next
    case 2
    have "asm_past p0 (asm_advance ?p)"
      using 2 by (intro asm_past_trans2 [OF s(1)] asm_past_advance) simp
    then show ?thesis using 2 s by (simp add: asm_lex_next.simps [of p0] Let_def asm_past_fwd)
  next
    case 3
    have e: "asm_lex_next p0 = asm_lex_next (asm_skip_to_eol ?p)"
      using 3 by (simp add: asm_lex_next.simps [of p0] Let_def)
    have f: "asm_fwd p0 (asm_skip_to_eol ?p)" "asm_meta (asm_skip_to_eol ?p) = asm_meta p0"
      by (simp_all add: asm_skip_to_eol_def s(2) asm_fwd_trans [OF s(1)])
    have "asm_fwd (asm_skip_to_eol ?p) (snd (asm_lex_next (asm_skip_to_eol ?p))) \<and>
      asm_meta (snd (asm_lex_next (asm_skip_to_eol ?p))) = asm_meta (asm_skip_to_eol ?p) \<and>
      (atk_type (fst (asm_lex_next (asm_skip_to_eol ?p))) \<noteq> ASM_TOK_EOF \<longrightarrow>
       asm_past (asm_skip_to_eol ?p) (snd (asm_lex_next (asm_skip_to_eol ?p))))"
      using 1 3 by simp
    then show ?thesis unfolding e using f asm_fwd_trans [OF f(1)] asm_past_trans2 [OF f(1)] by auto
  next
    case 4
    have e: "asm_lex_next p0 = asm_lex_token p0 ?p (asm_peek ?p)"
      using 4 by (simp add: asm_lex_next.simps [of p0] Let_def)
    have t: "asm_past ?p (snd (asm_lex_token p0 ?p (asm_peek ?p)))"
      "asm_meta (snd (asm_lex_token p0 ?p (asm_peek ?p))) = asm_meta ?p"
      using asm_lex_token_past [OF refl 4(1), of p0] by auto
    show ?thesis
      unfolding e using asm_past_trans2 [OF s(1) t(1)] t(2) s(2) by (simp add: asm_past_fwd)
  qed
qed

definition asm_parser_peek :: "AsmParser \<Rightarrow> AsmToken" where
  "asm_parser_peek p = fst (asm_lex_next p)"

definition asm_parser_next :: "AsmParser \<Rightarrow> AsmToken \<times> AsmParser" where
  "asm_parser_next p = asm_lex_next p"

abbreviation peek_type :: "AsmParser \<Rightarrow> AsmTokenType" where
  "peek_type p \<equiv> atk_type (asm_parser_peek p)"

definition asm_parser_match :: "AsmParser \<Rightarrow> AsmTokenType \<Rightarrow> bool \<times> AsmParser" where
  "asm_parser_match p ty = (if peek_type p = ty then (True, snd (asm_parser_next p)) else (False, p))"

definition asm_parser_error :: "AsmParser \<Rightarrow> string \<Rightarrow> AsmParser" where
  "asm_parser_error p msg = p\<lparr>ap_error_msg := take 255 msg, ap_has_error := True\<rparr>"

definition asm_parser_expect :: "AsmParser \<Rightarrow> AsmTokenType \<Rightarrow> string \<Rightarrow> bool \<times> AsmParser" where
  "asm_parser_expect p ty context =
     (let (tok, q) = asm_parser_next p
      in if atk_type tok \<noteq> ty then (False, asm_parser_error q (''expected token in '' @ context)) else (True, q))"

text \<open>What an operation of the parser may do to the cursor and the error flag.\<close>

definition asm_ok :: "AsmParser \<Rightarrow> AsmParser \<Rightarrow> bool" where
  "asm_ok p q \<longleftrightarrow> asm_fwd p q \<and> (ap_has_error p \<longrightarrow> ap_has_error q)"

lemma asm_ok_refl [simp]: "asm_ok p p" by (simp add: asm_ok_def)

lemma asm_ok_trans [trans]: "asm_ok p q \<Longrightarrow> asm_ok q r \<Longrightarrow> asm_ok p r"
  by (auto simp: asm_ok_def intro: asm_fwd_trans)

lemma asm_ok_next [progress_intros]: "asm_ok p (snd (asm_parser_next p))"
  using asm_lex_next_fwd [of p] by (simp add: asm_ok_def asm_parser_next_def asm_meta_def)

lemma asm_ok_match [progress_intros]: "asm_ok p (snd (asm_parser_match p ty))"
  by (simp add: asm_parser_match_def asm_ok_next)

lemma asm_ok_error [progress_intros]: "asm_ok p (asm_parser_error p msg)"
  by (simp add: asm_ok_def asm_fwd_def asm_parser_error_def)

lemma asm_ok_expect [progress_intros]: "asm_ok p (snd (asm_parser_expect p ty c))"
  by (auto simp: asm_parser_expect_def case_prod_beta Let_def asm_ok_next
      intro: asm_ok_trans [OF asm_ok_next asm_ok_error])

lemma asm_past_next: "peek_type p \<noteq> ASM_TOK_EOF \<Longrightarrow> asm_past p (snd (asm_parser_next p))"
  using asm_lex_next_fwd [of p] by (simp add: asm_parser_peek_def asm_parser_next_def)

lemma asm_past_match: "fst (asm_parser_match p ty) \<Longrightarrow> ty \<noteq> ASM_TOK_EOF \<Longrightarrow> asm_past p (snd (asm_parser_match p ty))"
  by (auto simp: asm_parser_match_def asm_past_next split: if_splits)

lemma asm_past_ok: "asm_past p q \<Longrightarrow> asm_ok q r \<Longrightarrow> asm_past p r"
  by (auto simp: asm_ok_def intro: asm_past_trans1)

lemma asm_past_measure: "asm_past p q \<Longrightarrow> length (ap_source q) - ap_pos q < length (ap_source p) - ap_pos p"
  by (auto simp: asm_past_def asm_fwd_def)


section \<open>Lexing does not look at the error state\<close>

lemma asm_error_simps [simp]:
  "asm_peek (asm_parser_error p m) = asm_peek p"
  "asm_advance (asm_parser_error p m) = asm_parser_error (asm_advance p) m"
  "ap_source (asm_parser_error p m) = ap_source p" "ap_pos (asm_parser_error p m) = ap_pos p"
  "asm_tok (asm_parser_error p0 m) ty (asm_parser_error p m) n v = asm_tok p0 ty p n v"
  "asm_between (asm_parser_error p m) (asm_parser_error q m) = asm_between p q"
  "ap_has_error (asm_parser_error p m)"
  by (simp_all add: asm_parser_error_def asm_peek_def asm_advance_def asm_tok_def asm_between_def Let_def)

lemma asm_skip_while_error [simp]:
  "asm_skip_while P (asm_parser_error p m) = asm_parser_error (asm_skip_while P p) m"
proof (induction P p rule: asm_skip_while.induct)
  case (1 P p)
  then show ?case
    by (cases "asm_peek p \<noteq> NUL \<and> P (asm_peek p)")
      (auto simp: asm_skip_while.simps [of P p] asm_skip_while.simps [of P "asm_parser_error p m"])
qed

lemma asm_string_loop_error [simp]:
  "asm_string_loop quote (asm_parser_error p m) n =
   (fst (asm_string_loop quote p n), asm_parser_error (snd (asm_string_loop quote p n)) m)"
proof (induction quote p n rule: asm_string_loop.induct)
  case (1 quote p n)
  show ?case
  proof (cases "asm_peek p \<noteq> NUL \<and> asm_peek p \<noteq> quote")
    case True
    then show ?thesis
      using 1 by (cases "asm_peek p = BSLASH"; cases "asm_peek (asm_advance p) = NUL")
        (simp_all add: asm_string_loop.simps [of quote p n] asm_string_loop.simps [of quote "asm_parser_error p m" n] Let_def)
  next
    case False
    then have "asm_string_loop quote p n = (n, p)"
      "asm_string_loop quote (asm_parser_error p m) n = (n, asm_parser_error p m)"
      by (auto simp: asm_string_loop.simps [of quote p n] asm_string_loop.simps [of quote "asm_parser_error p m" n])
    then show ?thesis by simp
  qed
qed

lemma asm_lex_token_error:
  "asm_lex_token (asm_parser_error p0 m) (asm_parser_error p m) c =
   (fst (asm_lex_token p0 p c), asm_parser_error (snd (asm_lex_token p0 p c)) m)"
  by (auto simp: asm_lex_token_def asm_lex_string_def asm_lex_number_def asm_lex_digits_def asm_lex_word_def
      Let_def case_prod_beta split: option.splits)

lemma asm_lex_next_error:
  "asm_lex_next (asm_parser_error p m) = (fst (asm_lex_next p), asm_parser_error (snd (asm_lex_next p)) m)"
proof (induction p rule: asm_lex_next.induct)
  case (1 p)
  then show ?case
    by (cases "asm_peek (asm_skip_space p) = CHR '';''")
      (simp_all add: asm_lex_next.simps [of p] asm_lex_next.simps [of "asm_parser_error p m"] Let_def
        asm_skip_space_def asm_skip_to_eol_def asm_lex_token_error)
qed

lemma asm_parser_peek_error [simp]: "asm_parser_peek (asm_parser_error p m) = asm_parser_peek p"
  by (simp add: asm_parser_peek_def asm_lex_next_error)

end
