(* ===== verification/AsmParse.thy ===== *)
theory AsmParse
  imports AsmLexer
begin

text \<open>
  The parser of the assembler (second half of \<open>src/asm_parser.c\<close>): memory operands, operands, data
  values, instructions, directives, labels and the loop over a block.  An operation answers the
  parser after it, its return code as a boolean, and what it wrote to its result argument.  The
  operand a caller passes in uninitialised is the parameter \<open>G\<close>; \<open>asm_parse_operand\<close> takes the
  operand as the caller holds it, since one branch fills only its memory part.
\<close>

section \<open>Memory operands\<close>

text \<open>\<open>(int)tok.int_value\<close>.\<close>

definition to_int32 :: "64 word \<Rightarrow> int" where
  "to_int32 w = sint (ucast w :: 32 word)"

text \<open>The part after base and sign: an index with an optional scale and displacement.\<close>

definition asm_mem_scale :: "AsmMem \<Rightarrow> AsmParser \<Rightarrow> AsmMem \<times> AsmParser" where
  "asm_mem_scale mem p =
     (if peek_type p = ASM_TOK_STAR then
        let p1 = snd (asm_parser_next p); (tok, p2) = asm_parser_next p1
        in (if atk_type tok = ASM_TOK_NUMBER then mem\<lparr>mem_scale := to_int32 (atk_int tok)\<rparr> else mem, p2)
      else (mem, p))"

definition asm_mem_index_disp :: "AsmMem \<Rightarrow> AsmParser \<Rightarrow> AsmMem \<times> AsmParser" where
  "asm_mem_index_disp mem p =
     (let ty = peek_type p in
      if ty = ASM_TOK_PLUS \<or> ty = ASM_TOK_MINUS then
        let p1 = snd (asm_parser_next p); (tok, p2) = asm_parser_next p1
        in (if atk_type tok = ASM_TOK_NUMBER then
              mem\<lparr>mem_displacement := (if ty = ASM_TOK_MINUS then - atk_int tok else atk_int tok),
                  mem_mode := ASM_ADDR_BASE_INDEX_DISP\<rparr>
            else mem, p2)
      else (mem, p))"

definition asm_mem_tail :: "AsmMem \<Rightarrow> AsmParser \<Rightarrow> AsmMem \<times> AsmParser" where
  "asm_mem_tail mem p =
     (let ty = peek_type p in
      if ty = ASM_TOK_PLUS \<or> ty = ASM_TOK_MINUS then
        let p1 = snd (asm_parser_next p); tok = asm_parser_peek p1
        in if atk_type tok = ASM_TOK_REGISTER then
             let p2 = snd (asm_parser_next p1);
                 m1 = mem\<lparr>mem_index := reg_from_tok p tok, mem_mode := ASM_ADDR_BASE_INDEX\<rparr>;
                 (m2, p3) = asm_mem_scale m1 p2
             in asm_mem_index_disp m2 p3
           else if atk_type tok = ASM_TOK_NUMBER then
             (mem\<lparr>mem_displacement := (if ty = ASM_TOK_MINUS then - atk_int tok else atk_int tok),
                  mem_mode := ASM_ADDR_BASE_DISP\<rparr>, snd (asm_parser_next p1))
           else (mem, p1)
      else (mem, p))"

definition asm_expect_close :: "AsmParser \<Rightarrow> AsmParser" where
  "asm_expect_close p = snd (asm_parser_expect p ASM_TOK_RBRACKET ''memory operand'')"

definition asm_parse_mem :: "AsmParser \<Rightarrow> bool \<times> AsmMem \<times> AsmParser" where
  "asm_parse_mem p0 =
     (let mem = asm_mem_init; (open_ok, p) = asm_parser_match p0 ASM_TOK_LBRACKET in
      if \<not> open_ok then (False, mem, asm_parser_error p (''expected '' @ [SQUOTE, CHR ''['', SQUOTE] @ '' for memory operand''))
      else
        let tok = asm_parser_peek p in
        if atk_type tok = ASM_TOK_IDENT \<and> tok_text p tok = ''rel'' then
          let p1 = snd (asm_parser_next p); (tok2, p2) = asm_parser_next p1;
              m = (if atk_type tok2 = ASM_TOK_IDENT \<or> atk_type tok2 = ASM_TOK_REGISTER then
                     mem\<lparr>mem_mode := ASM_ADDR_RIP_REL, mem_label := tok_copy ASM_MAX_LABEL_LEN p tok2\<rparr>
                   else mem)
          in (True, m, asm_expect_close p2)
        else if atk_type tok = ASM_TOK_REGISTER then
          let p1 = snd (asm_parser_next p);
              m = mem\<lparr>mem_base := reg_from_tok p tok, mem_mode := ASM_ADDR_BASE\<rparr>;
              (m1, p2) = asm_mem_tail m p1
          in (True, m1, asm_expect_close p2)
        else if atk_type tok = ASM_TOK_IDENT then
          (True, mem\<lparr>mem_mode := ASM_ADDR_DIRECT, mem_label := tok_copy ASM_MAX_LABEL_LEN p tok\<rparr>,
           asm_expect_close (snd (asm_parser_next p)))
        else if atk_type tok = ASM_TOK_NUMBER then
          (True, mem\<lparr>mem_mode := ASM_ADDR_DIRECT, mem_displacement := atk_int tok\<rparr>,
           asm_expect_close (snd (asm_parser_next p)))
        else (False, mem, asm_parser_error p ''expected register or label in memory operand''))"

section \<open>Operands\<close>

definition asm_parse_operand :: "AsmOperand \<Rightarrow> AsmParser \<Rightarrow> bool \<times> AsmOperand \<times> AsmParser" where
  "asm_parse_operand op p =
     (let tok = asm_parser_peek p; ty = atk_type tok; p1 = snd (asm_parser_next p) in
      if ty = ASM_TOK_SIZE_SPEC then
        let (ok, mem, p2) = asm_parse_mem p1 in (ok, op\<lparr>op_mem := mem\<rparr>, p2)
      else if ty = ASM_TOK_REGISTER then (True, asm_op_reg (reg_from_tok p tok), p1)
      else if ty = ASM_TOK_LBRACKET then
        let (ok, mem, p2) = asm_parse_mem p in (ok, if ok then asm_op_mem mem else op, p2)
      else if ty = ASM_TOK_NUMBER then (True, asm_op_imm (atk_int tok), p1)
      else if ty = ASM_TOK_STRING then (True, asm_op_expr (drop (atk_start tok) (ap_source p)), p1)
      else if ty = ASM_TOK_IDENT then (True, asm_op_label (tok_copy ASM_MAX_LABEL_LEN p tok), p1)
      else if ty = ASM_TOK_DOLLAR then (True, asm_op_imm 0, p1)
      else (False, op, asm_parser_error p ''expected operand''))"

text \<open>The loop over data values: at most \<open>k\<close> more of them.\<close>

primrec asm_data_loop :: "AsmOperand \<Rightarrow> nat \<Rightarrow> AsmParser \<Rightarrow> bool \<times> AsmOperand list \<times> AsmParser" where
  "asm_data_loop G 0 p = (True, [], p)"
| "asm_data_loop G (Suc k) p =
     (let (ok, op, p1) = asm_parse_operand G p in
      if \<not> ok then (False, [], p1)
      else let (comma, p2) = asm_parser_match p1 ASM_TOK_COMMA in
        if \<not> comma then (True, [op], p2)
        else let (ok2, ops, p3) = asm_data_loop G k p2 in (ok2, op # ops, p3))"

definition asm_parse_data_values :: "AsmOperand \<Rightarrow> AsmParser \<Rightarrow> nat \<Rightarrow> bool \<times> AsmOperand list \<times> AsmParser" where
  "asm_parse_data_values G p limit = asm_data_loop G limit p"

section \<open>Progress of the operand parsers\<close>

lemma asm_ok_scale: "asm_ok p (snd (asm_mem_scale m p))"
  by (auto simp: asm_mem_scale_def Let_def case_prod_beta intro: asm_ok_trans [OF asm_ok_next asm_ok_next])

lemma asm_ok_index_disp: "asm_ok p (snd (asm_mem_index_disp m p))"
  by (auto simp: asm_mem_index_disp_def Let_def case_prod_beta intro: asm_ok_trans [OF asm_ok_next asm_ok_next])

lemma asm_ok_tail: "asm_ok p (snd (asm_mem_tail m p))"
proof -
  have "asm_ok p (snd (asm_mem_index_disp m2 (snd (asm_mem_scale m1 (snd (asm_parser_next (snd (asm_parser_next p))))))))" for m1 m2
    by (rule asm_ok_trans [OF asm_ok_next asm_ok_trans [OF asm_ok_next asm_ok_trans [OF asm_ok_scale asm_ok_index_disp]]])
  then show ?thesis
    by (auto simp: asm_mem_tail_def Let_def case_prod_beta asm_ok_next intro: asm_ok_trans [OF asm_ok_next asm_ok_next])
qed

lemma asm_ok_close: "asm_ok p (asm_expect_close p)"
  by (simp add: asm_expect_close_def asm_ok_expect)

lemma asm_ok_mem: "asm_ok p (snd (snd (asm_parse_mem p)))"
proof -
  let ?q = "snd (asm_parser_match p ASM_TOK_LBRACKET)"
  have q: "asm_ok p ?q" by (rule asm_ok_match)
  have n: "asm_ok ?q (snd (asm_parser_next ?q))" by (rule asm_ok_next)
  have "asm_ok ?q (asm_expect_close (snd (asm_parser_next ?q)))"
    by (rule asm_ok_trans [OF n asm_ok_close])
  moreover have "asm_ok ?q (asm_expect_close (snd (asm_parser_next (snd (asm_parser_next ?q)))))"
    by (rule asm_ok_trans [OF n asm_ok_trans [OF asm_ok_next asm_ok_close]])
  moreover have "asm_ok ?q (asm_expect_close (snd (asm_mem_tail m (snd (asm_parser_next ?q)))))" for m
    by (rule asm_ok_trans [OF n asm_ok_trans [OF asm_ok_tail asm_ok_close]])
  ultimately have "asm_ok ?q (snd (snd (asm_parse_mem p)))"
    by (auto simp: asm_parse_mem_def Let_def case_prod_beta asm_ok_error)
  with q show ?thesis by (rule asm_ok_trans)
qed

lemma asm_ok_operand: "asm_ok p (snd (snd (asm_parse_operand op p)))"
  by (auto simp: asm_parse_operand_def Let_def case_prod_beta asm_ok_next asm_ok_mem asm_ok_error
      intro: asm_ok_trans [OF asm_ok_next asm_ok_mem])

lemma asm_ok_data: "asm_ok p (snd (snd (asm_data_loop G k p)))"
proof (induction k arbitrary: p)
  case (Suc k)
  let ?p1 = "snd (snd (asm_parse_operand G p))"
  let ?p2 = "snd (asm_parser_match ?p1 ASM_TOK_COMMA)"
  have 1: "asm_ok p ?p1" by (rule asm_ok_operand)
  have 2: "asm_ok p ?p2" by (rule asm_ok_trans [OF 1 asm_ok_match])
  have "asm_ok p (snd (snd (asm_data_loop G k ?p2)))" by (rule asm_ok_trans [OF 2 Suc.IH])
  with 1 2 show ?case by (auto simp: Let_def case_prod_beta)
qed simp

section \<open>Instructions\<close>

function asm_prefix_loop :: "bool \<Rightarrow> bool \<Rightarrow> AsmParser \<Rightarrow> bool \<times> bool \<times> AsmParser" where
  "asm_prefix_loop lock rep p =
     (if peek_type p = ASM_TOK_PREFIX then
        if tok_text p (asm_parser_peek p) = ''lock'' then asm_prefix_loop True rep (snd (asm_parser_next p))
        else asm_prefix_loop lock True (snd (asm_parser_next p))
      else (lock, rep, p))"
  by pat_completeness auto
termination
  by (relation "measure (\<lambda>(l, r, p). length (ap_source p) - ap_pos p)")
    (auto intro!: asm_past_measure asm_past_next)

declare asm_prefix_loop.simps [simp del]

text \<open>\<open>while (asm_parser_match(parser, ASM_TOK_COMMA))\<close>: the operands after the first.\<close>

function asm_operand_loop :: "AsmOperand \<Rightarrow> AsmInstruction \<Rightarrow> AsmParser \<Rightarrow> AsmInstruction option \<times> AsmParser" where
  "asm_operand_loop op instr p =
     (if peek_type p = ASM_TOK_COMMA then
        let p1 = snd (asm_parser_match p ASM_TOK_COMMA); (ok, op1, p2) = asm_parse_operand op p1
        in if \<not> ok then (None, p2) else asm_operand_loop op1 (asm_instr_add_operand instr op1) p2
      else (Some instr, snd (asm_parser_match p ASM_TOK_COMMA)))"
  by pat_completeness auto
termination
proof (relation "measure (\<lambda>(op, i, p). length (ap_source p) - ap_pos p)", goal_cases)
  case (2 op instr p p1 x ok y op1 p2)
  have "asm_past p p1"
    using 2 by (simp add: asm_past_match asm_parser_match_def asm_past_next)
  moreover have "asm_ok p1 p2"
    using asm_ok_operand [of p1 op] 2 by (metis snd_conv)
  ultimately show ?case by (auto intro: asm_past_measure asm_past_ok)
qed simp

declare asm_operand_loop.simps [simp del]

definition size_spec_of :: "string \<Rightarrow> AsmSizeSpec \<Rightarrow> AsmSizeSpec" where
  "size_spec_of s d =
     (if s = ''byte'' then ASM_SIZE_BYTE else if s = ''word'' then ASM_SIZE_WORD
      else if s = ''dword'' then ASM_SIZE_DWORD else if s = ''qword'' then ASM_SIZE_QWORD
      else if s = ''oword'' then ASM_SIZE_OWORD else if s = ''twor'' then ASM_SIZE_TWORD else d)"

definition asm_parse_instruction :: "AsmOperand \<Rightarrow> AsmParser \<Rightarrow> AsmInstruction option \<times> AsmParser" where
  "asm_parse_instruction G p0 =
     (let (lock, rep, p) = asm_prefix_loop False False p0; tok = asm_parser_peek p in
      if atk_type tok \<noteq> ASM_TOK_IDENT then (None, asm_parser_error p ''expected instruction mnemonic'')
      else
        let p1 = snd (asm_parser_next p);
            i0 = (asm_instr_init (tok_copy ASM_MAX_MNEMONIC_LEN p tok))
                   \<lparr>ins_is_lock_prefix := lock, ins_is_rep_prefix := rep\<rparr>;
            tok2 = asm_parser_peek p1;
            (i1, p2) = (if atk_type tok2 = ASM_TOK_SIZE_SPEC then
                (i0\<lparr>ins_has_size_spec := True, ins_size_spec := size_spec_of (tok_text p1 tok2) ASM_SIZE_NONE\<rparr>,
                 snd (asm_parser_next p1))
              else (i0, p1))
        in if peek_type p2 \<noteq> ASM_TOK_NEWLINE \<and> peek_type p2 \<noteq> ASM_TOK_EOF \<and> peek_type p2 \<noteq> ASM_TOK_COLON then
             let (ok, op, p3) = asm_parse_operand G p2
             in if \<not> ok then (None, p3) else asm_operand_loop op (asm_instr_add_operand i1 op) p3
           else (Some i1, p2))"

section \<open>Directives\<close>

definition dir_zero :: AsmDirective where
  "dir_zero = \<lparr>dir_type = ASM_DIR_NONE, dir_name = [], dir_value = 0, dir_value2 = 0, dir_data = []\<rparr>"

text \<open>The three kinds of arguments: a name, a number, data values.\<close>

definition dir_with_name :: "AsmDirectiveType \<Rightarrow> AsmTokenType list \<Rightarrow> AsmDirective \<Rightarrow> AsmParser \<Rightarrow> AsmDirective \<times> AsmParser" where
  "dir_with_name ty tys d p =
     (let (tok, q) = asm_parser_next p; d1 = d\<lparr>dir_type := ty\<rparr>
      in (if List.member tys (atk_type tok) then d1\<lparr>dir_name := tok_copy ASM_MAX_LABEL_LEN p tok\<rparr> else d1, q))"

definition dir_with_number :: "AsmDirectiveType \<Rightarrow> AsmDirective \<Rightarrow> AsmParser \<Rightarrow> AsmDirective \<times> AsmParser" where
  "dir_with_number ty d p =
     (let (tok, q) = asm_parser_next p; d1 = d\<lparr>dir_type := ty\<rparr>
      in (if atk_type tok = ASM_TOK_NUMBER then d1\<lparr>dir_value := atk_int tok\<rparr> else d1, q))"

definition dir_with_data :: "AsmOperand \<Rightarrow> AsmDirectiveType \<Rightarrow> AsmDirective \<Rightarrow> AsmParser \<Rightarrow> AsmDirective \<times> AsmParser" where
  "dir_with_data G ty d p =
     (let (ok, ops, q) = asm_parse_data_values G p ASM_MAX_OPERANDS
      in (d\<lparr>dir_type := ty, dir_data := ops\<rparr>, q))"

definition asm_parse_directive :: "AsmOperand \<Rightarrow> AsmParser \<Rightarrow> bool \<times> AsmDirective \<times> AsmParser" where
  "asm_parse_directive G p =
     (let (tok, p1) = asm_parser_next p in
      if atk_type tok \<noteq> ASM_TOK_DIRECTIVE then (False, dir_zero, asm_parser_error p1 ''expected directive'')
      else
        let d = dir_zero\<lparr>dir_name := tok_copy ASM_MAX_LABEL_LEN p tok\<rparr>; w = tok_text p tok;
            (d1, p2) =
              (if w = ''section'' then dir_with_name ASM_DIR_SECTION [ASM_TOK_IDENT, ASM_TOK_STRING] d p1
               else if w = ''global'' then dir_with_name ASM_DIR_GLOBAL [ASM_TOK_IDENT] d p1
               else if w = ''extern'' then dir_with_name ASM_DIR_EXTERN [ASM_TOK_IDENT] d p1
               else if w = ''align'' then dir_with_number ASM_DIR_ALIGN d p1
               else if w = ''org'' then dir_with_number ASM_DIR_ORG d p1
               else if w = ''bits'' then dir_with_number ASM_DIR_BITS d p1
               else if w = ''times'' then dir_with_number ASM_DIR_TIMES d p1
               else if w = ''db'' then dir_with_data G ASM_DIR_DB d p1
               else if w = ''dw'' then dir_with_data G ASM_DIR_DW d p1
               else if w = ''dd'' then dir_with_data G ASM_DIR_DD d p1
               else if w = ''dq'' then dir_with_data G ASM_DIR_DQ d p1
               else if w = ''resb'' then dir_with_number ASM_DIR_RESB d p1
               else if w = ''resw'' then dir_with_number ASM_DIR_RESW d p1
               else if w = ''resd'' then dir_with_number ASM_DIR_RESD d p1
               else if w = ''resq'' then dir_with_number ASM_DIR_RESQ d p1
               else if w = ''incbin'' then dir_with_name ASM_DIR_INCBIN [ASM_TOK_STRING] d p1
               else if w = ''equ'' then dir_with_number ASM_DIR_EQU d p1
               else (d, p1))
        in (True, d1, p2))"

section \<open>Labels and blocks\<close>

definition asm_parse_label :: "AsmParser \<Rightarrow> AsmLabel option \<times> AsmParser" where
  "asm_parse_label p =
     (let tok = asm_parser_peek p in
      if atk_type tok \<noteq> ASM_TOK_IDENT then (None, p)
      else let p1 = snd (asm_parser_next p) in
        if peek_type p1 = ASM_TOK_COLON then
          (Some \<lparr>lab_name = tok_copy ASM_MAX_LABEL_LEN p tok, lab_is_global = False,
                 lab_is_local = (asm_peek (p\<lparr>ap_pos := atk_start tok\<rparr>) = CHR ''.'')\<rparr>,
           snd (asm_parser_next p1))
        else (None, p1\<lparr>ap_pos := ap_pos p, ap_line := ap_line p, ap_col := ap_col p\<rparr>))"

text \<open>The loop that drops the rest of a line.\<close>

function asm_skip_line :: "AsmParser \<Rightarrow> AsmParser" where
  "asm_skip_line p =
     (if peek_type p \<noteq> ASM_TOK_NEWLINE \<and> peek_type p \<noteq> ASM_TOK_EOF
      then asm_skip_line (snd (asm_parser_next p)) else p)"
  by pat_completeness auto
termination
  by (relation "measure (\<lambda>p. length (ap_source p) - ap_pos p)")
    (auto intro!: asm_past_measure asm_past_next)

declare asm_skip_line.simps [simp del]

definition block_add :: "(nat \<Rightarrow> bool) \<Rightarrow> AsmIRBlock \<Rightarrow> AsmElement option \<Rightarrow> AsmIRBlock" where
  "block_add granted b e = (case e of None \<Rightarrow> b | Some x \<Rightarrow> snd (asm_block_add granted b x))"

text \<open>
  One round of the loop at a token that is no end of input: the element it adds, if any, and the
  parser after it.
\<close>

definition asm_block_step :: "AsmOperand \<Rightarrow> AsmParser \<Rightarrow> AsmElement option \<times> AsmParser" where
  "asm_block_step G p =
     (let tok = asm_parser_peek p; ty = atk_type tok in
      if ty = ASM_TOK_NEWLINE then (None, snd (asm_parser_next p))
      else case asm_parse_label p of
        (Some l, q) \<Rightarrow> (Some (ElemLabel l), q)
      | (None, q) \<Rightarrow>
          if ty = ASM_TOK_DIRECTIVE then
            let (ok, d, q1) = asm_parse_directive G q
            in (if ok then Some (ElemDirective d) else None, asm_skip_line q1)
          else if ty = ASM_TOK_LBRACKET \<and> peek_type q = ASM_TOK_DIRECTIVE then
            let (ok, d, q1) = asm_parse_directive G (snd (asm_parser_next q))
            in (if ok then Some (ElemDirective d) else None,
                snd (asm_parser_expect q1 ASM_TOK_RBRACKET ''bracket directive''))
          else if ty = ASM_TOK_IDENT \<or> ty = ASM_TOK_PREFIX \<or> ty = ASM_TOK_LBRACKET then
            let (i, q1) = asm_parse_instruction G q
            in (map_option ElemInstruction i, asm_skip_line q1)
          else (None, snd (asm_parser_next q)))"

section \<open>Progress of the block loop\<close>

lemma asm_restore:
  "ap_source q = ap_source p \<Longrightarrow> asm_meta q = asm_meta p \<Longrightarrow>
   q\<lparr>ap_pos := ap_pos p, ap_line := ap_line p, ap_col := ap_col p\<rparr> = p"
  by (cases p; cases q) (simp add: asm_meta_def)

lemma asm_next_frame:
  "ap_source (snd (asm_parser_next p)) = ap_source p" "asm_meta (snd (asm_parser_next p)) = asm_meta p"
  using asm_lex_next_fwd [of p] by (auto simp: asm_parser_next_def asm_fwd_def)

lemma asm_parse_label_cases:
  obtains (label) l where "asm_parse_label p = (Some l, snd (asm_parser_next (snd (asm_parser_next p))))"
      "peek_type p = ASM_TOK_IDENT" "peek_type (snd (asm_parser_next p)) = ASM_TOK_COLON"
  | (none) "asm_parse_label p = (None, p)"
proof (cases "peek_type p = ASM_TOK_IDENT \<and> peek_type (snd (asm_parser_next p)) = ASM_TOK_COLON")
  case True
  then show ?thesis using label by (simp add: asm_parse_label_def Let_def)
next
  case False
  then have "asm_parse_label p = (None, p)"
    using asm_restore [OF asm_next_frame] by (auto simp: asm_parse_label_def Let_def)
  then show ?thesis by (rule none)
qed

lemma asm_ok_prefix: "asm_ok p (snd (snd (asm_prefix_loop l r p)))"
proof (induction l r p rule: asm_prefix_loop.induct)
  case (1 l r p)
  show ?case
  proof (cases "peek_type p = ASM_TOK_PREFIX")
    case True
    then show ?thesis using 1 asm_ok_trans [OF asm_ok_next]
      by (auto simp: asm_prefix_loop.simps [of l r p])
  qed (simp add: asm_prefix_loop.simps [of l r p])
qed

lemma asm_ok_operands: "asm_ok p (snd (asm_operand_loop op i p))"
proof (induction op i p rule: asm_operand_loop.induct)
  case (1 op i p)
  let ?p1 = "snd (asm_parser_match p ASM_TOK_COMMA)"
  let ?r = "asm_parse_operand op ?p1"
  have p2: "asm_ok p (snd (snd ?r))" by (rule asm_ok_trans [OF asm_ok_match asm_ok_operand])
  show ?case
  proof (cases "peek_type p = ASM_TOK_COMMA \<and> fst ?r")
    case True
    then have "asm_ok (snd (snd ?r)) (snd (asm_operand_loop (fst (snd ?r)) (asm_instr_add_operand i (fst (snd ?r))) (snd (snd ?r))))"
      using 1 [OF _ refl refl prod.collapse prod.collapse] by auto
    with p2 have "asm_ok p (snd (asm_operand_loop (fst (snd ?r)) (asm_instr_add_operand i (fst (snd ?r))) (snd (snd ?r))))"
      by (rule asm_ok_trans)
    then show ?thesis using True by (simp add: asm_operand_loop.simps [of op i p] Let_def case_prod_beta)
  next
    case False
    then show ?thesis using p2 by (auto simp: asm_operand_loop.simps [of op i p] Let_def case_prod_beta asm_ok_match)
  qed
qed

lemma asm_ok_instruction: "asm_ok p (snd (asm_parse_instruction G p))"
proof -
  let ?p = "snd (snd (asm_prefix_loop False False p))"
  let ?p1 = "snd (asm_parser_next ?p)"
  have 0: "asm_ok p ?p" by (rule asm_ok_prefix)
  have 1: "asm_ok p ?p1" by (rule asm_ok_trans [OF 0 asm_ok_next])
  have 2: "asm_ok p (snd (asm_parser_next ?p1))" by (rule asm_ok_trans [OF 1 asm_ok_next])
  have 3: "asm_ok p (snd (snd (asm_parse_operand G q)))" if "asm_ok p q" for q
    by (rule asm_ok_trans [OF that asm_ok_operand])
  have 4: "asm_ok p (snd (asm_operand_loop op i q))" if "asm_ok p q" for op i q
    by (rule asm_ok_trans [OF that asm_ok_operands])
  show ?thesis
    using 0 1 2 3 [OF 1] 3 [OF 2] 4 [OF 3 [OF 1]] 4 [OF 3 [OF 2]] asm_ok_trans [OF 0 asm_ok_error]
    by (auto simp: asm_parse_instruction_def Let_def case_prod_beta)
qed

lemma asm_ok_directive: "asm_ok (snd (asm_parser_next p)) (snd (snd (asm_parse_directive G p)))"
proof -
  have n: "asm_ok q (snd (dir_with_name ty tys d q))" for q ty tys d
    by (simp add: dir_with_name_def Let_def case_prod_beta asm_ok_next)
  have v: "asm_ok q (snd (dir_with_number ty d q))" for q ty d
    by (simp add: dir_with_number_def Let_def case_prod_beta asm_ok_next)
  have w: "asm_ok q (snd (dir_with_data G ty d q))" for q ty d
    by (simp add: dir_with_data_def asm_parse_data_values_def Let_def case_prod_beta asm_ok_data)
  show ?thesis
    by (simp add: asm_parse_directive_def Let_def case_prod_beta asm_ok_error n v w)
qed

lemma asm_ok_skip_line: "asm_ok p (asm_skip_line p)"
proof (induction p rule: asm_skip_line.induct)
  case (1 p)
  then show ?case
    by (cases "peek_type p \<noteq> ASM_TOK_NEWLINE \<and> peek_type p \<noteq> ASM_TOK_EOF")
      (auto simp: asm_skip_line.simps [of p] intro: asm_ok_trans [OF asm_ok_next])
qed

lemma asm_skip_line_stop:
  "peek_type (asm_skip_line p) = ASM_TOK_NEWLINE \<or> peek_type (asm_skip_line p) = ASM_TOK_EOF"
proof (induction p rule: asm_skip_line.induct)
  case (1 p)
  then show ?case
    by (cases "peek_type p \<noteq> ASM_TOK_NEWLINE \<and> peek_type p \<noteq> ASM_TOK_EOF")
      (auto simp: asm_skip_line.simps [of p])
qed

lemma asm_past_prefix:
  "peek_type p = ASM_TOK_PREFIX \<Longrightarrow> asm_past p (snd (snd (asm_prefix_loop l r p)))"
  using asm_past_next [of p] asm_past_ok [OF _ asm_ok_prefix]
  by (auto simp: asm_prefix_loop.simps [of l r p])

text \<open>An instruction consumes something or fails where it stands.\<close>

lemma asm_instruction_moves:
  "asm_past p (snd (asm_parse_instruction G p)) \<or>
   (peek_type p \<noteq> ASM_TOK_IDENT \<and> peek_type p \<noteq> ASM_TOK_PREFIX \<and>
    asm_parse_instruction G p = (None, asm_parser_error p ''expected instruction mnemonic''))"
proof (cases "peek_type p = ASM_TOK_PREFIX")
  case True
  define q where "q = snd (snd (asm_prefix_loop False False p))"
  have q: "asm_past p q" unfolding q_def by (rule asm_past_prefix [OF True])
  let ?p1 = "snd (asm_parser_next q)"
  have ok: "asm_ok q ?p1" "asm_ok q (snd (asm_parser_next ?p1))"
    by (rule asm_ok_next, rule asm_ok_trans [OF asm_ok_next asm_ok_next])
  have "asm_ok q (snd (asm_parse_instruction G p))"
    using ok asm_ok_trans [OF ok(1) asm_ok_operand] asm_ok_trans [OF ok(2) asm_ok_operand]
      asm_ok_trans [OF asm_ok_trans [OF ok(1) asm_ok_operand] asm_ok_operands]
      asm_ok_trans [OF asm_ok_trans [OF ok(2) asm_ok_operand] asm_ok_operands] asm_ok_error
    by (auto simp: asm_parse_instruction_def Let_def case_prod_beta simp flip: q_def)
  then show ?thesis using asm_past_ok [OF q] by blast
next
  case False
  then have pre: "asm_prefix_loop False False p = (False, False, p)"
    by (simp add: asm_prefix_loop.simps [of False False p])
  show ?thesis
  proof (cases "peek_type p = ASM_TOK_IDENT")
    case True
    let ?p1 = "snd (asm_parser_next p)"
    have p1: "asm_past p ?p1" using True by (simp add: asm_past_next)
    have ok: "asm_ok ?p1 ?p1" "asm_ok ?p1 (snd (asm_parser_next ?p1))" by (simp_all add: asm_ok_next)
    have "asm_ok ?p1 (snd (asm_parse_instruction G p))"
      using True ok asm_ok_trans [OF ok(1) asm_ok_operand] asm_ok_trans [OF ok(2) asm_ok_operand]
        asm_ok_trans [OF asm_ok_trans [OF ok(1) asm_ok_operand] asm_ok_operands]
        asm_ok_trans [OF asm_ok_trans [OF ok(2) asm_ok_operand] asm_ok_operands]
      by (auto simp: asm_parse_instruction_def Let_def case_prod_beta pre)
    then show ?thesis using asm_past_ok [OF p1] by blast
  next
    case no: False
    then show ?thesis using False by (simp add: asm_parse_instruction_def pre Let_def)
  qed
qed

lemma asm_past_skip_line:
  "peek_type p \<noteq> ASM_TOK_NEWLINE \<Longrightarrow> peek_type p \<noteq> ASM_TOK_EOF \<Longrightarrow> asm_past p (asm_skip_line p)"
  using asm_past_ok [OF asm_past_next asm_ok_skip_line] by (simp add: asm_skip_line.simps [of p])

lemma asm_past_error: "asm_past (asm_parser_error p m) q \<Longrightarrow> asm_past p q"
  by (simp add: asm_past_def asm_fwd_def)

text \<open>Every round of the loop over a block consumes something.\<close>

lemma asm_block_step_past:
  assumes "peek_type p \<noteq> ASM_TOK_EOF"
  shows "asm_past p (snd (asm_block_step G p))"
proof -
  have nx: "asm_past p (snd (asm_parser_next p))" using assms by (rule asm_past_next)
  show ?thesis
  proof (cases "peek_type p = ASM_TOK_NEWLINE")
    case True
    then show ?thesis using nx by (simp add: asm_block_step_def Let_def)
  next
    case False
    show ?thesis
    proof (cases p rule: asm_parse_label_cases)
      case (label l)
      have "asm_past p (snd (asm_parser_next (snd (asm_parser_next p))))"
        by (rule asm_past_ok [OF nx asm_ok_next])
      then show ?thesis using label False by (simp add: asm_block_step_def Let_def)
    next
      case none
      have dir: "asm_past p (snd (snd (asm_parse_directive G p)))"
        by (rule asm_past_ok [OF nx asm_ok_directive])
      have dir2: "asm_past p (snd (snd (asm_parse_directive G (snd (asm_parser_next p)))))"
        by (rule asm_past_ok [OF nx asm_ok_trans [OF asm_ok_next asm_ok_directive]])
      have ins: "asm_past p (asm_skip_line (snd (asm_parse_instruction G p)))"
        using asm_instruction_moves [of p G]
      proof
        assume "asm_past p (snd (asm_parse_instruction G p))"
        then show ?thesis by (rule asm_past_ok) (rule asm_ok_skip_line)
      next
        assume "peek_type p \<noteq> ASM_TOK_IDENT \<and> peek_type p \<noteq> ASM_TOK_PREFIX \<and>
          asm_parse_instruction G p = (None, asm_parser_error p ''expected instruction mnemonic'')"
        then show ?thesis
          using asm_past_skip_line [of "asm_parser_error p ''expected instruction mnemonic''"] assms False
          by (auto intro: asm_past_error)
      qed
      show ?thesis
        using none False nx ins asm_past_ok [OF dir asm_ok_skip_line] asm_past_ok [OF dir2 asm_ok_expect]
        by (auto simp: asm_block_step_def Let_def case_prod_beta)
    qed
  qed
qed

function asm_block_loop :: "AsmOperand \<Rightarrow> (nat \<Rightarrow> bool) \<Rightarrow> AsmIRBlock \<Rightarrow> AsmParser \<Rightarrow> AsmIRBlock \<times> AsmParser" where
  "asm_block_loop G granted b p =
     (if peek_type p = ASM_TOK_EOF then (b, p)
      else let (e, q) = asm_block_step G p in asm_block_loop G granted (block_add granted b e) q)"
  by pat_completeness auto
termination
proof (relation "measure (\<lambda>(G, g, b, p). length (ap_source p) - ap_pos p)", goal_cases)
  case (2 G granted b p x e q)
  then have "asm_past p q" using asm_block_step_past [of p G] by (metis snd_conv)
  then show ?case by (auto intro: asm_past_measure)
qed simp

declare asm_block_loop.simps [simp del]

definition asm_parse_block :: "AsmOperand \<Rightarrow> (nat \<Rightarrow> bool) \<Rightarrow> AsmParser \<Rightarrow> bool \<times> AsmIRBlock \<times> AsmParser" where
  "asm_parse_block G granted p =
     (let (b, q) = asm_block_loop G granted asm_block_init p in (\<not> ap_has_error q, b, q))"

text \<open>\<open>asm_parse_string\<close> parses the bytes before the terminating NUL.\<close>

definition asm_parse_string :: "AsmOperand \<Rightarrow> (nat \<Rightarrow> bool) \<Rightarrow> string \<Rightarrow> string \<Rightarrow> bool \<times> AsmIRBlock" where
  "asm_parse_string G granted source filename =
     (let (ok, b, q) = asm_parse_block G granted (asm_parser_init (takeWhile (\<lambda>c. c \<noteq> NUL) source) filename)
      in (ok, b))"

end
