(* ===== verification/AsmLexing.thy ===== *)
theory AsmLexing
  imports AsmParse
begin

text \<open>
  The lexer of the assembler read as a reader of text: what \<open>asm_lex_next\<close> answers when the bytes
  from the cursor on are known.  These lemmas carry the round trip through the x86 backend.
\<close>

section \<open>The text at the cursor\<close>

definition at :: "AsmParser \<Rightarrow> string \<Rightarrow> bool" where
  "at p s \<longleftrightarrow> ap_pos p + length s = length (ap_source p) \<and> drop (ap_pos p) (ap_source p) = s \<and> NUL \<notin> set s"

text \<open>Reading goes on in the same source without touching the error state.\<close>

definition reads :: "AsmParser \<Rightarrow> string \<Rightarrow> AsmParser \<Rightarrow> bool" where
  "reads p s q \<longleftrightarrow> at q s \<and> ap_source q = ap_source p \<and> asm_meta q = asm_meta p"

lemma reads_at: "reads p s q \<Longrightarrow> at q s"
  by (simp add: reads_def)

lemma reads_trans: "reads p s q \<Longrightarrow> reads q t r \<Longrightarrow> reads p t r"
  by (simp add: reads_def)

lemma reads_self: "at p s \<Longrightarrow> reads p s p"
  by (simp add: reads_def)

lemma at_peek: "at p (c # s) \<Longrightarrow> asm_peek p = c" "at p [] \<Longrightarrow> asm_peek p = NUL"
  by (auto simp: at_def asm_peek_def dest: nth_via_drop)

lemma reads_advance: "at p (c # s) \<Longrightarrow> reads p s (asm_advance p)"
proof -
  assume a: "at p (c # s)"
  then have "drop (Suc (ap_pos p)) (ap_source p) = s"
    by (metis at_def drop_Suc list.sel(3) tl_drop)
  then show ?thesis using a by (auto simp: at_def reads_def asm_advance_def Let_def asm_meta_def)
qed

lemma at_not_nul: "at p (c # s) \<Longrightarrow> c \<noteq> NUL"
  by (auto simp: at_def)

text \<open>A run of characters of a class that ends where the text leaves the class.\<close>

definition leaves :: "(char \<Rightarrow> bool) \<Rightarrow> string \<Rightarrow> bool" where
  "leaves P s \<longleftrightarrow> s = [] \<or> \<not> P (hd s)"

lemma leaves_simps [simp]: "leaves P []" "leaves P (c # s) \<longleftrightarrow> \<not> P c"
  by (simp_all add: leaves_def)

lemma skip_while_run:
  "at p (w @ s) \<Longrightarrow> list_all P w \<Longrightarrow> leaves P s \<Longrightarrow>
   reads p s (asm_skip_while P p) \<and> ap_pos (asm_skip_while P p) = ap_pos p + length w"
proof (induction w arbitrary: p)
  case Nil
  then show ?case
    by (cases s) (auto simp: asm_skip_while.simps [of P p] at_peek intro: reads_self)
next
  case (Cons c w)
  have a: "reads p (w @ s) (asm_advance p)" using Cons.prems reads_advance by simp
  have c: "asm_peek p = c" "c \<noteq> NUL" "P c"
    using Cons.prems at_peek(1) [of p c "w @ s"] at_not_nul [of p c "w @ s"] by simp_all
  have "reads (asm_advance p) s (asm_skip_while P (asm_advance p)) \<and>
      ap_pos (asm_skip_while P (asm_advance p)) = ap_pos (asm_advance p) + length w"
    using Cons.IH [OF reads_at [OF a]] Cons.prems by simp
  moreover have "ap_pos (asm_advance p) = ap_pos p + 1" using asm_advance_pos [of p] c by simp
  ultimately show ?case
    using c by (auto simp: asm_skip_while.simps [of P p] intro: reads_trans [OF a])
qed

lemma asm_between_run: "at p (w @ s) \<Longrightarrow> ap_pos q = ap_pos p + length w \<Longrightarrow> asm_between p q = w"
  by (simp add: asm_between_def subbytes_def at_def)

section \<open>One token\<close>

definition blanks :: "string \<Rightarrow> bool" where
  "blanks b \<longleftrightarrow> list_all (\<lambda>c. c = SPACE \<or> c = TAB) b"

definition lexes :: "AsmParser \<Rightarrow> AsmTokenType \<Rightarrow> string \<Rightarrow> 64 word \<Rightarrow> string \<Rightarrow> bool" where
  "lexes p ty txt v s \<longleftrightarrow> (case asm_lex_next p of (tok, q) \<Rightarrow>
     atk_type tok = ty \<and> atk_int tok = v \<and> reads p s q \<and>
     (\<forall>p'. ap_source p' = ap_source p \<longrightarrow> tok_text p' tok = txt))"

lemma lexesI:
  "asm_lex_next p = (tok, q) \<Longrightarrow> atk_type tok = ty \<Longrightarrow> atk_int tok = v \<Longrightarrow> reads p s q \<Longrightarrow>
   take (atk_len tok) (drop (atk_start tok) (ap_source p)) = txt \<Longrightarrow> lexes p ty txt v s"
  by (simp add: lexes_def tok_text_def)

lemma lexes_peek: "lexes p ty txt v s \<Longrightarrow> peek_type p = ty"
  "lexes p ty txt v s \<Longrightarrow> atk_int (asm_parser_peek p) = v"
  "lexes p ty txt v s \<Longrightarrow> ap_source p' = ap_source p \<Longrightarrow> tok_text p' (asm_parser_peek p) = txt"
  "lexes p ty txt v s \<Longrightarrow> fst (asm_parser_next p) = asm_parser_peek p"
  by (auto simp: lexes_def asm_parser_peek_def asm_parser_next_def)

lemma lexes_reads: "lexes p ty txt v s \<Longrightarrow> reads p s (snd (asm_parser_next p))"
  by (auto simp: lexes_def asm_parser_next_def)

lemma skip_space_blanks:
  assumes "at p (b @ s)" "blanks b" "leaves (\<lambda>c. c = SPACE \<or> c = TAB) s"
  shows "reads p s (asm_skip_space p)"
  using skip_while_run [of p b s "\<lambda>c. c = SPACE \<or> c = TAB"] assms by (simp add: asm_skip_space_def blanks_def)

lemma lex_next_token:
  assumes "at p (b @ c # s)" "blanks b" "c \<noteq> SPACE" "c \<noteq> TAB"
  obtains q where "reads p (c # s) q" "asm_peek q = c" "c \<noteq> NUL"
    "asm_lex_next p = (if c = NL then (asm_tok p ASM_TOK_NEWLINE q 1 0, asm_advance q)
       else if c = CHR '';'' then asm_lex_next (asm_skip_to_eol q) else asm_lex_token p q c)"
proof
  let ?q = "asm_skip_space p"
  show q: "reads p (c # s) ?q" by (rule skip_space_blanks) (use assms in simp_all)
  show c: "asm_peek ?q = c" by (rule at_peek(1) [OF reads_at [OF q]])
  show n: "c \<noteq> NUL" by (rule at_not_nul [OF reads_at [OF q]])
  show "asm_lex_next p = (if c = NL then (asm_tok p ASM_TOK_NEWLINE ?q 1 0, asm_advance ?q)
       else if c = CHR '';'' then asm_lex_next (asm_skip_to_eol ?q) else asm_lex_token p ?q c)"
    using c n by (simp add: asm_lex_next.simps [of p] Let_def)
qed

text \<open>The text of a token that stands at the cursor.\<close>

lemma reads_text: "reads p (w @ s) q \<Longrightarrow> take (length w) (drop (ap_pos q) (ap_source p)) = w"
  by (clarsimp simp: reads_def at_def)

lemma lexes_eof: "at p b \<Longrightarrow> blanks b \<Longrightarrow> lexes p ASM_TOK_EOF [] 0 []"
proof -
  assume a: "at p b" "blanks b"
  have q: "reads p [] (asm_skip_space p)" by (rule skip_space_blanks) (use a in simp_all)
  have "asm_peek (asm_skip_space p) = NUL" by (rule at_peek(2) [OF reads_at [OF q]])
  then show ?thesis
    by (intro lexesI [OF _ _ _ q, where tok = "asm_tok p ASM_TOK_EOF (asm_skip_space p) 0 0"])
      (simp_all add: asm_lex_next.simps [of p] Let_def asm_tok_def)
qed

lemma lexes_newline: "at p (b @ NL # s) \<Longrightarrow> blanks b \<Longrightarrow> lexes p ASM_TOK_NEWLINE [NL] 0 s"
proof -
  assume a: "at p (b @ NL # s)" "blanks b"
  obtain q where q: "reads p (NL # s) q" "asm_lex_next p = (asm_tok p ASM_TOK_NEWLINE q 1 0, asm_advance q)"
    using lex_next_token [OF a] by auto
  show ?thesis
    by (rule lexesI [OF q(2) _ _ reads_trans [OF q(1) reads_advance [OF reads_at [OF q(1)]]]])
      (use reads_text [of p "[NL]" s q] q(1) in \<open>simp_all add: asm_tok_def\<close>)
qed

lemma lexes_punct:
  assumes "at p (b @ c # s)" "blanks b" "asm_punct c = Some ty"
  shows "lexes p ty [c] 0 s"
proof -
  have c: "c \<noteq> SPACE" "c \<noteq> TAB" "c \<noteq> NL" "c \<noteq> CHR '';''" "c \<noteq> DQUOTE" "c \<noteq> SQUOTE" "\<not> c_isdigit c"
    using assms(3) by (auto simp: asm_punct_def c_isdigit_def split: if_splits)
  obtain q where q: "reads p (c # s) q" "asm_lex_next p = asm_lex_token p q c"
    using lex_next_token [OF assms(1,2) c(1,2)] c by metis
  have t: "asm_lex_next p = (asm_tok p ty q 1 0, asm_advance q)"
    using q(2) c assms(3) by (simp add: asm_lex_token_def)
  show ?thesis
    by (rule lexesI [OF t _ _ reads_trans [OF q(1) reads_advance [OF reads_at [OF q(1)]]]])
      (use reads_text [of p "[c]" s q] q(1) in \<open>simp_all add: asm_tok_def\<close>)
qed

lemma asm_punct_None: "c \<notin> set '',:[]+-*$%'' \<Longrightarrow> asm_punct c = None"
  by (simp add: asm_punct_def)

lemma is_word_start_facts:
  assumes "is_word_start c"
  shows "c \<noteq> SPACE \<and> c \<noteq> TAB \<and> c \<noteq> NL \<and> c \<noteq> CHR '';'' \<and> c \<noteq> DQUOTE \<and> c \<noteq> SQUOTE \<and>
     \<not> c_isdigit c \<and> asm_punct c = None"
proof -
  have "\<not> c_isdigit c" using assms by (auto simp: is_word_start_def ctype_defs)
  moreover have "\<not> list_ex is_word_start (SPACE # TAB # NL # CHR '';'' # DQUOTE # SQUOTE # '',:[]+-*$%'')"
    by code_simp
  ultimately show ?thesis using assms by (auto intro: asm_punct_None)
qed

lemma lexes_word:
  assumes "at p (b @ w @ s)" "blanks b" "w \<noteq> []" "is_word_start (hd w)" "list_all is_word_char w"
    "leaves is_word_char s"
  shows "lexes p (word_type w) w 0 s"
proof -
  obtain c w' where w: "w = c # w'" using assms(3) by (cases w) auto
  note f = is_word_start_facts [of c]
  have ws: "is_word_start c" using assms(4) w by simp
  obtain q where q: "reads p (w @ s) q" "asm_lex_next p = asm_lex_token p q c"
    using lex_next_token [of p b c "w' @ s"] assms(1,2) w f ws by (metis append_Cons)
  have r: "reads q s (asm_skip_while is_word_char q)"
    "ap_pos (asm_skip_while is_word_char q) = ap_pos q + length w"
    using skip_while_run [OF reads_at [OF q(1)] assms(5,6)] by simp_all
  have t: "asm_lex_next p = (asm_tok p (word_type w) q (length w) 0, asm_skip_while is_word_char q)"
    using q(2) f ws asm_between_run [OF reads_at [OF q(1)] r(2)]
    by (simp add: asm_lex_token_def asm_lex_word_def Let_def)
  show ?thesis
    by (rule lexesI [OF t _ _ reads_trans [OF q(1) r(1)]])
      (use reads_text [OF q(1)] in \<open>simp_all add: asm_tok_def\<close>)
qed

text \<open>Decimal numbers as \<open>printf\<close> writes them.\<close>

lemma digits_word_value: "digits_word b s = of_nat (digits_value b s)"
  by (induction s rule: rev_induct) (simp_all add: digits_word_def digits_value_def)

lemma fmt_nat_hd: "2 \<le> b \<Longrightarrow> b \<le> 10 \<Longrightarrow> 0 < n \<Longrightarrow> hd (fmt_nat b n) \<noteq> CHR ''0''"
proof (induction b n rule: fmt_nat.induct)
  case (1 b n)
  show ?case
  proof (cases "n < b")
    case True
    then have "digit_val (hd (fmt_nat b n)) = n" using "1.prems" by (simp add: fmt_nat.simps [of b n])
    then show ?thesis using "1.prems" by (auto simp: digit_val_def c_isdigit_def)
  next
    case False
    then have "0 < n div b" using "1.prems" by (simp add: div_greater_zero_iff)
    then show ?thesis using 1 False by (simp add: fmt_nat.simps [of b n])
  qed
qed

lemma fmt_nat_isdigit: "list_all c_isdigit (fmt_nat 10 n)"
  using fmt_nat_digits [of 10 _ n] by (fastforce simp: list_all_iff)

lemma leaves_mono: "leaves P s \<Longrightarrow> (\<And>c. Q c \<Longrightarrow> P c) \<Longrightarrow> leaves Q s"
  by (auto simp: leaves_def)

lemma isdigit_facts:
  assumes "c_isdigit c"
  shows "c \<noteq> SPACE \<and> c \<noteq> TAB \<and> c \<noteq> NL \<and> c \<noteq> CHR '';'' \<and> c \<noteq> DQUOTE \<and> c \<noteq> SQUOTE \<and> is_word_char c"
proof -
  have "\<not> list_ex c_isdigit [SPACE, TAB, NL, CHR '';'', DQUOTE, SQUOTE]" by code_simp
  then show ?thesis using assms by (auto simp: is_word_char_def c_isalnum_def)
qed

lemma lexes_zero:
  assumes "reads p (CHR ''0'' # s) q" "leaves is_word_char s" "asm_lex_next p = asm_lex_token p q (CHR ''0'')"
  shows "lexes p ASM_TOK_NUMBER ''0'' 0 s"
proof -
  have r: "reads q s (asm_advance q)" by (rule reads_advance [OF reads_at [OF assms(1)]])
  have "asm_peek (asm_advance q) \<noteq> CHR ''x'' \<and> asm_peek (asm_advance q) \<noteq> CHR ''X'' \<and>
      asm_peek (asm_advance q) \<noteq> CHR ''b'' \<and> asm_peek (asm_advance q) \<noteq> CHR ''B''"
  proof (cases s)
    case Nil
    then show ?thesis using at_peek(2) [of "asm_advance q"] reads_at [OF r] by simp
  next
    case (Cons c s')
    have "\<not> is_word_char c" using assms(2) Cons by simp
    moreover have "list_all is_word_char ''xXbB''" by code_simp
    moreover have "asm_peek (asm_advance q) = c" using at_peek(1) reads_at [OF r] Cons by metis
    ultimately show ?thesis by auto
  qed
  then have t: "asm_lex_next p = (asm_tok p ASM_TOK_NUMBER q 1 0, asm_advance q)"
    using assms(3) by (simp add: asm_lex_token_def asm_lex_number_def Let_def c_isdigit_def)
  show ?thesis
    by (rule lexesI [OF t _ _ reads_trans [OF assms(1) r]])
      (use reads_text [of p "''0''" s q] assms(1) in \<open>simp_all add: asm_tok_def\<close>)
qed

lemma fmt_nat_zero: "fmt_nat 10 0 = ''0''" by code_simp

lemma asm_number_lexes:
  assumes "at p (b @ fmt_nat 10 n @ s)" "blanks b" "leaves is_word_char s"
  shows "lexes p ASM_TOK_NUMBER (fmt_nat 10 n) (of_nat n) s"
proof -
  obtain c w where w: "fmt_nat 10 n = c # w" by (cases "fmt_nat 10 n") auto
  have d: "c_isdigit c" using fmt_nat_isdigit [of n] w by simp
  note f = isdigit_facts [OF d]
  obtain q where q: "reads p (fmt_nat 10 n @ s) q" "asm_lex_next p = asm_lex_token p q c"
    using lex_next_token [of p b c "w @ s"] assms(1,2) w f by (metis append_Cons)
  show ?thesis
  proof (cases "n = 0")
    case True
    then have "fmt_nat 10 n = ''0''" using fmt_nat_zero by simp
    then show ?thesis using lexes_zero [of p s q] q assms(3) w True by simp
  next
    case False
    then have z: "c \<noteq> CHR ''0''" using fmt_nat_hd [of 10 n] w by simp
    have r: "reads q s (asm_skip_while c_isdigit q)"
      "ap_pos (asm_skip_while c_isdigit q) = ap_pos q + length (fmt_nat 10 n)"
      using skip_while_run [OF reads_at [OF q(1)] fmt_nat_isdigit leaves_mono [OF assms(3)]] isdigit_facts
      by simp_all
    have t: "asm_lex_next p = (asm_tok p ASM_TOK_NUMBER q (length (fmt_nat 10 n)) (of_nat n), asm_skip_while c_isdigit q)"
      using q(2) f d z asm_between_run [OF reads_at [OF q(1)] r(2)]
      by (simp add: asm_lex_token_def asm_lex_number_def asm_lex_digits_def Let_def digits_word_value)
    show ?thesis
      by (rule lexesI [OF t _ _ reads_trans [OF q(1) r(1)]])
        (use reads_text [OF q(1)] in \<open>simp_all add: asm_tok_def\<close>)
  qed
qed

end
