(* ===== verification/AsmOutput.thy ===== *)
theory AsmOutput
  imports AsmIR
begin

text \<open>
  What the three assembler backends share (\<open>src/asm_backend_x86_64.c\<close>, \<open>src/asm_backend_arm64.c\<close>,
  \<open>src/asm_backend_riscv64.c\<close>): the growing output buffer \<open>Str\<close>, formatted output through a
  temporary of 256 bytes, and the contract that carries the properties of \<open>emit_block\<close>: an emitter
  appends a text of its own and leaves what was written alone.  The buffer is modelled with sizes as
  natural numbers; the code does not test \<open>realloc\<close>, so an allocation that fails is outside the model.
\<close>

section \<open>The output buffer\<close>

record Str =
  str_buf :: string
  str_cap :: nat

definition str_init :: Str where
  "str_init = \<lparr>str_buf = [], str_cap = 0\<rparr>"

text \<open>\<open>while (s->len + tlen + 1 > s->cap) s->cap *= 2;\<close>\<close>

function str_grow :: "nat \<Rightarrow> nat \<Rightarrow> nat" where
  "str_grow need cap = (if need > cap \<and> cap > 0 then str_grow need (cap * 2) else cap)"
  by pat_completeness auto
termination
  by (relation "measure (\<lambda>(need, cap). need - cap)") auto

declare str_grow.simps [simp del]

text \<open>A C string as the code reads it: the bytes before the first NUL.\<close>

definition c_str :: "string \<Rightarrow> string" where
  "c_str s = takeWhile (\<lambda>c. c \<noteq> NUL) s"

definition str_app :: "string \<Rightarrow> Str \<Rightarrow> Str" where
  "str_app text s =
     (let t = c_str text; need = length (str_buf s) + length t + 1;
          cap = (if need > str_cap s
                 then str_grow need (if str_cap s \<noteq> 0 then str_cap s * 2 else 1024) else str_cap s)
      in \<lparr>str_buf = str_buf s @ t, str_cap = cap\<rparr>)"

text \<open>\<open>vsnprintf\<close> into 256 bytes keeps 255 of the formatted text.\<close>

definition str_fmt :: "string \<Rightarrow> Str \<Rightarrow> Str" where
  "str_fmt text s = str_app (take 255 (c_str text)) s"

text \<open>The text and its terminator fit into the capacity, which is a power of two times 1024.\<close>

definition str_inv :: "Str \<Rightarrow> bool" where
  "str_inv s \<longleftrightarrow> (str_cap s = 0 \<and> str_buf s = [] \<or> length (str_buf s) < str_cap s) \<and> NUL \<notin> set (str_buf s)"

lemma c_str_no_nul [simp]: "NUL \<notin> set (c_str s)"
  by (auto simp: c_str_def dest: set_takeWhileD)

lemma c_str_id [simp]: "NUL \<notin> set s \<Longrightarrow> c_str s = s"
  unfolding c_str_def takeWhile_eq_all_conv by blast

lemma c_str_idem [simp]: "c_str (c_str s) = c_str s" "c_str (take n (c_str s)) = take n (c_str s)"
  by (rule c_str_id, simp) (rule c_str_id, use c_str_no_nul [of s] in \<open>blast dest: in_set_takeD\<close>)

lemma str_grow_enough: "0 < cap \<Longrightarrow> need \<le> str_grow need cap"
  by (induction need cap rule: str_grow.induct) (simp add: str_grow.simps)

lemma str_buf_simps [simp]:
  "str_buf str_init = []"
  "str_buf (str_app t s) = str_buf s @ c_str t"
  "str_buf (str_fmt t s) = str_buf s @ take 255 (c_str t)"
  by (simp_all add: str_init_def str_app_def str_fmt_def Let_def)

lemma str_inv_init [simp]: "str_inv str_init"
  by (simp add: str_inv_def str_init_def)

lemma str_inv_app [simp]: "str_inv s \<Longrightarrow> str_inv (str_app t s)"
  using str_grow_enough [of 1024 "length (str_buf s) + length (c_str t) + 1"]
    str_grow_enough [of "str_cap s * 2" "length (str_buf s) + length (c_str t) + 1"]
  by (cases "str_cap s = 0") (auto simp: str_inv_def str_app_def Let_def)

lemma str_inv_fmt [simp]: "str_inv s \<Longrightarrow> str_inv (str_fmt t s)"
  by (simp add: str_fmt_def)

section \<open>Emitters append\<close>

definition emitted :: "(Str \<Rightarrow> Str) \<Rightarrow> string" where
  "emitted f = str_buf (f str_init)"

definition appends :: "(Str \<Rightarrow> Str) \<Rightarrow> bool" where
  "appends f \<longleftrightarrow> (\<forall>s. str_buf (f s) = str_buf s @ emitted f \<and> (str_inv s \<longrightarrow> str_inv (f s)))"

named_theorems emit_intro

lemma appends_buf: "appends f \<Longrightarrow> str_buf (f s) = str_buf s @ emitted f"
  by (simp add: appends_def)

lemma appends_inv: "appends f \<Longrightarrow> str_inv s \<Longrightarrow> str_inv (f s)"
  by (simp add: appends_def)

lemma appendsI: "(\<And>s. str_buf (f s) = str_buf s @ t) \<Longrightarrow> (\<And>s. str_inv s \<Longrightarrow> str_inv (f s)) \<Longrightarrow> appends f"
  by (simp add: appends_def emitted_def)

lemma appends_cong: "appends g \<Longrightarrow> (\<And>s. f s = g s) \<Longrightarrow> appends f"
  by (rule appendsI [where t = "emitted g"]) (simp_all add: appends_buf appends_inv)

lemma appends_app [emit_intro]: "appends (str_app t)"
  by (rule appendsI) simp_all

lemma appends_fmt [emit_intro]: "appends (str_fmt t)"
  by (rule appendsI) simp_all

lemma appends_id [emit_intro]: "appends (\<lambda>s. s)"
  by (rule appendsI) simp_all

lemma appends_comp: "appends f \<Longrightarrow> appends g \<Longrightarrow> appends (\<lambda>s. f (g s))"
  by (rule appendsI [where t = "emitted g @ emitted f"]) (simp_all add: appends_buf appends_inv)

lemmas appends_comps [emit_intro] = appends_comp [OF appends_app] appends_comp [OF appends_fmt]

lemma appends_if [emit_intro]: "(b \<Longrightarrow> appends f) \<Longrightarrow> (\<not> b \<Longrightarrow> appends g) \<Longrightarrow> appends (\<lambda>s. if b then f s else g s)"
  by (cases b) simp_all

lemma emitted_app [simp]: "emitted (str_app t) = c_str t" "emitted (str_fmt t) = take 255 (c_str t)"
  "emitted (\<lambda>s. s) = []"
  by (simp_all add: emitted_def)

lemma emitted_comp: "appends f \<Longrightarrow> emitted (\<lambda>s. f (g s)) = emitted g @ emitted f"
  using appends_buf [of f "g str_init"] by (simp add: emitted_def)

section \<open>Blocks\<close>

text \<open>The loop of \<open>emit_block\<close> over the elements, and the loops over operands with a separator.\<close>

definition emit_list :: "('e \<Rightarrow> Str \<Rightarrow> Str) \<Rightarrow> 'e list \<Rightarrow> Str \<Rightarrow> Str" where
  "emit_list f es s = fold f es s"

primrec emit_seq :: "(AsmOperand \<Rightarrow> Str \<Rightarrow> Str) \<Rightarrow> string \<Rightarrow> AsmOperand list \<Rightarrow> Str \<Rightarrow> Str" where
  "emit_seq f sep [] s = s"
| "emit_seq f sep (x # xs) s = emit_seq f '', '' xs (f x (str_app sep s))"

lemma appends_seq [emit_intro]: "(\<And>x. appends (f x)) \<Longrightarrow> appends (emit_seq f sep xs)"
proof (induction xs arbitrary: sep)
  case Nil
  have e: "emit_seq f sep [] = (\<lambda>s. s)" by (simp add: fun_eq_iff)
  show ?case unfolding e by (rule appends_id)
next
  case (Cons x xs)
  have e: "emit_seq f sep (x # xs) = (\<lambda>s. emit_seq f '', '' xs (f x (str_app sep s)))"
    by (simp add: fun_eq_iff)
  show ?case unfolding e
    by (rule appends_comp [OF Cons.IH [OF Cons.prems] appends_comp [OF Cons.prems appends_app]])
qed

lemmas appends_seq_comp [emit_intro] = appends_comp [OF appends_seq]

lemma appends_list: "(\<And>x. appends (f x)) \<Longrightarrow> appends (emit_list f xs)"
proof (induction xs)
  case Nil
  have e: "emit_list f [] = (\<lambda>s. s)" by (simp add: fun_eq_iff emit_list_def)
  show ?case unfolding e by (rule appends_id)
next
  case (Cons x xs)
  have e: "emit_list f (x # xs) = (\<lambda>s. emit_list f xs (f x s))"
    by (simp add: fun_eq_iff emit_list_def)
  show ?case unfolding e by (rule appends_comp [OF Cons.IH [OF Cons.prems] Cons.prems])
qed

text \<open>
  The contract of a backend: what it emits for one element is a text of its own.  From it: a block is
  the prologue followed by the texts of its elements in order, the length reported is the length of
  the output, which fits its buffer with the terminator, and blocks can be emitted piece by piece.
\<close>

locale asm_backend =
  fixes start :: Str
    and emit_elem :: "AsmElement \<Rightarrow> Str \<Rightarrow> Str"
    and emit_block :: "AsmIRBlock \<Rightarrow> Str"
  assumes elem_appends: "appends (emit_elem e)"
    and block_loop: "emit_block b = emit_list emit_elem (blk_elements b) start"
    and start_inv: "str_inv start"
begin

lemma list_text: "str_buf (emit_list emit_elem es s) = str_buf s @ concat (map (\<lambda>e. emitted (emit_elem e)) es)"
  by (induction es arbitrary: s) (simp_all add: emit_list_def appends_buf [OF elem_appends])

lemma block_text:
  "str_buf (emit_block b) = str_buf start @ concat (map (\<lambda>e. emitted (emit_elem e)) (blk_elements b))"
  by (simp add: block_loop list_text)

lemma block_fits: "str_inv (emit_block b)"
  unfolding block_loop by (rule appends_inv [OF appends_list [OF elem_appends] start_inv])

lemma block_append:
  "blk_elements b = blk_elements b1 @ blk_elements b2 \<Longrightarrow>
   str_buf (emit_block b) = str_buf (emit_block b1) @ drop (length (str_buf start)) (str_buf (emit_block b2))"
  by (simp add: block_text)

end

end
