(* ===== verification/AsmX86.thy ===== *)
theory AsmX86
  imports AsmOutput
begin

text \<open>
  The x86-64 backend (\<open>src/asm_backend_x86_64.c\<close>), which prints a block back as NASM source.  The
  text \<open>printf\<close> makes of a null string is the parameter \<open>null\<close>; it matters only for a base register
  with no x86 name.  Names end with \<open>_x86\<close>, since every backend has functions of the same names.
\<close>

definition emit_reg_x86 :: "AsmRegister \<Rightarrow> Str \<Rightarrow> Str" where
  "emit_reg_x86 reg s =
     (case asm_reg_name reg ASM_ARCH_X86_64 of Some n \<Rightarrow> str_app n s | None \<Rightarrow> str_app ''??'' s)"

fun emit_size_x86 :: "AsmSizeSpec \<Rightarrow> Str \<Rightarrow> Str" where
  "emit_size_x86 ASM_SIZE_BYTE s = str_app ''byte '' s"
| "emit_size_x86 ASM_SIZE_WORD s = str_app ''word '' s"
| "emit_size_x86 ASM_SIZE_DWORD s = str_app ''dword '' s"
| "emit_size_x86 ASM_SIZE_QWORD s = str_app ''qword '' s"
| "emit_size_x86 ASM_SIZE_OWORD s = str_app ''oword '' s"
| "emit_size_x86 ASM_SIZE_TWORD s = str_app ''tword '' s"
| "emit_size_x86 ASM_SIZE_NONE s = s"

definition x86_name :: "string \<Rightarrow> AsmRegister \<Rightarrow> string" where
  "x86_name null reg = (case asm_reg_name reg ASM_ARCH_X86_64 of Some n \<Rightarrow> n | None \<Rightarrow> null)"

definition emit_scaled_x86 :: "AsmMem \<Rightarrow> Str \<Rightarrow> Str" where
  "emit_scaled_x86 mem s =
     (let s1 = emit_reg_x86 (mem_index mem) (str_app ''+'' (emit_reg_x86 (mem_base mem) (str_app ''['' s)))
      in if mem_scale mem > 1 then str_fmt (''*'' @ fmt_ld (mem_scale mem)) s1 else s1)"

definition emit_mem_x86 :: "string \<Rightarrow> AsmMem \<Rightarrow> Str \<Rightarrow> Str" where
  "emit_mem_x86 null mem s0 =
     (let s = emit_size_x86 (mem_size mem) s0 in
      case mem_mode mem of
        ASM_ADDR_DIRECT \<Rightarrow>
          if c_str (mem_label mem) \<noteq> [] then str_fmt (''['' @ c_str (mem_label mem) @ '']'') s
          else str_fmt (''[0x'' @ fmt_lx (mem_displacement mem) @ '']'') s
      | ASM_ADDR_BASE \<Rightarrow> str_app '']'' (emit_reg_x86 (mem_base mem) (str_app ''['' s))
      | ASM_ADDR_BASE_DISP \<Rightarrow>
          str_fmt (''['' @ x86_name null (mem_base mem) @ fmt_plus_ld (sint (mem_displacement mem)) @ '']'') s
      | ASM_ADDR_BASE_INDEX \<Rightarrow> str_app '']'' (emit_scaled_x86 mem s)
      | ASM_ADDR_BASE_INDEX_DISP \<Rightarrow>
          str_app '']'' (str_fmt (fmt_plus_ld (sint (mem_displacement mem))) (emit_scaled_x86 mem s))
      | ASM_ADDR_RIP_REL \<Rightarrow> str_fmt (''[rel '' @ c_str (mem_label mem) @ '']'') s
      | ASM_ADDR_NONE \<Rightarrow> str_app ''[?]'' s)"

definition emit_op_x86 :: "string \<Rightarrow> AsmOperand \<Rightarrow> Str \<Rightarrow> Str" where
  "emit_op_x86 null op s =
     (case op_type op of
        ASM_OP_REGISTER \<Rightarrow> emit_reg_x86 (op_reg op) s
      | ASM_OP_IMMEDIATE \<Rightarrow> str_fmt (fmt_ld (sint (op_immediate op))) s
      | ASM_OP_MEMORY \<Rightarrow> emit_mem_x86 null (op_mem op) s
      | ASM_OP_LABEL \<Rightarrow> str_app (op_label op) s
      | ASM_OP_EXPR \<Rightarrow> str_app (op_expr op) s)"

definition emit_instr_x86 :: "string \<Rightarrow> AsmInstruction \<Rightarrow> Str \<Rightarrow> Str" where
  "emit_instr_x86 null instr s =
     (let s1 = str_app ''    '' s;
          s2 = (if ins_is_lock_prefix instr then str_app ''lock '' s1 else s1);
          s3 = (if ins_is_rep_prefix instr then str_app ''rep '' s2 else s2);
          s4 = str_app (ins_mnemonic instr) s3;
          s5 = (if ins_has_size_spec instr then emit_size_x86 (ins_size_spec instr) (str_app '' '' s4) else s4)
      in str_app [NL] (emit_seq (emit_op_x86 null) '' '' (ins_operands instr) s5))"

definition emit_data_x86 :: "string \<Rightarrow> string \<Rightarrow> AsmDirective \<Rightarrow> Str \<Rightarrow> Str" where
  "emit_data_x86 null n dir s =
     (let s1 = str_fmt (n @ '' '') s in str_app [NL] (emit_seq (emit_op_x86 null) [] (dir_data dir) s1))"

definition emit_dir_x86 :: "string \<Rightarrow> AsmDirective \<Rightarrow> Str \<Rightarrow> Str" where
  "emit_dir_x86 null dir s =
     (let name = c_str (dir_name dir); value = fmt_ld (sint (dir_value dir)) in
      case dir_type dir of
        ASM_DIR_SECTION \<Rightarrow> str_fmt (''section '' @ name @ [NL]) s
      | ASM_DIR_GLOBAL \<Rightarrow> str_fmt (''global '' @ name @ [NL]) s
      | ASM_DIR_EXTERN \<Rightarrow> str_fmt (''extern '' @ name @ [NL]) s
      | ASM_DIR_ALIGN \<Rightarrow> str_fmt (''align '' @ value @ [NL]) s
      | ASM_DIR_ORG \<Rightarrow> str_fmt (''[org 0x'' @ fmt_lx (dir_value dir) @ '']'' @ [NL]) s
      | ASM_DIR_BITS \<Rightarrow> str_fmt (''[bits '' @ value @ '']'' @ [NL]) s
      | ASM_DIR_TIMES \<Rightarrow> str_fmt (''times '' @ value @ '' '') s
      | ASM_DIR_DB \<Rightarrow> emit_data_x86 null ''db'' dir s
      | ASM_DIR_DW \<Rightarrow> emit_data_x86 null ''dw'' dir s
      | ASM_DIR_DD \<Rightarrow> emit_data_x86 null ''dd'' dir s
      | ASM_DIR_DQ \<Rightarrow> emit_data_x86 null ''dq'' dir s
      | ASM_DIR_RESB \<Rightarrow> str_fmt (''resb '' @ value @ [NL]) s
      | ASM_DIR_RESW \<Rightarrow> str_fmt (''resw '' @ value @ [NL]) s
      | ASM_DIR_RESD \<Rightarrow> str_fmt (''resd '' @ value @ [NL]) s
      | ASM_DIR_RESQ \<Rightarrow> str_fmt (''resq '' @ value @ [NL]) s
      | _ \<Rightarrow> str_fmt (''; unknown directive: '' @ name @ [NL]) s)"

primrec emit_elem_x86 :: "string \<Rightarrow> AsmElement \<Rightarrow> Str \<Rightarrow> Str" where
  "emit_elem_x86 null (ElemInstruction i) s = emit_instr_x86 null i s"
| "emit_elem_x86 null (ElemDirective d) s = emit_dir_x86 null d s"
| "emit_elem_x86 null (ElemLabel l) s = str_fmt (c_str (lab_name l) @ '':'' @ [NL]) s"
| "emit_elem_x86 null (ElemComment c) s = str_fmt (''; '' @ c_str c @ [NL]) s"

definition emit_block_x86 :: "string \<Rightarrow> AsmIRBlock \<Rightarrow> Str" where
  "emit_block_x86 null b = emit_list (emit_elem_x86 null) (blk_elements b) str_init"

section \<open>The contract of a backend\<close>

lemma emit_reg_x86_text: "emit_reg_x86 reg = str_app (x86_name ''??'' reg)"
  by (simp add: fun_eq_iff emit_reg_x86_def x86_name_def split: option.split)

lemma appends_size_x86 [emit_intro]: "appends (emit_size_x86 sz)"
proof (cases sz)
  case ASM_SIZE_NONE
  have e: "emit_size_x86 ASM_SIZE_NONE = (\<lambda>s. s)" by (simp add: fun_eq_iff)
  show ?thesis unfolding ASM_SIZE_NONE e by (rule appends_id)
qed (auto intro: appends_cong [OF appends_app])

lemma appends_scaled_x86: "appends (emit_scaled_x86 mem)"
  unfolding emit_scaled_x86_def [abs_def] Let_def emit_reg_x86_text by (intro emit_intro)

lemma appends_mem_x86: "appends (emit_mem_x86 null mem)"
proof -
  note sz = appends_size_x86 and sc = appends_comp [OF appends_scaled_x86 appends_size_x86]
  show ?thesis
    unfolding emit_mem_x86_def [abs_def] Let_def emit_reg_x86_text
    by (cases "mem_mode mem") (auto intro!: emit_intro sc)
qed

lemma appends_op_x86: "appends (emit_op_x86 null op)"
  unfolding emit_op_x86_def [abs_def] emit_reg_x86_text
  by (cases "op_type op") (auto intro!: emit_intro appends_mem_x86)

lemma appends_instr_x86: "appends (emit_instr_x86 null i)"
  unfolding emit_instr_x86_def [abs_def] Let_def
  by (intro emit_intro appends_op_x86 appends_comp [OF appends_size_x86])

lemma appends_data_x86: "appends (emit_data_x86 null n d)"
  unfolding emit_data_x86_def [abs_def] Let_def by (intro emit_intro appends_op_x86)

lemma appends_dir_x86: "appends (emit_dir_x86 null d)"
  unfolding emit_dir_x86_def [abs_def] Let_def
  by (cases "dir_type d") (auto intro!: emit_intro appends_data_x86)

lemma appends_elem_x86: "appends (emit_elem_x86 null e)"
  by (cases e)
    (auto intro: appends_cong [OF appends_instr_x86] appends_cong [OF appends_dir_x86] appends_cong [OF appends_fmt])

interpretation x86: asm_backend str_init "emit_elem_x86 null" "emit_block_x86 null"
  by unfold_locales (simp_all add: appends_elem_x86 emit_block_x86_def)

end
