(* ===== verification/AsmOperands.thy ===== *)
theory AsmOperands
  imports AsmLexing AsmX86
begin

text \<open>
  Operands survive the round trip through the x86 backend: what \<open>emit_op\<close> prints for a plain operand,
  \<open>asm_parse_operand\<close> reads back.  Plain leaves out what does not survive: negative immediates,
  registers with names of five letters, direct addresses, string expressions.
\<close>

section \<open>Plain operands\<close>

definition plain_word :: "nat \<Rightarrow> string \<Rightarrow> bool" where
  "plain_word n w \<longleftrightarrow> w \<noteq> [] \<and> is_word_start (hd w) \<and> list_all is_word_char w \<and> length w < n"

definition plain_label :: "string \<Rightarrow> bool" where
  "plain_label w \<longleftrightarrow> plain_word ASM_MAX_LABEL_LEN w \<and> word_type w = ASM_TOK_IDENT"

definition plain_reg :: "AsmRegister \<Rightarrow> bool" where
  "plain_reg r = (case asm_reg_name r ASM_ARCH_X86_64 of Some n \<Rightarrow> length n \<le> 4 | None \<Rightarrow> False)"

definition plain_mem :: "AsmMem \<Rightarrow> bool" where
  "plain_mem m = (case mem_mode m of
     ASM_ADDR_BASE \<Rightarrow> plain_reg (mem_base m) \<and> m = asm_mem_base (mem_base m)
   | ASM_ADDR_BASE_DISP \<Rightarrow> plain_reg (mem_base m) \<and> m = asm_mem_base_disp (mem_base m) (mem_displacement m)
   | ASM_ADDR_BASE_INDEX \<Rightarrow> plain_reg (mem_base m) \<and> plain_reg (mem_index m) \<and> 1 \<le> mem_scale m \<and>
       mem_scale m < 2 ^ 31 \<and> m = asm_mem_base_index (mem_base m) (mem_index m) (mem_scale m)
   | ASM_ADDR_BASE_INDEX_DISP \<Rightarrow> plain_reg (mem_base m) \<and> plain_reg (mem_index m) \<and> 1 \<le> mem_scale m \<and>
       mem_scale m < 2 ^ 31 \<and>
       m = asm_mem_full (mem_base m) (mem_index m) (mem_scale m) (mem_displacement m)
   | ASM_ADDR_RIP_REL \<Rightarrow> plain_label (mem_label m) \<and> m = asm_mem_rip_rel (mem_label m)
   | _ \<Rightarrow> False)"

definition plain_op :: "AsmOperand \<Rightarrow> bool" where
  "plain_op op = (case op_type op of
     ASM_OP_REGISTER \<Rightarrow> plain_reg (op_reg op) \<and> op = asm_op_reg (op_reg op)
   | ASM_OP_IMMEDIATE \<Rightarrow> 0 \<le> sint (op_immediate op) \<and> op = asm_op_imm (op_immediate op)
   | ASM_OP_MEMORY \<Rightarrow> plain_mem (op_mem op) \<and> op = asm_op_mem (op_mem op)
   | ASM_OP_LABEL \<Rightarrow> plain_label (op_label op) \<and> op = asm_op_label (op_label op)
   | ASM_OP_EXPR \<Rightarrow> False)"

section \<open>Words and registers\<close>

lemma is_word_char_facts:
  "is_word_char c \<Longrightarrow> c \<noteq> NUL \<and> c \<noteq> NL \<and> c \<noteq> CHR '','' \<and> c \<noteq> CHR '']''"
proof -
  assume "is_word_char c"
  moreover have "\<not> list_ex is_word_char [NUL, NL, CHR '','', CHR '']'']" by code_simp
  ultimately show ?thesis by auto
qed

lemma plain_word_no_nul: "plain_word n w \<Longrightarrow> NUL \<notin> set w"
  using is_word_char_facts by (auto simp: plain_word_def list_all_iff)

lemma tok_copy_source: "ap_source p' = ap_source p \<Longrightarrow> tok_copy n p' tok = tok_copy n p tok"
  by (simp add: tok_copy_def tok_text_def)

lemma lexes_copy:
  "lexes p ty w v s \<Longrightarrow> ap_source p' = ap_source p \<Longrightarrow> length w < n \<Longrightarrow> NUL \<notin> set w \<Longrightarrow>
   tok_copy n p' (asm_parser_peek p) = w"
  using lexes_peek(3) [of p ty w v s p'] c_str_id [of w] by (simp add: tok_copy_def c_str_def)

lemma x86_names_are_words:
  "list_all (\<lambda>e. case entry_name ASM_ARCH_X86_64 e of None \<Rightarrow> True | Some n \<Rightarrow>
     plain_word 16 n \<and> 2 \<le> length n) asm_reg_table"
  by code_simp

lemma x86_name_word:
  assumes "asm_reg_name r ASM_ARCH_X86_64 = Some n"
  shows "plain_word 16 n" "2 \<le> length n"
proof -
  have "asm_reg_table ! r \<in> set asm_reg_table"
    by (rule nth_mem) (use assms in \<open>simp add: asm_reg_name_def asm_reg_table_def ASM_REG_COUNT_def split: if_splits\<close>)
  then have "case entry_name ASM_ARCH_X86_64 (asm_reg_table ! r) of None \<Rightarrow> True | Some n \<Rightarrow>
      plain_word 16 n \<and> 2 \<le> length n"
    using x86_names_are_words by (simp add: list_all_iff)
  then show "plain_word 16 n" "2 \<le> length n"
    using assms by (simp_all add: asm_reg_name_def split: if_splits)
qed

lemma plain_regE:
  assumes "plain_reg r"
  obtains n where "asm_reg_name r ASM_ARCH_X86_64 = Some n" "plain_word 16 n"
    "word_type n = ASM_TOK_REGISTER" "asm_reg_from_name n = r"
proof -
  obtain n where n: "asm_reg_name r ASM_ARCH_X86_64 = Some n" "length n \<le> 4"
    using assms by (auto simp: plain_reg_def split: option.splits)
  have f: "asm_reg_from_name n = r" "r \<noteq> ASM_REG_COUNT"
    using reg_from_name_of_name [OF n(1)] asm_reg_name_less [OF n(1)] by simp_all
  have tw: "takeWhile (\<lambda>c. c \<noteq> NUL) n = n"
    using plain_word_no_nul [OF x86_name_word(1) [OF n(1)]] c_str_id [of n] by (simp add: c_str_def)
  have "asm_is_register n"
    unfolding asm_is_register_def tw using f n x86_name_word(2) [OF n(1)] by simp
  then have "word_type n = ASM_TOK_REGISTER" by (simp add: word_type_def)
  then show ?thesis using that n f x86_name_word(1) [OF n(1)] by blast
qed

section \<open>Operands\<close>

lemma lexes_plain_word:
  "at p (b @ w @ s) \<Longrightarrow> blanks b \<Longrightarrow> plain_word n w \<Longrightarrow> leaves is_word_char s \<Longrightarrow> lexes p (word_type w) w 0 s"
  by (rule lexes_word) (auto simp: plain_word_def)

text \<open>A register at the cursor.\<close>

lemma lexes_reg:
  assumes "at p (b @ n @ s)" "blanks b" "asm_reg_name r ASM_ARCH_X86_64 = Some n" "plain_reg r"
    "leaves is_word_char s"
  shows "lexes p ASM_TOK_REGISTER n 0 s" "ap_source p' = ap_source p \<Longrightarrow> reg_from_tok p' (asm_parser_peek p) = r"
proof -
  have n: "plain_word 16 n" "word_type n = ASM_TOK_REGISTER" "asm_reg_from_name n = r"
    using assms(3) plain_regE [OF assms(4)] by auto
  show l: "lexes p ASM_TOK_REGISTER n 0 s"
    using lexes_plain_word [OF assms(1,2) n(1) assms(5)] n(2) by simp
  show "reg_from_tok p' (asm_parser_peek p) = r" if "ap_source p' = ap_source p"
    using lexes_copy [OF l that, of 16] n plain_word_no_nul [OF n(1)]
    by (simp add: reg_from_tok_def plain_word_def)
qed

text \<open>The text of an operand.\<close>

definition reg_text :: "AsmRegister \<Rightarrow> string" where
  "reg_text r = x86_name ''??'' r"

definition scaled_text :: "AsmMem \<Rightarrow> string" where
  "scaled_text m = ''['' @ reg_text (mem_base m) @ ''+'' @ reg_text (mem_index m) @
     (if mem_scale m > 1 then ''*'' @ fmt_ld (mem_scale m) else [])"

definition mem_text :: "AsmMem \<Rightarrow> string" where
  "mem_text m = (case mem_mode m of
     ASM_ADDR_BASE \<Rightarrow> ''['' @ reg_text (mem_base m) @ '']''
   | ASM_ADDR_BASE_DISP \<Rightarrow> ''['' @ reg_text (mem_base m) @ fmt_plus_ld (sint (mem_displacement m)) @ '']''
   | ASM_ADDR_BASE_INDEX \<Rightarrow> scaled_text m @ '']''
   | ASM_ADDR_BASE_INDEX_DISP \<Rightarrow> scaled_text m @ fmt_plus_ld (sint (mem_displacement m)) @ '']''
   | ASM_ADDR_RIP_REL \<Rightarrow> ''[rel '' @ mem_label m @ '']''
   | _ \<Rightarrow> [])"

definition op_text :: "AsmOperand \<Rightarrow> string" where
  "op_text op = (case op_type op of
     ASM_OP_REGISTER \<Rightarrow> reg_text (op_reg op)
   | ASM_OP_IMMEDIATE \<Rightarrow> fmt_ld (sint (op_immediate op))
   | ASM_OP_MEMORY \<Rightarrow> mem_text (op_mem op)
   | ASM_OP_LABEL \<Rightarrow> op_label op
   | ASM_OP_EXPR \<Rightarrow> op_expr op)"

text \<open>Nothing plain is cut at 255 bytes.\<close>

lemma length_fmt_nat: "n < b ^ k \<Longrightarrow> 0 < k \<Longrightarrow> 2 \<le> b \<Longrightarrow> length (fmt_nat b n) \<le> k"
proof (induction k arbitrary: n)
  case (Suc k)
  show ?case
  proof (cases "n < b")
    case False
    have "n div b < b ^ k" using Suc.prems by (simp add: less_mult_imp_div_less mult.commute)
    moreover have "0 < n div b" using False Suc.prems by (simp add: div_greater_zero_iff)
    ultimately have "0 < k" by (cases k) simp_all
    with Suc.IH [OF \<open>n div b < b ^ k\<close>] Suc.prems False show ?thesis by (simp add: fmt_nat.simps [of b n])
  qed (simp add: fmt_nat.simps [of b n])
qed simp

lemma length_fmt_ld: "- (2 ^ 63) \<le> i \<Longrightarrow> i < 2 ^ 63 \<Longrightarrow> length (fmt_ld i) \<le> 20"
proof -
  assume "- (2 ^ 63) \<le> i" "i < 2 ^ 63"
  then have "nat i < 10 ^ 19" "nat (- i) < 10 ^ 19" by simp_all
  then show ?thesis
    using length_fmt_nat [of "nat i" 10 19] length_fmt_nat [of "nat (- i)" 10 19] by (simp add: fmt_ld_def)
qed

lemma fmt_ld_no_nul: "NUL \<notin> set (fmt_ld i)"
proof -
  have "NUL \<notin> set (fmt_nat 10 n)" for n
  proof
    assume "NUL \<in> set (fmt_nat 10 n)"
    then have "c_isdigit NUL" using fmt_nat_isdigit [of n] by (auto simp: list_all_iff)
    then show False by (simp add: c_isdigit_def)
  qed
  then show ?thesis by (simp add: fmt_ld_def)
qed

lemma plain_reg_text:
  assumes "plain_reg r"
  shows "asm_reg_name r ASM_ARCH_X86_64 = Some (reg_text r)" "x86_name null r = reg_text r"
    "NUL \<notin> set (reg_text r)" "length (reg_text r) \<le> 4" "c_str (reg_text r) = reg_text r"
proof -
  obtain n where n: "asm_reg_name r ASM_ARCH_X86_64 = Some n" "plain_word 16 n"
    using assms by (rule plain_regE)
  then have "reg_text r = n" by (simp add: reg_text_def x86_name_def)
  then show "asm_reg_name r ASM_ARCH_X86_64 = Some (reg_text r)" "x86_name null r = reg_text r"
    "NUL \<notin> set (reg_text r)" "length (reg_text r) \<le> 4"
    using n assms plain_word_no_nul [OF n(2)] by (simp_all add: x86_name_def plain_reg_def)
  then show "c_str (reg_text r) = reg_text r" by simp
qed

lemma fmt_ld_facts:
  "length (fmt_ld (sint (w :: 64 word))) \<le> 20" "c_str (fmt_ld i) = fmt_ld i" "c_str (fmt_plus_ld i) = fmt_plus_ld i"
  "length (fmt_plus_ld (sint w)) \<le> 21" "NUL \<notin> set (fmt_plus_ld i)"
proof -
  show l: "length (fmt_ld (sint w)) \<le> 20"
    by (rule length_fmt_ld) (use sint_range_size [of w] in \<open>simp_all add: word_size\<close>)
  then show "length (fmt_plus_ld (sint w)) \<le> 21" by (simp add: fmt_plus_ld_def)
  show "c_str (fmt_ld i) = fmt_ld i" by (simp add: fmt_ld_no_nul)
  show n: "NUL \<notin> set (fmt_plus_ld i)" by (simp add: fmt_plus_ld_def fmt_ld_no_nul)
  then show "c_str (fmt_plus_ld i) = fmt_plus_ld i" by simp
qed

lemma emit_reg_text: "plain_reg r \<Longrightarrow> str_buf (emit_reg_x86 r s) = str_buf s @ reg_text r"
  by (simp add: emit_reg_x86_text plain_reg_text(2,5))

lemma emit_scaled_text:
  assumes "plain_reg (mem_base m)" "plain_reg (mem_index m)" "1 \<le> mem_scale m" "mem_scale m < 2 ^ 31"
  shows "str_buf (emit_scaled_x86 m s) = str_buf s @ scaled_text m"
proof -
  have "length (fmt_ld (mem_scale m)) \<le> 20" by (rule length_fmt_ld) (use assms in simp_all)
  then show ?thesis
    using assms fmt_ld_no_nul [of "mem_scale m"]
    by (simp add: emit_scaled_x86_def scaled_text_def Let_def emit_reg_text)
qed

lemma plain_label_facts: "plain_label w \<Longrightarrow> NUL \<notin> set w \<and> length w < 48 \<and> w \<noteq> [] \<and> c_str w = w \<and>
    strncpy_buf ASM_MAX_LABEL_LEN w = w"
proof -
  assume w: "plain_label w"
  then have n: "NUL \<notin> set w" using plain_word_no_nul by (auto simp: plain_label_def)
  moreover have l: "length w < 48" "w \<noteq> []"
    using w by (simp_all add: plain_label_def plain_word_def ASM_MAX_LABEL_LEN_def)
  moreover have "strncpy_buf ASM_MAX_LABEL_LEN w = take 47 (c_str w)"
    by (simp add: strncpy_buf_def c_str_def ASM_MAX_LABEL_LEN_def)
  ultimately show ?thesis by simp
qed

lemma str_fmt_whole: "length t \<le> 255 \<Longrightarrow> NUL \<notin> set t \<Longrightarrow> str_buf (str_fmt t s) = str_buf s @ t"
  by simp

lemmas asm_mem_builders = asm_mem_base_def asm_mem_base_disp_def asm_mem_base_index_def asm_mem_full_def
  asm_mem_rip_rel_def asm_mem_init_def mem_zero_def

lemma plain_mem_size: "plain_mem m \<Longrightarrow> mem_size m = ASM_SIZE_NONE"
proof -
  have "mem_size (asm_mem_base b) = ASM_SIZE_NONE" "mem_size (asm_mem_base_disp b d) = ASM_SIZE_NONE"
    "mem_size (asm_mem_base_index b i k) = ASM_SIZE_NONE" "mem_size (asm_mem_full b i k d) = ASM_SIZE_NONE"
    "mem_size (asm_mem_rip_rel l) = ASM_SIZE_NONE" for b i k d l
    by (simp_all add: asm_mem_builders)
  then show "plain_mem m \<Longrightarrow> mem_size m = ASM_SIZE_NONE"
    unfolding plain_mem_def by (auto split: AsmAddrMode.splits) metis+
qed

lemma emit_mem_text:
  assumes "plain_mem m"
  shows "str_buf (emit_mem_x86 null m s) = str_buf s @ mem_text m"
proof -
  note sz = plain_mem_size [OF assms]
  have d: "length (fmt_plus_ld (sint (mem_displacement m))) \<le> 21"
      "NUL \<notin> set (fmt_plus_ld (sint (mem_displacement m)))"
    by (rule fmt_ld_facts)+
  show ?thesis
  proof (cases "mem_mode m")
    case ASM_ADDR_BASE_DISP
    then have b: "plain_reg (mem_base m)" using assms by (simp add: plain_mem_def)
    show ?thesis
      using ASM_ADDR_BASE_DISP sz d plain_reg_text [OF b]
      by (simp add: emit_mem_x86_def mem_text_def Let_def str_fmt_whole del: str_buf_simps(3))
  next
    case ASM_ADDR_RIP_REL
    then have "plain_label (mem_label m)" using assms by (simp add: plain_mem_def)
    then show ?thesis
      using ASM_ADDR_RIP_REL sz plain_label_facts [of "mem_label m"]
      by (simp add: emit_mem_x86_def mem_text_def Let_def str_fmt_whole del: str_buf_simps(3))
  qed (use assms sz d in \<open>auto simp: plain_mem_def emit_mem_x86_def mem_text_def Let_def emit_reg_text
      emit_scaled_text\<close>)
qed

lemma emit_op_text: "plain_op op \<Longrightarrow> str_buf (emit_op_x86 null op s) = str_buf s @ op_text op"
  using fmt_ld_facts(1) [of "op_immediate op"] fmt_ld_no_nul [of "sint (op_immediate op)"]
  by (cases "op_type op")
    (auto simp: plain_op_def emit_op_x86_def op_text_def emit_reg_text emit_mem_text plain_label_facts)

section \<open>Reading an operand back\<close>

lemma blanks_Nil [simp]: "blanks []" by (simp add: blanks_def)

lemma lexes_punct0: "at p (c # s) \<Longrightarrow> asm_punct c = Some ty \<Longrightarrow> lexes p ty [c] 0 s"
  using lexes_punct [of p "[]" c s ty] by simp

lemmas asm_puncts = asm_punct_def [of "CHR '',''"] asm_punct_def [of "CHR '':''"] asm_punct_def [of "CHR ''[''"]
  asm_punct_def [of "CHR '']''"] asm_punct_def [of "CHR ''+''"] asm_punct_def [of "CHR ''-''"]
  asm_punct_def [of "CHR ''*''"]

lemma close_reads:
  assumes "at p (CHR '']'' # s)"
  shows "reads p s (asm_expect_close p)"
proof -
  have l: "lexes p ASM_TOK_RBRACKET '']'' 0 s" by (rule lexes_punct0 [OF assms]) (simp add: asm_puncts)
  then show ?thesis
    using lexes_reads [OF l] lexes_peek(1,4) [OF l]
    by (simp add: asm_expect_close_def asm_parser_expect_def case_prod_beta)
qed

text \<open>A signed displacement: a sign and a number.\<close>

lemma plus_ld_cases:
  obtains (plus) n where "fmt_plus_ld (sint (w :: 64 word)) = CHR ''+'' # fmt_nat 10 n" "of_nat n = w"
  | (minus) n where "fmt_plus_ld (sint w) = CHR ''-'' # fmt_nat 10 n" "- of_nat n = w"
proof (cases "sint w < 0")
  case True
  have "of_nat (nat (- sint w)) = (of_int (- sint w) :: 64 word)" using True by simp
  then have "- of_nat (nat (- sint w)) = w" by simp
  then show ?thesis using minus [of "nat (- sint w)"] True by (simp add: fmt_plus_ld_def fmt_ld_def)
next
  case False
  have "of_nat (nat (sint w)) = (of_int (sint w) :: 64 word)" using False by simp
  then have "of_nat (nat (sint w)) = w" by simp
  then show ?thesis using plus [of "nat (sint w)"] False by (simp add: fmt_plus_ld_def fmt_ld_def)
qed

lemma asm_number_lexes0: "at p (fmt_nat 10 n @ s) \<Longrightarrow> leaves is_word_char s \<Longrightarrow>
    lexes p ASM_TOK_NUMBER (fmt_nat 10 n) (of_nat n) s"
  using asm_number_lexes [of p "[]" n s] by simp

definition sign_tok :: "64 word \<Rightarrow> AsmTokenType" where
  "sign_tok w = (if sint w < 0 then ASM_TOK_MINUS else ASM_TOK_PLUS)"

lemma lexes_disp:
  assumes "at p (fmt_plus_ld (sint w) @ s)" "leaves is_word_char s"
  obtains n v t where "lexes p (sign_tok w) t 0 (fmt_nat 10 n @ s)"
    "lexes (snd (asm_parser_next p)) ASM_TOK_NUMBER (fmt_nat 10 n) v s"
    "(if sign_tok w = ASM_TOK_MINUS then - v else v) = w"
proof (cases w rule: plus_ld_cases)
  case (plus n)
  then have sg: "sign_tok w = ASM_TOK_PLUS"
    by (auto simp: sign_tok_def fmt_plus_ld_def fmt_ld_def split: if_splits)
  have l: "lexes p (sign_tok w) ''+'' 0 (fmt_nat 10 n @ s)" unfolding sg
    by (rule lexes_punct0) (use assms(1) plus in \<open>simp_all add: asm_puncts\<close>)
  show ?thesis
    by (rule that [OF l asm_number_lexes0 [OF reads_at [OF lexes_reads [OF l]] assms(2)]])
      (use sg plus in simp)
next
  case (minus n)
  then have sg: "sign_tok w = ASM_TOK_MINUS"
    by (auto simp: sign_tok_def fmt_plus_ld_def fmt_ld_def split: if_splits)
  have l: "lexes p (sign_tok w) ''-'' 0 (fmt_nat 10 n @ s)" unfolding sg
    by (rule lexes_punct0) (use assms(1) minus in \<open>simp_all add: asm_puncts\<close>)
  show ?thesis
    by (rule that [OF l asm_number_lexes0 [OF reads_at [OF lexes_reads [OF l]] assms(2)]])
      (use sg minus in simp)
qed

lemma sign_tok_cases: "sign_tok w = ASM_TOK_PLUS \<or> sign_tok w = ASM_TOK_MINUS"
  by (simp add: sign_tok_def)

lemma not_word_chars [simp]: "\<not> is_word_char (CHR '']'')" "\<not> is_word_char (CHR ''+'')"
  "\<not> is_word_char (CHR '','')" "\<not> is_word_char NL" "\<not> is_word_char (CHR ''*'')"
  "\<not> is_word_char (CHR ''-'')" "\<not> is_word_char (CHR '':'')" "\<not> is_word_char SPACE"
  by code_simp+

lemma leaves_plus_ld [simp]: "leaves is_word_char (fmt_plus_ld (sint (w :: 64 word)) @ s)"
  by (cases w rule: plus_ld_cases) simp_all

lemma index_disp_reads:
  assumes "at p (fmt_plus_ld (sint w) @ CHR '']'' # s)"
  shows "\<exists>q. asm_mem_index_disp m p = (m\<lparr>mem_displacement := w, mem_mode := ASM_ADDR_BASE_INDEX_DISP\<rparr>, q) \<and>
    reads p (CHR '']'' # s) q"
proof -
  obtain n v t where l: "lexes p (sign_tok w) t 0 (fmt_nat 10 n @ CHR '']'' # s)"
    "lexes (snd (asm_parser_next p)) ASM_TOK_NUMBER (fmt_nat 10 n) v (CHR '']'' # s)"
    "(if sign_tok w = ASM_TOK_MINUS then - v else v) = w"
    using assms by (rule lexes_disp) simp
  show ?thesis
    using lexes_peek [OF l(1)] lexes_peek [OF l(2)] l(3) sign_tok_cases [of w]
      reads_trans [OF lexes_reads [OF l(1)] lexes_reads [OF l(2)]]
    by (auto simp: asm_mem_index_disp_def Let_def case_prod_beta)
qed

lemma index_disp_none: "at p (CHR '']'' # s) \<Longrightarrow> asm_mem_index_disp m p = (m, p)"
proof -
  assume "at p (CHR '']'' # s)"
  then have "lexes p ASM_TOK_RBRACKET '']'' 0 s" by (rule lexes_punct0) (simp add: asm_puncts)
  then show ?thesis using lexes_peek(1) by (simp add: asm_mem_index_disp_def Let_def)
qed

lemma to_int32_of_nat: "to_int32 (of_nat n) = sint (of_nat n :: 32 word)"
proof -
  have "(ucast (of_nat n :: 64 word) :: 32 word) = of_nat n" by transfer simp
  then show ?thesis by (simp add: to_int32_def)
qed

lemma sint_of_nat_small: "1 \<le> k \<Longrightarrow> k < 2 ^ 31 \<Longrightarrow> sint (of_nat (nat k) :: 32 word) = k"
  by transfer (simp add: signed_take_bit_int_eq_self)

lemma to_int32_small: "1 \<le> k \<Longrightarrow> k < 2 ^ 31 \<Longrightarrow> to_int32 (of_nat (nat k)) = k"
  unfolding to_int32_of_nat by (rule sint_of_nat_small)

lemma scale_reads:
  assumes "at p (CHR ''*'' # fmt_ld k @ s)" "1 \<le> k" "k < 2 ^ 31" "leaves is_word_char s"
  shows "\<exists>q. asm_mem_scale m p = (m\<lparr>mem_scale := k\<rparr>, q) \<and> reads p s q"
proof -
  have f: "fmt_ld k = fmt_nat 10 (nat k)" using assms(2) by (simp add: fmt_ld_def)
  have l: "lexes p ASM_TOK_STAR ''*'' 0 (fmt_nat 10 (nat k) @ s)"
    by (rule lexes_punct0) (use assms(1) f in \<open>simp_all add: asm_puncts\<close>)
  have n: "lexes (snd (asm_parser_next p)) ASM_TOK_NUMBER (fmt_nat 10 (nat k)) (of_nat (nat k)) s"
    by (rule asm_number_lexes0 [OF reads_at [OF lexes_reads [OF l]] assms(4)])
  show ?thesis
    using lexes_peek [OF l] lexes_peek [OF n] to_int32_small [OF assms(2,3)]
      reads_trans [OF lexes_reads [OF l] lexes_reads [OF n]]
    by (auto simp: asm_mem_scale_def Let_def case_prod_beta)
qed

text \<open>What follows an index without a scale: the closing bracket or a displacement.\<close>

lemma scale_none:
  assumes "at p s" "peek_type p \<noteq> ASM_TOK_STAR"
  shows "asm_mem_scale m p = (m, p)"
  using assms by (simp add: asm_mem_scale_def)

text \<open>The tail of an operand with an index.\<close>

lemma index_tail_reads:
  assumes "at p (CHR ''+'' # reg_text i @ r)" "plain_reg i" "leaves is_word_char r"
    "\<And>p'. reads p r p' \<Longrightarrow> \<exists>p'' q. asm_mem_scale (m\<lparr>mem_index := i, mem_mode := ASM_ADDR_BASE_INDEX\<rparr>) p' = (m1, p'') \<and>
        asm_mem_index_disp m1 p'' = (m2, q) \<and> reads p s q"
  shows "\<exists>q. asm_mem_tail m p = (m2, q) \<and> reads p s q"
proof -
  have l: "lexes p ASM_TOK_PLUS ''+'' 0 (reg_text i @ r)"
    by (rule lexes_punct0) (use assms(1) in \<open>simp_all add: asm_puncts\<close>)
  have a: "at (snd (asm_parser_next p)) ([] @ reg_text i @ r)" using reads_at [OF lexes_reads [OF l]] by simp
  note r = lexes_reg [OF a blanks_Nil plain_reg_text(1) [OF assms(2)] assms(2,3)]
  have n: "lexes (snd (asm_parser_next p)) ASM_TOK_REGISTER (reg_text i) 0 r"
    "reg_from_tok p (asm_parser_peek (snd (asm_parser_next p))) = i"
    using r(1) r(2) [of p] by (simp_all add: asm_next_frame)
  show ?thesis
    using assms(4) [OF reads_trans [OF lexes_reads [OF l] lexes_reads [OF n(1)]]]
      lexes_peek [OF l] lexes_peek [OF n(1)] n(2)
    by (auto simp: asm_mem_tail_def Let_def case_prod_beta)
qed

lemma disp_tail_reads:
  assumes "at p (fmt_plus_ld (sint w) @ CHR '']'' # s)"
  shows "\<exists>q. asm_mem_tail m p = (m\<lparr>mem_displacement := w, mem_mode := ASM_ADDR_BASE_DISP\<rparr>, q) \<and>
    reads p (CHR '']'' # s) q"
proof -
  obtain n v t where l: "lexes p (sign_tok w) t 0 (fmt_nat 10 n @ CHR '']'' # s)"
    "lexes (snd (asm_parser_next p)) ASM_TOK_NUMBER (fmt_nat 10 n) v (CHR '']'' # s)"
    "(if sign_tok w = ASM_TOK_MINUS then - v else v) = w"
    using assms by (rule lexes_disp) simp
  show ?thesis
    using lexes_peek [OF l(1)] lexes_peek [OF l(2)] l(3) sign_tok_cases [of w]
      reads_trans [OF lexes_reads [OF l(1)] lexes_reads [OF l(2)]]
    by (auto simp: asm_mem_tail_def Let_def case_prod_beta)
qed

lemma no_tail: "at p (CHR '']'' # s) \<Longrightarrow> asm_mem_tail m p = (m, p)"
proof -
  assume "at p (CHR '']'' # s)"
  then have "lexes p ASM_TOK_RBRACKET '']'' 0 s" by (rule lexes_punct0) (simp add: asm_puncts)
  then show ?thesis using lexes_peek(1) by (simp add: asm_mem_tail_def Let_def)
qed

lemma peek_close: "at p (CHR '']'' # s) \<Longrightarrow> peek_type p = ASM_TOK_RBRACKET"
proof -
  assume "at p (CHR '']'' # s)"
  then have "lexes p ASM_TOK_RBRACKET '']'' 0 s" by (rule lexes_punct0) (simp add: asm_puncts)
  then show ?thesis by (rule lexes_peek(1))
qed

lemma peek_disp: "at p (fmt_plus_ld (sint (w :: 64 word)) @ s) \<Longrightarrow> peek_type p = sign_tok w"
  by (cases w rule: plus_ld_cases)
    (auto simp: sign_tok_def fmt_plus_ld_def fmt_ld_def asm_puncts split: if_splits
      intro!: lexes_peek(1) [OF lexes_punct0])

text \<open>The optional scale, then what stands before the closing bracket.\<close>

lemma opt_scale_reads:
  assumes "reads p ((if k > 1 then ''*'' @ fmt_ld k else []) @ r) p'" "1 \<le> k" "k < 2 ^ 31"
    "mem_scale m = 1" "leaves is_word_char r" "\<And>q. at q r \<Longrightarrow> peek_type q \<noteq> ASM_TOK_STAR"
  shows "\<exists>p''. asm_mem_scale m p' = (m\<lparr>mem_scale := k\<rparr>, p'') \<and> reads p r p''"
proof (cases "k > 1")
  case True
  then obtain q where "asm_mem_scale m p' = (m\<lparr>mem_scale := k\<rparr>, q)" "reads p' r q"
    using scale_reads [of p' k r m] reads_at [OF assms(1)] assms(2,3,5) by auto
  then show ?thesis using reads_trans [OF assms(1)] by auto
next
  case False
  then have k: "k = 1" "reads p r p'" using assms(1,2) by simp_all
  have "asm_mem_scale m p' = (m, p')"
    by (rule scale_none [OF reads_at [OF k(2)]]) (use assms(6) reads_at [OF k(2)] in blast)
  moreover have "m = m\<lparr>mem_scale := k\<rparr>" using assms(4) k(1) by (cases m) simp
  ultimately show ?thesis using k(2) by auto
qed

lemma base_reads:
  assumes "at p (b @ CHR ''['' # reg_text r @ t)" "blanks b" "plain_reg r" "leaves is_word_char t"
    "\<And>p'. reads p t p' \<Longrightarrow> \<exists>q. asm_mem_tail (asm_mem_base r) p' = (m, q) \<and> reads p (CHR '']'' # s) q"
  shows "\<exists>q. asm_parse_mem p = (True, m, q) \<and> reads p s q"
proof -
  have l: "lexes p ASM_TOK_LBRACKET ''['' 0 (reg_text r @ t)"
    by (rule lexes_punct [OF assms(1,2)]) (simp add: asm_puncts)
  let ?p = "snd (asm_parser_next p)"
  have a: "at ?p ([] @ reg_text r @ t)" using reads_at [OF lexes_reads [OF l]] by simp
  note rr = lexes_reg [OF a blanks_Nil plain_reg_text(1) [OF assms(3)] assms(3,4)]
  have n: "lexes ?p ASM_TOK_REGISTER (reg_text r) 0 t" "reg_from_tok ?p (asm_parser_peek ?p) = r"
    using rr(1) rr(2) [of ?p] by simp_all
  obtain q where q: "asm_mem_tail (asm_mem_base r) (snd (asm_parser_next ?p)) = (m, q)" "reads p (CHR '']'' # s) q"
    using assms(5) [OF reads_trans [OF lexes_reads [OF l] lexes_reads [OF n(1)]]] by blast
  have t: "asm_mem_tail (asm_mem_init\<lparr>mem_base := r, mem_mode := ASM_ADDR_BASE\<rparr>) (snd (asm_parser_next ?p)) = (m, q)"
    using q(1) by (simp add: asm_mem_base_def asm_mem_init_def mem_zero_def)
  show ?thesis
    using t lexes_peek(1) [OF l] lexes_peek(1) [OF n(1)] n(2)
      reads_trans [OF q(2) close_reads [OF reads_at [OF q(2)]]]
    by (simp add: asm_parse_mem_def asm_parser_match_def Let_def case_prod_beta)
qed

text \<open>A base and an index; \<open>r\<close> is what follows the scale.\<close>

lemma index_reads:
  assumes "at p (b @ CHR ''['' # reg_text base @ CHR ''+'' # reg_text i @
      (if k > 1 then ''*'' @ fmt_ld k else []) @ r)" "blanks b" "plain_reg base" "plain_reg i" "1 \<le> k" "k < 2 ^ 31"
    "leaves is_word_char r" "\<And>q. at q r \<Longrightarrow> peek_type q \<noteq> ASM_TOK_STAR"
    "\<And>p'. reads p r p' \<Longrightarrow> \<exists>q. asm_mem_index_disp
        ((asm_mem_base base)\<lparr>mem_index := i, mem_mode := ASM_ADDR_BASE_INDEX, mem_scale := k\<rparr>) p' = (m, q) \<and>
      reads p (CHR '']'' # s) q"
  shows "\<exists>q. asm_parse_mem p = (True, m, q) \<and> reads p s q"
proof (rule base_reads [OF assms(1,2,3)])
  let ?k = "if k > 1 then ''*'' @ fmt_ld k else []"
  let ?m = "(asm_mem_base base)\<lparr>mem_index := i, mem_mode := ASM_ADDR_BASE_INDEX\<rparr>"
  fix p1 assume p1: "reads p (CHR ''+'' # reg_text i @ ?k @ r) p1"
  have l: "leaves is_word_char (?k @ r)" using assms(7) by simp
  have "\<exists>q. asm_mem_tail (asm_mem_base base) p1 = (m, q) \<and> reads p1 (CHR '']'' # s) q"
  proof (rule index_tail_reads [OF reads_at [OF p1] assms(4) l])
    fix p' assume p': "reads p1 (?k @ r) p'"
    have "mem_scale ?m = 1" by (simp add: asm_mem_builders)
    from opt_scale_reads [OF p' assms(5,6) this assms(7,8)]
    obtain p'' where p'': "asm_mem_scale ?m p' = (?m\<lparr>mem_scale := k\<rparr>, p'')" "reads p1 r p''" by blast
    obtain q where q: "asm_mem_index_disp (?m\<lparr>mem_scale := k\<rparr>) p'' = (m, q)" "reads p (CHR '']'' # s) q"
      using assms(9) [OF reads_trans [OF p1 p''(2)]] by auto
    have "reads p1 (CHR '']'' # s) q" using q(2) p1 by (simp add: reads_def)
    then show "\<exists>p'' q. asm_mem_scale ?m p' = (?m\<lparr>mem_scale := k\<rparr>, p'') \<and>
        asm_mem_index_disp (?m\<lparr>mem_scale := k\<rparr>) p'' = (m, q) \<and> reads p1 (CHR '']'' # s) q"
      using p''(1) q(1) by blast
  qed
  then show "\<exists>q. asm_mem_tail (asm_mem_base base) p1 = (m, q) \<and> reads p (CHR '']'' # s) q"
    using reads_trans [OF p1] by blast
qed simp

lemma rel_reads:
  assumes "at p (b @ ''[rel '' @ w @ CHR '']'' # s)" "blanks b" "plain_label w"
  shows "\<exists>q. asm_parse_mem p = (True, asm_mem_rip_rel w, q) \<and> reads p s q"
proof -
  have l: "lexes p ASM_TOK_LBRACKET ''['' 0 (''rel'' @ SPACE # w @ CHR '']'' # s)"
    by (rule lexes_punct) (use assms(1,2) in \<open>simp_all add: asm_puncts\<close>)
  let ?p = "snd (asm_parser_next p)"
  have w1: "word_type ''rel'' = ASM_TOK_IDENT" "plain_word 16 ''rel''" by code_simp+
  have n: "lexes ?p ASM_TOK_IDENT ''rel'' 0 (SPACE # w @ CHR '']'' # s)"
    using lexes_plain_word [of ?p "[]" "''rel''" "SPACE # w @ CHR '']'' # s" 16] w1 reads_at [OF lexes_reads [OF l]]
    by simp
  let ?q = "snd (asm_parser_next ?p)"
  have w: "plain_word ASM_MAX_LABEL_LEN w" "word_type w = ASM_TOK_IDENT" using assms(3) by (simp_all add: plain_label_def)
  have k: "lexes ?q ASM_TOK_IDENT w 0 (CHR '']'' # s)"
    using lexes_plain_word [of ?q "[SPACE]" w "CHR '']'' # s"] w reads_at [OF lexes_reads [OF n]]
    by (simp add: blanks_def)
  have c: "tok_copy ASM_MAX_LABEL_LEN ?p (asm_parser_peek ?q) = w"
    by (rule lexes_copy [OF k]) (use plain_label_facts [OF assms(3)] in \<open>simp_all add: asm_next_frame ASM_MAX_LABEL_LEN_def\<close>)
  have r: "reads p (CHR '']'' # s) (snd (asm_parser_next ?q))"
    by (rule reads_trans [OF reads_trans [OF lexes_reads [OF l] lexes_reads [OF n]] lexes_reads [OF k]])
  have m: "asm_mem_rip_rel w = asm_mem_init\<lparr>mem_mode := ASM_ADDR_RIP_REL, mem_label := w\<rparr>"
    using plain_label_facts [OF assms(3)] by (simp add: asm_mem_rip_rel_def)
  show ?thesis unfolding m
    using lexes_peek(1) [OF l] lexes_peek(1,3) [OF n] lexes_peek(1,4) [OF k] c
      reads_trans [OF r close_reads [OF reads_at [OF r]]]
    by (simp add: asm_parse_mem_def asm_parser_match_def Let_def case_prod_beta)
qed

lemma parse_mem_reads:
  assumes "plain_mem m" "at p (b @ mem_text m @ s)" "blanks b"
  shows "\<exists>q. asm_parse_mem p = (True, m, q) \<and> reads p s q"
proof (cases "mem_mode m")
  case ASM_ADDR_BASE
  then have m: "plain_reg (mem_base m)" "asm_mem_base (mem_base m) = m" using assms(1) by (simp_all add: plain_mem_def)
  show ?thesis
  proof (rule base_reads [of p b "mem_base m" "CHR '']'' # s"])
    fix p' assume "reads p (CHR '']'' # s) p'"
    then show "\<exists>q. asm_mem_tail (asm_mem_base (mem_base m)) p' = (m, q) \<and> reads p (CHR '']'' # s) q"
      using no_tail [OF reads_at] m(2) by auto
  qed (use assms ASM_ADDR_BASE m in \<open>auto simp: mem_text_def\<close>)
next
  case ASM_ADDR_BASE_DISP
  then have m: "plain_reg (mem_base m)" "m = asm_mem_base_disp (mem_base m) (mem_displacement m)"
    using assms(1) by (simp_all add: plain_mem_def)
  have e: "(asm_mem_base (mem_base m))\<lparr>mem_displacement := mem_displacement m, mem_mode := ASM_ADDR_BASE_DISP\<rparr> = m"
    by (subst (3) m(2)) (simp add: asm_mem_builders)
  show ?thesis
  proof (rule base_reads [of p b "mem_base m" "fmt_plus_ld (sint (mem_displacement m)) @ CHR '']'' # s"])
    fix p' assume p': "reads p (fmt_plus_ld (sint (mem_displacement m)) @ CHR '']'' # s) p'"
    obtain q where "asm_mem_tail (asm_mem_base (mem_base m)) p' = (m, q)" "reads p' (CHR '']'' # s) q"
      using disp_tail_reads [OF reads_at [OF p'], of "asm_mem_base (mem_base m)"] unfolding e by blast
    then show "\<exists>q. asm_mem_tail (asm_mem_base (mem_base m)) p' = (m, q) \<and> reads p (CHR '']'' # s) q"
      using reads_trans [OF p'] by blast
  qed (use assms ASM_ADDR_BASE_DISP m in \<open>auto simp: mem_text_def\<close>)
next
  case ASM_ADDR_RIP_REL
  then have m: "plain_label (mem_label m)" "asm_mem_rip_rel (mem_label m) = m" using assms(1) by (simp_all add: plain_mem_def)
  show ?thesis
    using rel_reads [of p b "mem_label m" s] assms(2,3) ASM_ADDR_RIP_REL m by (simp add: mem_text_def)
next
  case ASM_ADDR_BASE_INDEX
  then have m: "plain_reg (mem_base m)" "plain_reg (mem_index m)" "1 \<le> mem_scale m" "mem_scale m < 2 ^ 31"
    "m = asm_mem_base_index (mem_base m) (mem_index m) (mem_scale m)"
    using assms(1) by (simp_all add: plain_mem_def)
  have e: "(asm_mem_base (mem_base m))\<lparr>mem_index := mem_index m, mem_mode := ASM_ADDR_BASE_INDEX, mem_scale := mem_scale m\<rparr> = m"
    by (subst (4) m(5)) (simp add: asm_mem_builders)
  show ?thesis
  proof (rule index_reads [of p b "mem_base m" "mem_index m" "mem_scale m" "CHR '']'' # s"])
    fix p' assume "reads p (CHR '']'' # s) p'"
    then show "\<exists>q. asm_mem_index_disp ((asm_mem_base (mem_base m))\<lparr>mem_index := mem_index m,
        mem_mode := ASM_ADDR_BASE_INDEX, mem_scale := mem_scale m\<rparr>) p' = (m, q) \<and> reads p (CHR '']'' # s) q"
      unfolding e using index_disp_none [OF reads_at] by auto
  qed (use assms m ASM_ADDR_BASE_INDEX peek_close in \<open>auto simp: mem_text_def scaled_text_def\<close>)
next
  case ASM_ADDR_BASE_INDEX_DISP
  then have m: "plain_reg (mem_base m)" "plain_reg (mem_index m)" "1 \<le> mem_scale m" "mem_scale m < 2 ^ 31"
    "m = asm_mem_full (mem_base m) (mem_index m) (mem_scale m) (mem_displacement m)"
    using assms(1) by (simp_all add: plain_mem_def)
  let ?m = "(asm_mem_base (mem_base m))\<lparr>mem_index := mem_index m, mem_mode := ASM_ADDR_BASE_INDEX, mem_scale := mem_scale m\<rparr>"
  have e: "?m\<lparr>mem_displacement := mem_displacement m, mem_mode := ASM_ADDR_BASE_INDEX_DISP\<rparr> = m"
    by (subst (5) m(5)) (simp add: asm_mem_builders)
  let ?d = "fmt_plus_ld (sint (mem_displacement m))"
  show ?thesis
  proof (rule index_reads [of p b "mem_base m" "mem_index m" "mem_scale m" "?d @ CHR '']'' # s"])
    fix p' assume p': "reads p (?d @ CHR '']'' # s) p'"
    then show "\<exists>q. asm_mem_index_disp ?m p' = (m, q) \<and> reads p (CHR '']'' # s) q"
      using index_disp_reads [OF reads_at [OF p'], of ?m] reads_trans [OF p'] unfolding e by blast
  qed (use assms m ASM_ADDR_BASE_INDEX_DISP peek_disp sign_tok_def in \<open>auto simp: mem_text_def scaled_text_def\<close>)
qed (use assms(1) in \<open>simp_all add: plain_mem_def\<close>)

lemma mem_text_open: "plain_mem m \<Longrightarrow> \<exists>t. mem_text m = CHR ''['' # t"
  by (auto simp: plain_mem_def mem_text_def scaled_text_def split: AsmAddrMode.splits)

lemma imm_text:
  assumes "0 \<le> sint (w :: 64 word)"
  shows "fmt_ld (sint w) = fmt_nat 10 (nat (sint w))" "of_nat (nat (sint w)) = w"
proof -
  show "fmt_ld (sint w) = fmt_nat 10 (nat (sint w))" using assms by (simp add: fmt_ld_def)
  have "of_nat (nat (sint w)) = (of_int (sint w) :: 64 word)" using assms by simp
  then show "of_nat (nat (sint w)) = w" by simp
qed

definition operand_start :: "AsmTokenType \<Rightarrow> bool" where
  "operand_start ty \<longleftrightarrow> ty = ASM_TOK_REGISTER \<or> ty = ASM_TOK_NUMBER \<or> ty = ASM_TOK_LBRACKET \<or> ty = ASM_TOK_IDENT"

lemma parse_operand_reads:
  assumes "plain_op op" "at p (b @ op_text op @ s)" "blanks b" "leaves is_word_char s"
  shows "\<exists>q. asm_parse_operand G p = (True, op, q) \<and> reads p s q" "operand_start (peek_type p)"
proof -
  have "(\<exists>q. asm_parse_operand G p = (True, op, q) \<and> reads p s q) \<and> operand_start (peek_type p)"
  proof (cases "op_type op")
    case ASM_OP_REGISTER
    then have o: "plain_reg (op_reg op)" "asm_op_reg (op_reg op) = op" using assms(1) by (simp_all add: plain_op_def)
    have a: "at p (b @ reg_text (op_reg op) @ s)" using assms(2) ASM_OP_REGISTER by (simp add: op_text_def)
    note r = lexes_reg [OF a assms(3) plain_reg_text(1) [OF o(1)] o(1) assms(4)]
    show ?thesis
      using lexes_peek(1) [OF r(1)] r(2) [of p] lexes_reads [OF r(1)] o(2)
      by (simp add: asm_parse_operand_def Let_def operand_start_def)
  next
    case ASM_OP_IMMEDIATE
    then have o: "0 \<le> sint (op_immediate op)" "asm_op_imm (op_immediate op) = op" using assms(1) by (simp_all add: plain_op_def)
    have l: "lexes p ASM_TOK_NUMBER (fmt_nat 10 (nat (sint (op_immediate op)))) (of_nat (nat (sint (op_immediate op)))) s"
      by (rule asm_number_lexes [OF _ assms(3,4)]) (use assms(2) ASM_OP_IMMEDIATE imm_text(1) [OF o(1)] in \<open>simp add: op_text_def\<close>)
    show ?thesis
      using lexes_peek(1,2) [OF l] lexes_reads [OF l] o(2) imm_text(2) [OF o(1)]
      by (simp add: asm_parse_operand_def Let_def operand_start_def)
  next
    case ASM_OP_MEMORY
    then have o: "plain_mem (op_mem op)" "asm_op_mem (op_mem op) = op" using assms(1) by (simp_all add: plain_op_def)
    have a: "at p (b @ mem_text (op_mem op) @ s)" using assms(2) ASM_OP_MEMORY by (simp add: op_text_def)
    obtain t where t: "mem_text (op_mem op) = CHR ''['' # t" using mem_text_open [OF o(1)] by blast
    have l: "lexes p ASM_TOK_LBRACKET ''['' 0 (t @ s)"
      by (rule lexes_punct [OF _ assms(3)]) (use a t in \<open>simp_all add: asm_puncts\<close>)
    obtain q where q: "asm_parse_mem p = (True, op_mem op, q)" "reads p s q"
      using parse_mem_reads [OF o(1) a assms(3)] by blast
    show ?thesis
      using lexes_peek(1) [OF l] q o(2) by (simp add: asm_parse_operand_def Let_def operand_start_def)
  next
    case ASM_OP_LABEL
    then have o: "plain_label (op_label op)" "asm_op_label (op_label op) = op" using assms(1) by (simp_all add: plain_op_def)
    have w: "plain_word ASM_MAX_LABEL_LEN (op_label op)" "word_type (op_label op) = ASM_TOK_IDENT"
      using o(1) by (simp_all add: plain_label_def)
    have l: "lexes p ASM_TOK_IDENT (op_label op) 0 s"
      using lexes_plain_word [of p b "op_label op" s, OF _ assms(3) w(1) assms(4)] assms(2) ASM_OP_LABEL w(2)
      by (simp add: op_text_def)
    have c: "tok_copy ASM_MAX_LABEL_LEN p (asm_parser_peek p) = op_label op"
      by (rule lexes_copy [OF l]) (use plain_label_facts [OF o(1)] in \<open>simp_all add: ASM_MAX_LABEL_LEN_def\<close>)
    show ?thesis
      using lexes_peek(1) [OF l] lexes_reads [OF l] c o(2) by (simp add: asm_parse_operand_def Let_def operand_start_def)
  qed (use assms(1) in \<open>simp add: plain_op_def\<close>)
  then show "\<exists>q. asm_parse_operand G p = (True, op, q) \<and> reads p s q" "operand_start (peek_type p)" by simp_all
qed

section \<open>Lists of operands\<close>

definition tail_text :: "AsmOperand list \<Rightarrow> string" where
  "tail_text ops = concat (map (\<lambda>op. '', '' @ op_text op) ops)"

lemma tail_text_simps [simp]: "tail_text [] = []" "tail_text (op # ops) = CHR '','' # SPACE # op_text op @ tail_text ops"
  by (simp_all add: tail_text_def)

lemma leaves_tail [simp]: "leaves is_word_char (tail_text ops @ NL # r)"
  by (cases ops) simp_all

lemma emit_seq_text: "list_all plain_op ops \<Longrightarrow>
  str_buf (emit_seq (emit_op_x86 null) '', '' ops s) = str_buf s @ tail_text ops"
  by (induction ops arbitrary: s) (simp_all add: emit_op_text c_str_def)

lemma comma_lexes:
  assumes "at p (CHR '','' # s)"
  shows "asm_parser_match p ASM_TOK_COMMA = (True, snd (asm_parser_next p))" "reads p s (snd (asm_parser_next p))"
    "peek_type p = ASM_TOK_COMMA"
proof -
  have l: "lexes p ASM_TOK_COMMA '','' 0 s" by (rule lexes_punct0 [OF assms]) (simp add: asm_puncts)
  show "peek_type p = ASM_TOK_COMMA" "reads p s (snd (asm_parser_next p))"
    by (rule lexes_peek(1) [OF l], rule lexes_reads [OF l])
  then show "asm_parser_match p ASM_TOK_COMMA = (True, snd (asm_parser_next p))" by (simp add: asm_parser_match_def)
qed

lemma newline_peek: "at p (b @ NL # r) \<Longrightarrow> blanks b \<Longrightarrow> peek_type p = ASM_TOK_NEWLINE"
  by (rule lexes_peek(1) [OF lexes_newline])

lemma operand_loop_reads:
  "list_all plain_op ops \<Longrightarrow> at p (tail_text ops @ NL # r) \<Longrightarrow>
   \<exists>q. asm_operand_loop op i p = (Some (foldl asm_instr_add_operand i ops), q) \<and> reads p (NL # r) q"
proof (induction ops arbitrary: op i p)
  case Nil
  then have "peek_type p \<noteq> ASM_TOK_COMMA" using newline_peek [of p "[]" r] by simp
  then show ?case using Nil by (auto simp: asm_operand_loop.simps [of op i p] asm_parser_match_def intro: reads_self)
next
  case (Cons o' ops)
  have a: "at p (CHR '','' # SPACE # op_text o' @ tail_text ops @ NL # r)" using Cons.prems(2) by simp
  note c = comma_lexes [OF a]
  have a1: "at (snd (asm_parser_next p)) ([SPACE] @ op_text o' @ tail_text ops @ NL # r)"
    using reads_at [OF c(2)] by simp
  obtain q where q: "asm_parse_operand op (snd (asm_parser_next p)) = (True, o', q)"
      "reads (snd (asm_parser_next p)) (tail_text ops @ NL # r) q"
    using parse_operand_reads(1) [OF _ a1, of op] Cons.prems(1) by (auto simp: blanks_def)
  obtain q' where q': "asm_operand_loop o' (asm_instr_add_operand i o') q
      = (Some (foldl asm_instr_add_operand (asm_instr_add_operand i o') ops), q')" "reads q (NL # r) q'"
    using Cons.IH [OF _ reads_at [OF q(2)]] Cons.prems(1) by auto
  show ?case
    using c(1,3) q(1) q' reads_trans [OF c(2) reads_trans [OF q(2) q'(2)]]
    by (simp add: asm_operand_loop.simps [of op i p] Let_def)
qed

end
