(* ===== verification/AsmParsing.thy ===== *)
theory AsmParsing
  imports AsmParse
begin

text \<open>
  Properties of the assembler's parser: it reads every input to its end, reports what it cannot
  parse, and drops some of what it can.
\<close>

section \<open>The error flag is never cleared\<close>

lemma asm_ok_label: "asm_ok p (snd (asm_parse_label p))"
  by (cases p rule: asm_parse_label_cases) (auto intro: asm_ok_trans [OF asm_ok_next asm_ok_next])

lemma asm_ok_step: "asm_ok p (snd (asm_block_step G p))"
proof -
  let ?q = "snd (asm_parse_label p)"
  have q: "asm_ok p ?q" by (rule asm_ok_label)
  have d: "asm_ok r (snd (snd (asm_parse_directive G r)))" for r
    by (rule asm_ok_trans [OF asm_ok_next asm_ok_directive])
  have "asm_ok ?q (asm_skip_line (snd (snd (asm_parse_directive G ?q))))"
    by (rule asm_ok_trans [OF d asm_ok_skip_line])
  moreover have "asm_ok ?q (snd (asm_parser_expect (snd (snd (asm_parse_directive G (snd (asm_parser_next ?q))))) ASM_TOK_RBRACKET c))" for c
    by (rule asm_ok_trans [OF asm_ok_trans [OF asm_ok_next d] asm_ok_expect])
  moreover have "asm_ok ?q (asm_skip_line (snd (asm_parse_instruction G ?q)))"
    by (rule asm_ok_trans [OF asm_ok_instruction asm_ok_skip_line])
  ultimately show ?thesis
    using asm_ok_trans [OF q] asm_ok_next [of p] asm_ok_next [of ?q] q
    by (auto simp: asm_block_step_def Let_def case_prod_beta split: prod.splits option.splits)
qed

lemma asm_ok_loop: "asm_ok p (snd (asm_block_loop G g b p))"
proof (induction G g b p rule: asm_block_loop.induct)
  case (1 G g b p)
  show ?case
  proof (cases "peek_type p = ASM_TOK_EOF")
    case False
    have "asm_ok (snd (asm_block_step G p))
        (snd (asm_block_loop G g (block_add g b (fst (asm_block_step G p))) (snd (asm_block_step G p))))"
      by (rule 1 [OF False refl prod.collapse])
    with asm_ok_step show ?thesis
      using False by (auto simp: asm_block_loop.simps [of G g b p] case_prod_beta intro: asm_ok_trans)
  qed (simp add: asm_block_loop.simps [of G g b p])
qed

section \<open>The block loop reads everything\<close>

lemma asm_loop_at_eof: "peek_type (snd (asm_block_loop G g b p)) = ASM_TOK_EOF"
proof (induction G g b p rule: asm_block_loop.induct)
  case (1 G g b p)
  show ?case
  proof (cases "peek_type p = ASM_TOK_EOF")
    case False
    with 1 [OF False refl prod.collapse] show ?thesis
      by (simp add: asm_block_loop.simps [of G g b p] case_prod_beta)
  qed (simp add: asm_block_loop.simps [of G g b p])
qed

lemma block_add_length: "length (blk_elements (block_add g b e)) \<le> length (blk_elements b) + 1"
  by (auto simp: block_add_def asm_block_add_def Let_def split: option.splits)

lemma asm_loop_length:
  "length (blk_elements (fst (asm_block_loop G g b p))) \<le> length (blk_elements b) + (length (ap_source p) - ap_pos p)"
proof (induction G g b p rule: asm_block_loop.induct)
  case (1 G g b p)
  show ?case
  proof (cases "peek_type p = ASM_TOK_EOF")
    case False
    let ?q = "snd (asm_block_step G p)" and ?e = "fst (asm_block_step G p)"
    have "length (blk_elements (fst (asm_block_loop G g (block_add g b ?e) ?q)))
        \<le> length (blk_elements (block_add g b ?e)) + (length (ap_source ?q) - ap_pos ?q)"
      by (rule 1 [OF False refl prod.collapse])
    moreover have "length (ap_source ?q) - ap_pos ?q < length (ap_source p) - ap_pos p"
      by (rule asm_past_measure [OF asm_block_step_past [OF False]])
    ultimately show ?thesis
      using block_add_length [of g b ?e] False by (simp add: asm_block_loop.simps [of G g b p] case_prod_beta)
  qed (simp add: asm_block_loop.simps [of G g b p])
qed

text \<open>C16: parsing a block ends on every input, at the end of the input, with at most one element per
  byte, and answers success exactly when no error was recorded.\<close>
theorem asm_parse_block_total:
  "case asm_parse_block G g p of (ok, b, q) \<Rightarrow>
     peek_type q = ASM_TOK_EOF \<and> length (blk_elements b) \<le> length (ap_source p) - ap_pos p \<and>
     (ok \<longleftrightarrow> \<not> ap_has_error q)"
  using asm_loop_at_eof [of G g asm_block_init p] asm_loop_length [of G g asm_block_init p]
  by (simp add: asm_parse_block_def case_prod_beta asm_block_init_def)

section \<open>Failures are recorded\<close>

lemma asm_ok_has_error: "asm_ok p q \<Longrightarrow> ap_has_error p \<Longrightarrow> ap_has_error q"
  by (simp add: asm_ok_def)

lemma asm_mem_failure: "\<not> fst (asm_parse_mem p) \<Longrightarrow> ap_has_error (snd (snd (asm_parse_mem p)))"
  by (auto simp: asm_parse_mem_def Let_def case_prod_beta split: if_splits)

lemma asm_operand_failure: "\<not> fst (asm_parse_operand op p) \<Longrightarrow> ap_has_error (snd (snd (asm_parse_operand op p)))"
  by (auto simp: asm_parse_operand_def Let_def case_prod_beta asm_mem_failure split: if_splits)

lemma asm_operands_failure:
  "fst (asm_operand_loop op i p) = None \<Longrightarrow> ap_has_error (snd (asm_operand_loop op i p))"
proof (induction op i p rule: asm_operand_loop.induct)
  case (1 op i p)
  let ?r = "asm_parse_operand op (snd (asm_parser_match p ASM_TOK_COMMA))"
  show ?case
  proof (cases "peek_type p = ASM_TOK_COMMA \<and> fst ?r")
    case True
    then have e: "asm_operand_loop op i p
        = asm_operand_loop (fst (snd ?r)) (asm_instr_add_operand i (fst (snd ?r))) (snd (snd ?r))"
      by (simp add: asm_operand_loop.simps [of op i p] Let_def case_prod_beta)
    show ?thesis
      unfolding e using "1.IH" [OF _ refl refl prod.collapse prod.collapse] True "1.prems" e by auto
  next
    case False
    then show ?thesis
      using "1.prems" asm_operand_failure [of op "snd (asm_parser_match p ASM_TOK_COMMA)"]
      by (auto simp: asm_operand_loop.simps [of op i p] Let_def case_prod_beta)
  qed
qed

lemma asm_instruction_failure:
  "fst (asm_parse_instruction G p) = None \<Longrightarrow> ap_has_error (snd (asm_parse_instruction G p))"
  using asm_operand_failure asm_operands_failure
  by (auto simp: asm_parse_instruction_def Let_def case_prod_beta split: if_splits)

text \<open>C20: no instruction is dropped in silence: when a line that begins like one adds no element, the
  whole parse answers failure.\<close>
theorem asm_lost_instruction_is_reported:
  assumes "peek_type p = ASM_TOK_IDENT \<or> peek_type p = ASM_TOK_PREFIX \<or> peek_type p = ASM_TOK_LBRACKET"
    and "fst (asm_block_step G p) = None"
  shows "\<not> fst (asm_parse_block G g p)"
proof -
  have "ap_has_error (snd (asm_block_step G p))"
  proof (cases p rule: asm_parse_label_cases)
    case (label l)
    then show ?thesis using assms by (simp add: asm_block_step_def Let_def)
  next
    case none
    have "ap_has_error (snd (asm_parse_instruction G p))"
      using assms none asm_instruction_failure [of G p]
      by (auto simp: asm_block_step_def Let_def case_prod_beta)
    then have "ap_has_error (asm_skip_line (snd (asm_parse_instruction G p)))"
      by (rule asm_ok_has_error [OF asm_ok_skip_line])
    then show ?thesis using assms none by (auto simp: asm_block_step_def Let_def case_prod_beta)
  qed
  then have "ap_has_error (snd (asm_block_loop G g asm_block_init p))"
    using assms(1) asm_ok_has_error [OF asm_ok_loop]
    by (auto simp: asm_block_loop.simps [of G g asm_block_init p] case_prod_beta)
  then show ?thesis by (simp add: asm_parse_block_def case_prod_beta)
qed

theorem asm_lost_instruction_is_reported_witness:
  "\<not> fst (asm_parse_block op_zero (\<lambda>n. True) (asm_parser_init ''foo ]'' ''a.s''))"
  by (rule asm_lost_instruction_is_reported) code_simp+

text \<open>A directive in brackets is never recognised: a line that begins with a bracket makes the
  parse fail, although the code has a branch for \<open>[org 0x7C00]\<close> and \<open>[bits 16]\<close>.\<close>
theorem asm_bracket_directive_fails:
  assumes "peek_type p = ASM_TOK_LBRACKET"
  shows "\<not> fst (asm_parse_block G g p)"
proof -
  have i: "asm_parse_instruction G p = (None, asm_parser_error p ''expected instruction mnemonic'')"
    using assms by (simp add: asm_parse_instruction_def asm_prefix_loop.simps [of False False p] Let_def)
  have "asm_parse_label p = (None, p)" using assms by (simp add: asm_parse_label_def Let_def)
  then have s: "asm_block_step G p = (None, asm_skip_line (asm_parser_error p ''expected instruction mnemonic''))"
    using assms i by (simp add: asm_block_step_def Let_def)
  have "ap_has_error (asm_skip_line (asm_parser_error p ''expected instruction mnemonic''))"
    by (rule asm_ok_has_error [OF asm_ok_skip_line]) simp
  then have "ap_has_error (snd (asm_block_loop G g asm_block_init p))"
    using assms s asm_ok_has_error [OF asm_ok_loop]
    by (simp add: asm_block_loop.simps [of G g asm_block_init p])
  then show ?thesis by (simp add: asm_parse_block_def case_prod_beta)
qed

theorem asm_bracket_directive_fails_witness:
  "\<not> fst (asm_parse_block op_zero (\<lambda>n. True) (asm_parser_init ''[org 0x7C00]'' ''boot.s''))"
  by (rule asm_bracket_directive_fails) code_simp

text \<open>An operand that begins with a size keeps the type and register of whatever the caller's
  operand held before: in \<open>mov rax, qword [rbx]\<close> the second operand stays the register rax.\<close>
theorem asm_sized_operand_keeps_type:
  assumes "peek_type p = ASM_TOK_SIZE_SPEC" "asm_parse_operand op p = (ok, op', q)"
  shows "op_type op' = op_type op \<and> op_reg op' = op_reg op"
  using assms by (auto simp: asm_parse_operand_def Let_def case_prod_beta)

theorem asm_sized_operand_keeps_type_witness:
  "case asm_parse_operand (asm_op_reg ASM_REG_RAX) (asm_parser_init ''qword [rbx]'' ''a.s'') of (ok, op, q) \<Rightarrow>
     ok \<and> op_type op = ASM_OP_REGISTER \<and> op_reg op = ASM_REG_RAX"
proof -
  let ?r = "asm_parse_operand (asm_op_reg ASM_REG_RAX) (asm_parser_init ''qword [rbx]'' ''a.s'')"
  have "op_type (fst (snd ?r)) = op_type (asm_op_reg ASM_REG_RAX) \<and>
      op_reg (fst (snd ?r)) = op_reg (asm_op_reg ASM_REG_RAX)"
  proof (rule asm_sized_operand_keeps_type)
    show "peek_type (asm_parser_init ''qword [rbx]'' ''a.s'') = ASM_TOK_SIZE_SPEC" by code_simp
    show "?r = (fst ?r, fst (snd ?r), snd (snd ?r))" by simp
  qed
  moreover have "fst ?r" by code_simp
  ultimately show ?thesis by (simp add: case_prod_beta asm_op_reg_def)
qed

section \<open>Data directives\<close>

lemma asm_data_loop_length: "length (fst (snd (asm_data_loop G k p))) \<le> k"
  by (induction k arbitrary: p) (auto simp: Let_def case_prod_beta)

lemma dir_data_lengths:
  "dir_data (fst (dir_with_name ty tys d p)) = dir_data d"
  "dir_data (fst (dir_with_number ty d p)) = dir_data d"
  "length (dir_data (fst (dir_with_data G ty d p))) \<le> ASM_MAX_OPERANDS"
  using asm_data_loop_length [of G ASM_MAX_OPERANDS p]
  by (simp_all add: dir_with_name_def dir_with_number_def dir_with_data_def asm_parse_data_values_def case_prod_beta Let_def)

text \<open>A data directive keeps at most three values, and a line with more of them is accepted:
  the bytes after the third are lost without an error.\<close>
theorem asm_directive_keeps_three_values:
  "length (dir_data (fst (snd (asm_parse_directive G p)))) \<le> 3 \<and>
   (case asm_parse_string op_zero (\<lambda>n. True) ''db 1, 2, 3, 4'' ''a.s'' of (ok, b) \<Rightarrow>
      ok \<and> blk_elements b = [ElemDirective \<lparr>dir_type = ASM_DIR_DB, dir_name = ''db'', dir_value = 0, dir_value2 = 0,
        dir_data = [asm_op_imm 1, asm_op_imm 2, asm_op_imm 3]\<rparr>])"
proof
  show "length (dir_data (fst (snd (asm_parse_directive G p)))) \<le> 3"
    using dir_data_lengths(3) [unfolded ASM_MAX_OPERANDS_def]
    by (simp add: asm_parse_directive_def Let_def case_prod_beta dir_data_lengths dir_zero_def)
qed code_simp

end
