(* ===== verification/AsmRoundTrip.thy ===== *)
theory AsmRoundTrip
  imports AsmOperands AsmParsing
begin

text \<open>
  The x86 backend and the parser of the assembler compose to the identity on plain blocks: labels,
  instructions with plain operands, and the directives that are printed on a line of their own with a
  name, a number or up to three values.  Comments and the directives \<open>org\<close>, \<open>bits\<close> and \<open>times\<close> do not
  survive.
\<close>

section \<open>Instructions\<close>

definition size_word :: "AsmSizeSpec \<Rightarrow> string" where
  "size_word sz = (case sz of ASM_SIZE_BYTE \<Rightarrow> ''byte'' | ASM_SIZE_WORD \<Rightarrow> ''word'' | ASM_SIZE_DWORD \<Rightarrow> ''dword''
     | ASM_SIZE_QWORD \<Rightarrow> ''qword'' | ASM_SIZE_OWORD \<Rightarrow> ''oword'' | _ \<Rightarrow> [])"

definition plain_instr :: "AsmInstruction \<Rightarrow> bool" where
  "plain_instr i \<longleftrightarrow> plain_word ASM_MAX_MNEMONIC_LEN (ins_mnemonic i) \<and> word_type (ins_mnemonic i) = ASM_TOK_IDENT \<and>
     length (ins_operands i) \<le> ASM_MAX_OPERANDS \<and> list_all plain_op (ins_operands i) \<and>
     (if ins_has_size_spec i then size_word (ins_size_spec i) \<noteq> [] else ins_size_spec i = ASM_SIZE_NONE)"

definition prefix_text :: "AsmInstruction \<Rightarrow> string" where
  "prefix_text i = (if ins_is_lock_prefix i then ''lock '' else []) @ (if ins_is_rep_prefix i then ''rep '' else [])"

definition ops_text :: "AsmOperand list \<Rightarrow> string" where
  "ops_text ops = (case ops of [] \<Rightarrow> [] | op # ops' \<Rightarrow> SPACE # op_text op @ tail_text ops')"

definition size_text :: "AsmInstruction \<Rightarrow> string" where
  "size_text i = (if ins_has_size_spec i then SPACE # size_word (ins_size_spec i) @ [SPACE] else [])"

definition instr_text :: "AsmInstruction \<Rightarrow> string" where
  "instr_text i = ''    '' @ prefix_text i @ ins_mnemonic i @ size_text i @ ops_text (ins_operands i)"

lemma ops_text_simps [simp]: "ops_text [] = []" "ops_text (op # ops) = SPACE # op_text op @ tail_text ops"
  by (simp_all add: ops_text_def)

lemma emit_ops_text: "list_all plain_op ops \<Longrightarrow>
  str_buf (emit_seq (emit_op_x86 null) '' '' ops s) = str_buf s @ ops_text ops"
  by (cases ops) (simp_all add: emit_op_text emit_seq_text c_str_def)

lemma emit_instr_text:
  assumes "plain_instr i"
  shows "str_buf (emit_instr_x86 null i s) = str_buf s @ instr_text i @ [NL]"
proof -
  have m: "c_str (ins_mnemonic i) = ins_mnemonic i"
    by (rule c_str_id, rule plain_word_no_nul [where n = ASM_MAX_MNEMONIC_LEN]) (use assms in \<open>simp add: plain_instr_def\<close>)
  have sz: "ins_has_size_spec i \<Longrightarrow> str_buf (emit_size_x86 (ins_size_spec i) s) = str_buf s @ size_word (ins_size_spec i) @ [SPACE]" for s
    using assms by (cases "ins_size_spec i") (simp_all add: plain_instr_def size_word_def c_str_def)
  have o: "str_buf (emit_seq (emit_op_x86 null) '' '' (ins_operands i) s) = str_buf s @ ops_text (ins_operands i)" for s
    using assms by (simp add: plain_instr_def emit_ops_text)
  show ?thesis
    by (simp add: emit_instr_x86_def Let_def o sz m instr_text_def prefix_text_def size_text_def)
qed

lemma prefix_words: "word_type ''lock'' = ASM_TOK_PREFIX" "word_type ''rep'' = ASM_TOK_PREFIX"
  "plain_word 16 ''lock''" "plain_word 16 ''rep''"
  by code_simp+

lemma blanks_simps [simp]: "blanks (SPACE # b) \<longleftrightarrow> blanks b"
  by (simp add: blanks_def)

lemma prefix_step:
  assumes "at p (b @ w @ SPACE # s)" "blanks b" "w = ''lock'' \<or> w = ''rep''"
  shows "asm_prefix_loop l r p = (if w = ''lock'' then asm_prefix_loop True r (snd (asm_parser_next p))
      else asm_prefix_loop l True (snd (asm_parser_next p)))"
    "reads p (SPACE # s) (snd (asm_parser_next p))" "peek_type p = ASM_TOK_PREFIX"
proof -
  have x: "lexes p ASM_TOK_PREFIX w 0 (SPACE # s)"
    using lexes_plain_word [OF assms(1,2), where n = 16] prefix_words assms(3) by auto
  show "asm_prefix_loop l r p = (if w = ''lock'' then asm_prefix_loop True r (snd (asm_parser_next p))
      else asm_prefix_loop l True (snd (asm_parser_next p)))"
    using lexes_peek(1) [OF x] lexes_peek(3) [OF x, of p] by (simp add: asm_prefix_loop.simps [of l r p])
  show "reads p (SPACE # s) (snd (asm_parser_next p))" "peek_type p = ASM_TOK_PREFIX"
    by (rule lexes_reads [OF x], rule lexes_peek(1) [OF x])
qed

text \<open>The prefixes before a mnemonic.\<close>

lemma prefixes_read:
  assumes "at p (b @ prefix_text i @ w @ s)" "blanks b" "plain_word n w" "word_type w = ASM_TOK_IDENT"
    "leaves is_word_char s"
  shows "\<exists>b' q. asm_prefix_loop False False p = (ins_is_lock_prefix i, ins_is_rep_prefix i, q) \<and>
    reads p (b' @ w @ s) q \<and> blanks b' \<and>
    peek_type p = (if prefix_text i = [] then ASM_TOK_IDENT else ASM_TOK_PREFIX)"
proof -
  have stop: "asm_prefix_loop l r q = (l, r, q) \<and> peek_type q = ASM_TOK_IDENT"
    if "reads p (b' @ w @ s) q" "blanks b'" for l r q b'
    using lexes_peek(1) [OF lexes_plain_word [OF reads_at [OF that(1)] that(2) assms(3,5)]] assms(4)
    by (simp add: asm_prefix_loop.simps [of l r q])
  let ?lk = "ins_is_lock_prefix i" and ?rp = "ins_is_rep_prefix i" and ?n = "\<lambda>p. snd (asm_parser_next p)"
  have lk: "asm_prefix_loop l r q = asm_prefix_loop True r (?n q) \<and> reads p (SPACE # t) (?n q) \<and>
      peek_type q = ASM_TOK_PREFIX" if "reads p (b' @ ''lock'' @ SPACE # t) q" "blanks b'" for l r q b' t
    using prefix_step(1) [OF reads_at [OF that(1)] that(2), of l r]
      prefix_step(2,3) [OF reads_at [OF that(1)] that(2)] reads_trans [OF that(1)] by simp
  have rp: "asm_prefix_loop l r q = asm_prefix_loop l True (?n q) \<and> reads p (SPACE # t) (?n q) \<and>
      peek_type q = ASM_TOK_PREFIX" if "reads p (b' @ ''rep'' @ SPACE # t) q" "blanks b'" for l r q b' t
    using prefix_step(1) [OF reads_at [OF that(1)] that(2), of l r]
      prefix_step(2,3) [OF reads_at [OF that(1)] that(2)] reads_trans [OF that(1)] by simp
  have self: "reads p (b @ prefix_text i @ w @ s) p" by (rule reads_self [OF assms(1)])
  show ?thesis
  proof (cases ?lk)
    case True
    note t1 = lk [of b "(if ?rp then ''rep '' else []) @ w @ s" p False False]
    show ?thesis
    proof (cases ?rp)
      case True
      note t2 = rp [of "[SPACE]" "w @ s" "?n p" True False]
      show ?thesis
        using t1 t2 stop [of "[SPACE]" "?n (?n p)"] self assms(2) \<open>?lk\<close> True
        by (intro exI [of _ "[SPACE]"] exI [of _ "?n (?n p)"]) (simp add: prefix_text_def)
    next
      case False
      show ?thesis
        using t1 stop [of "[SPACE]" "?n p"] self assms(2) \<open>?lk\<close> False
        by (intro exI [of _ "[SPACE]"] exI [of _ "?n p"]) (simp add: prefix_text_def)
    qed
  next
    case False
    show ?thesis
    proof (cases ?rp)
      case True
      show ?thesis
        using rp [of b "w @ s" p False False] stop [of "[SPACE]" "?n p"] self assms(2) False True
        by (intro exI [of _ "[SPACE]"] exI [of _ "?n p"]) (simp add: prefix_text_def)
    next
      case 2: False
      show ?thesis
        using stop [of b p] self assms(2) False 2
        by (intro exI [of _ b] exI [of _ p]) (simp add: prefix_text_def)
    qed
  qed
qed

text \<open>The operands of an instruction, up to the end of the line.\<close>

lemma ops_start:
  assumes "list_all plain_op ops" "at p (b @ ops_text ops @ NL # r)" "blanks b"
  shows "if ops = [] then peek_type p = ASM_TOK_NEWLINE else operand_start (peek_type p)"
proof (cases ops)
  case Nil
  then show ?thesis using newline_peek [of p b r] assms(2,3) by simp
next
  case (Cons op ops')
  then show ?thesis
    using parse_operand_reads(2) [of op p "b @ [SPACE]" "tail_text ops' @ NL # r"] assms by (simp add: blanks_def)
qed

lemma ops_read:
  assumes "list_all plain_op (op # ops)" "at p (b @ ops_text (op # ops) @ NL # r)" "blanks b"
  shows "\<exists>q q'. asm_parse_operand G p = (True, op, q) \<and>
    asm_operand_loop op (asm_instr_add_operand i op) q = (Some (foldl asm_instr_add_operand i (op # ops)), q') \<and>
    reads p (NL # r) q'"
proof -
  obtain q where q: "asm_parse_operand G p = (True, op, q)" "reads p (tail_text ops @ NL # r) q"
    using parse_operand_reads(1) [of op p "b @ [SPACE]" "tail_text ops @ NL # r" G] assms by (auto simp: blanks_def)
  obtain q' where "asm_operand_loop op (asm_instr_add_operand i op) q
      = (Some (foldl asm_instr_add_operand (asm_instr_add_operand i op) ops), q')" "reads q (NL # r) q'"
    using operand_loop_reads [OF _ reads_at [OF q(2)]] assms(1) by force
  then show ?thesis using q reads_trans [OF q(2)] by auto
qed

lemma fold_add_operand:
  "length (ins_operands i) + length ops \<le> ASM_MAX_OPERANDS \<Longrightarrow>
   foldl asm_instr_add_operand i ops = i\<lparr>ins_operands := ins_operands i @ ops\<rparr>"
proof (induction ops arbitrary: i)
  case (Cons op ops)
  then show ?case by (simp add: asm_instr_add_operand_def)
qed simp

lemma size_words:
  "size_word sz \<noteq> [] \<Longrightarrow> word_type (size_word sz) = ASM_TOK_SIZE_SPEC \<and> plain_word 16 (size_word sz) \<and>
   size_spec_of (size_word sz) ASM_SIZE_NONE = sz"
proof -
  have "list_all (\<lambda>sz. size_word sz = [] \<or> word_type (size_word sz) = ASM_TOK_SIZE_SPEC \<and>
      plain_word 16 (size_word sz) \<and> size_spec_of (size_word sz) ASM_SIZE_NONE = sz)
    [ASM_SIZE_NONE, ASM_SIZE_BYTE, ASM_SIZE_WORD, ASM_SIZE_DWORD, ASM_SIZE_QWORD, ASM_SIZE_OWORD, ASM_SIZE_TWORD]"
    by code_simp
  then show "size_word sz \<noteq> [] \<Longrightarrow> ?thesis" by (cases sz) simp_all
qed

lemma operand_start_not:
  "operand_start ty \<Longrightarrow> ty \<noteq> ASM_TOK_NEWLINE \<and> ty \<noteq> ASM_TOK_EOF \<and> ty \<noteq> ASM_TOK_COLON \<and> ty \<noteq> ASM_TOK_SIZE_SPEC"
  by (auto simp: operand_start_def)

lemma leaves_ops [simp]: "leaves is_word_char (size_text i @ ops_text ops @ NL # r)"
  by (cases ops) (simp_all add: size_text_def)

text \<open>What stands after the mnemonic: an optional size, then the operands.\<close>

lemma size_reads:
  assumes "plain_instr i" "at p (size_text i @ ops_text (ins_operands i) @ NL # r)"
  shows "\<exists>b q. reads p (b @ ops_text (ins_operands i) @ NL # r) q \<and> blanks b \<and>
    (if ins_has_size_spec i then peek_type p = ASM_TOK_SIZE_SPEC \<and> q = snd (asm_parser_next p) \<and>
        tok_text p (asm_parser_peek p) = size_word (ins_size_spec i)
     else peek_type p \<noteq> ASM_TOK_SIZE_SPEC \<and> q = p) \<and> peek_type p \<noteq> ASM_TOK_COLON"
proof (cases "ins_has_size_spec i")
  case True
  let ?w = "size_word (ins_size_spec i)" and ?o = "ops_text (ins_operands i) @ NL # r"
  have w: "word_type ?w = ASM_TOK_SIZE_SPEC" "plain_word 16 ?w"
    using size_words [of "ins_size_spec i"] assms(1) True by (simp_all add: plain_instr_def)
  have l: "lexes p ASM_TOK_SIZE_SPEC ?w 0 ([SPACE] @ ?o)"
    using lexes_plain_word [of p "[SPACE]" ?w "[SPACE] @ ?o", OF _ _ w(2)] w(1) assms(2) True
    by (simp add: size_text_def blanks_def)
  show ?thesis
    using lexes_reads [OF l] lexes_peek(1) [OF l] lexes_peek(3) [OF l, of p] True
    by (intro exI [of _ "[SPACE]"] exI [of _ "snd (asm_parser_next p)"]) (simp add: blanks_def)
next
  case False
  have o: "list_all plain_op (ins_operands i)" using assms(1) by (simp add: plain_instr_def)
  have "peek_type p \<noteq> ASM_TOK_SIZE_SPEC \<and> peek_type p \<noteq> ASM_TOK_COLON"
    using ops_start [OF o, of p "[]" r] operand_start_not [of "peek_type p"] assms(2) False
    by (auto simp: size_text_def split: if_splits)
  then show ?thesis
    using reads_self [OF assms(2)] False by (intro exI [of _ "[]"] exI [of _ p]) (simp add: size_text_def)
qed

lemma instr_rebuild:
  assumes "plain_instr i"
  shows "foldl asm_instr_add_operand ((asm_instr_init (ins_mnemonic i))\<lparr>ins_is_lock_prefix := ins_is_lock_prefix i,
      ins_is_rep_prefix := ins_is_rep_prefix i, ins_has_size_spec := ins_has_size_spec i,
      ins_size_spec := ins_size_spec i\<rparr>) (ins_operands i) = i"
proof -
  have m: "NUL \<notin> set (ins_mnemonic i)" "length (ins_mnemonic i) < 12"
    using assms plain_word_no_nul [of ASM_MAX_MNEMONIC_LEN "ins_mnemonic i"]
    by (simp_all add: plain_instr_def plain_word_def ASM_MAX_MNEMONIC_LEN_def)
  then have "strncpy_buf ASM_MAX_MNEMONIC_LEN (ins_mnemonic i) = ins_mnemonic i"
    unfolding strncpy_buf_def c_str_def [symmetric] c_str_id [OF m(1)] by (simp add: ASM_MAX_MNEMONIC_LEN_def)
  then show ?thesis
    using assms by (subst fold_add_operand) (simp_all add: plain_instr_def asm_instr_init_def)
qed

lemma no_size_update:
  "ins_has_size_spec (asm_instr_init m) = False" "ins_size_spec (asm_instr_init m) = ASM_SIZE_NONE"
  by (simp_all add: asm_instr_init_def)

lemma parse_instr_reads:
  assumes "plain_instr i" "at p (instr_text i @ NL # r)"
  shows "\<exists>b q. asm_parse_instruction G p = (Some i, q) \<and> reads p (b @ NL # r) q \<and> blanks b"
    "if prefix_text i = [] then peek_type p = ASM_TOK_IDENT \<and> peek_type (snd (asm_parser_next p)) \<noteq> ASM_TOK_COLON
     else peek_type p = ASM_TOK_PREFIX"
proof -
  let ?m = "ins_mnemonic i" and ?s = "size_text i @ ops_text (ins_operands i) @ NL # r"
  have m: "plain_word ASM_MAX_MNEMONIC_LEN ?m" "word_type ?m = ASM_TOK_IDENT" "list_all plain_op (ins_operands i)"
    using assms(1) by (simp_all add: plain_instr_def)
  have a: "at p (''    '' @ prefix_text i @ ?m @ ?s)" using assms(2) by (simp add: instr_text_def)
  obtain b' q where q: "asm_prefix_loop False False p = (ins_is_lock_prefix i, ins_is_rep_prefix i, q)"
    "reads p (b' @ ?m @ ?s) q" "blanks b'" "peek_type p = (if prefix_text i = [] then ASM_TOK_IDENT else ASM_TOK_PREFIX)"
    using prefixes_read [OF a _ m(1,2)] by (auto simp: blanks_def)
  have l: "lexes q ASM_TOK_IDENT ?m 0 ?s"
    using lexes_plain_word [OF reads_at [OF q(2)] q(3) m(1)] m(2) by simp
  have c: "tok_copy ASM_MAX_MNEMONIC_LEN q (asm_parser_peek q) = ?m"
    by (rule lexes_copy [OF l]) (use m(1) plain_word_no_nul [OF m(1)] in \<open>simp_all add: plain_word_def\<close>)
  let ?p1 = "snd (asm_parser_next q)"
  have r1: "reads p ?s ?p1" by (rule reads_trans [OF q(2) lexes_reads [OF l]])
  obtain b q2 where z: "reads ?p1 (b @ ops_text (ins_operands i) @ NL # r) q2" "blanks b"
    "if ins_has_size_spec i then peek_type ?p1 = ASM_TOK_SIZE_SPEC \<and> q2 = snd (asm_parser_next ?p1) \<and>
        tok_text ?p1 (asm_parser_peek ?p1) = size_word (ins_size_spec i)
     else peek_type ?p1 \<noteq> ASM_TOK_SIZE_SPEC \<and> q2 = ?p1" "peek_type ?p1 \<noteq> ASM_TOK_COLON"
    using size_reads [OF assms(1) reads_at [OF r1]] by blast
  let ?i0 = "(asm_instr_init ?m)\<lparr>ins_is_lock_prefix := ins_is_lock_prefix i, ins_is_rep_prefix := ins_is_rep_prefix i\<rparr>"
  let ?i1 = "?i0\<lparr>ins_has_size_spec := ins_has_size_spec i, ins_size_spec := ins_size_spec i\<rparr>"
  have sz: "ins_has_size_spec i \<Longrightarrow> size_spec_of (size_word (ins_size_spec i)) ASM_SIZE_NONE = ins_size_spec i"
    "\<not> ins_has_size_spec i \<Longrightarrow> ?i0 = ?i1"
    using size_words [of "ins_size_spec i"] assms(1) by (simp_all add: plain_instr_def asm_instr_init_def)
  have i1: "(if peek_type ?p1 = ASM_TOK_SIZE_SPEC
      then (?i0\<lparr>ins_has_size_spec := True, ins_size_spec := size_spec_of (tok_text ?p1 (asm_parser_peek ?p1)) ASM_SIZE_NONE\<rparr>,
            snd (asm_parser_next ?p1))
      else (?i0, ?p1)) = (?i1, q2)"
    using z(3) sz by (cases "ins_has_size_spec i") simp_all
  have u: "asm_parse_instruction G p =
      (if peek_type q2 \<noteq> ASM_TOK_NEWLINE \<and> peek_type q2 \<noteq> ASM_TOK_EOF \<and> peek_type q2 \<noteq> ASM_TOK_COLON
       then let (ok, op, p3) = asm_parse_operand G q2
            in if \<not> ok then (None, p3) else asm_operand_loop op (asm_instr_add_operand ?i1 op) p3
       else (Some ?i1, q2))"
    unfolding asm_parse_instruction_def q(1) Let_def prod.case lexes_peek(1) [OF l] c i1 by simp
  show "\<exists>b q. asm_parse_instruction G p = (Some i, q) \<and> reads p (b @ NL # r) q \<and> blanks b"
  proof (cases "ins_operands i")
    case Nil
    have "?i1 = i" using instr_rebuild [OF assms(1)] Nil by simp
    then show ?thesis
      using u ops_start [OF m(3) reads_at [OF z(1)] z(2)] Nil z(1,2) reads_trans [OF r1] by auto
  next
    case (Cons op ops)
    have "list_all plain_op (op # ops)" "at q2 (b @ ops_text (op # ops) @ NL # r)"
      using m(3) reads_at [OF z(1)] Cons by simp_all
    from ops_read [OF this z(2), of G ?i1]
    obtain q3 q' where x: "asm_parse_operand G q2 = (True, op, q3)"
      "asm_operand_loop op (asm_instr_add_operand ?i1 op) q3 = (Some (foldl asm_instr_add_operand ?i1 (op # ops)), q')"
      "reads q2 (NL # r) q'" by blast
    have "foldl asm_instr_add_operand ?i1 (op # ops) = i" using instr_rebuild [OF assms(1)] Cons by simp
    then have "asm_parse_instruction G p = (Some i, q')"
      using u x(1,2) ops_start [OF m(3) reads_at [OF z(1)] z(2)] operand_start_not [of "peek_type q2"] Cons by simp
    moreover have "reads p ([] @ NL # r) q'" using reads_trans [OF r1 reads_trans [OF z(1) x(3)]] by simp
    ultimately show ?thesis using blanks_Nil by blast
  qed
  show "if prefix_text i = [] then peek_type p = ASM_TOK_IDENT \<and> peek_type (snd (asm_parser_next p)) \<noteq> ASM_TOK_COLON
     else peek_type p = ASM_TOK_PREFIX"
    using q(1,4) z(4) by (auto simp: asm_prefix_loop.simps [of False False p])
qed

section \<open>Directives\<close>

definition dir_word :: "AsmDirectiveType \<Rightarrow> string" where
  "dir_word ty = (case ty of
     ASM_DIR_SECTION \<Rightarrow> ''section'' | ASM_DIR_GLOBAL \<Rightarrow> ''global'' | ASM_DIR_EXTERN \<Rightarrow> ''extern''
   | ASM_DIR_ALIGN \<Rightarrow> ''align'' | ASM_DIR_RESB \<Rightarrow> ''resb'' | ASM_DIR_RESW \<Rightarrow> ''resw'' | ASM_DIR_RESD \<Rightarrow> ''resd''
   | ASM_DIR_RESQ \<Rightarrow> ''resq'' | ASM_DIR_DB \<Rightarrow> ''db'' | ASM_DIR_DW \<Rightarrow> ''dw'' | ASM_DIR_DD \<Rightarrow> ''dd''
   | ASM_DIR_DQ \<Rightarrow> ''dq'' | _ \<Rightarrow> [])"

definition name_dirs :: "AsmDirectiveType list" where
  "name_dirs = [ASM_DIR_SECTION, ASM_DIR_GLOBAL, ASM_DIR_EXTERN]"

definition number_dirs :: "AsmDirectiveType list" where
  "number_dirs = [ASM_DIR_ALIGN, ASM_DIR_RESB, ASM_DIR_RESW, ASM_DIR_RESD, ASM_DIR_RESQ]"

definition data_dirs :: "AsmDirectiveType list" where
  "data_dirs = [ASM_DIR_DB, ASM_DIR_DW, ASM_DIR_DD, ASM_DIR_DQ]"

definition plain_dir :: "AsmDirective \<Rightarrow> bool" where
  "plain_dir d \<longleftrightarrow>
     (if List.member name_dirs (dir_type d) then
        plain_label (dir_name d) \<and> d = dir_zero\<lparr>dir_type := dir_type d, dir_name := dir_name d\<rparr>
      else if List.member number_dirs (dir_type d) then
        0 \<le> sint (dir_value d) \<and>
        d = dir_zero\<lparr>dir_type := dir_type d, dir_name := dir_word (dir_type d), dir_value := dir_value d\<rparr>
      else List.member data_dirs (dir_type d) \<and> list_all plain_op (dir_data d) \<and>
        dir_data d \<noteq> [] \<and> length (dir_data d) \<le> ASM_MAX_OPERANDS \<and>
        d = dir_zero\<lparr>dir_type := dir_type d, dir_name := dir_word (dir_type d), dir_data := dir_data d\<rparr>)"

definition dir_text :: "AsmDirective \<Rightarrow> string" where
  "dir_text d = dir_word (dir_type d) @
     (if List.member name_dirs (dir_type d) then SPACE # dir_name d
      else if List.member number_dirs (dir_type d) then SPACE # fmt_ld (sint (dir_value d))
      else ops_text (dir_data d))"

lemma plain_dir_cases:
  assumes "plain_dir d"
  obtains (name) "dir_type d \<in> set name_dirs" "plain_label (dir_name d)"
      "d = dir_zero\<lparr>dir_type := dir_type d, dir_name := dir_name d\<rparr>" "dir_text d = dir_word (dir_type d) @ SPACE # dir_name d"
  | (number) "dir_type d \<in> set number_dirs" "0 \<le> sint (dir_value d)"
      "d = dir_zero\<lparr>dir_type := dir_type d, dir_name := dir_word (dir_type d), dir_value := dir_value d\<rparr>"
      "dir_text d = dir_word (dir_type d) @ SPACE # fmt_nat 10 (nat (sint (dir_value d)))"
  | (data) op ops where "dir_type d \<in> set data_dirs" "list_all plain_op (op # ops)" "length (op # ops) \<le> ASM_MAX_OPERANDS"
      "d = dir_zero\<lparr>dir_type := dir_type d, dir_name := dir_word (dir_type d), dir_data := op # ops\<rparr>"
      "dir_text d = dir_word (dir_type d) @ SPACE # op_text op @ tail_text ops" "dir_data d = op # ops"
proof (cases "dir_type d \<in> set name_dirs")
  case True
  then show ?thesis using name assms by (simp add: plain_dir_def dir_text_def)
next
  case nn: False
  show ?thesis
  proof (cases "dir_type d \<in> set number_dirs")
    case True
    then show ?thesis using number assms nn imm_text(1) by (simp add: plain_dir_def dir_text_def)
  next
    case False
    then obtain op ops where "dir_data d = op # ops" using assms nn by (cases "dir_data d") (simp_all add: plain_dir_def)
    then show ?thesis using data [of op ops] assms nn False by (simp add: plain_dir_def dir_text_def)
  qed
qed

lemma emit_data_text:
  assumes "list_all plain_op (op # ops)" "dir_data d = op # ops" "length n \<le> 8" "NUL \<notin> set n"
  shows "str_buf (emit_data_x86 null n d s) = str_buf s @ n @ SPACE # op_text op @ tail_text ops @ [NL]"
  using assms emit_op_text [of op null] emit_seq_text [of ops null]
  by (simp add: emit_data_x86_def Let_def str_fmt_whole del: str_buf_simps(3))

lemma emit_dir_text:
  assumes "plain_dir d"
  shows "str_buf (emit_dir_x86 null d s) = str_buf s @ dir_text d @ [NL]"
  using assms
proof (cases d rule: plain_dir_cases)
  case name
  then show ?thesis using plain_label_facts [OF name(2)]
    by (auto simp: emit_dir_x86_def Let_def name_dirs_def dir_word_def str_fmt_whole simp del: str_buf_simps(3))
next
  case number
  have "length (fmt_nat 10 (nat (sint (dir_value d)))) \<le> 20" "NUL \<notin> set (fmt_nat 10 (nat (sint (dir_value d))))"
    using fmt_ld_facts(1) [of "dir_value d"] fmt_ld_no_nul [of "sint (dir_value d)"] imm_text(1) [OF number(2)] by simp_all
  then show ?thesis using number(1,4) imm_text(1) [OF number(2)]
    by (auto simp: emit_dir_x86_def Let_def number_dirs_def dir_word_def str_fmt_whole simp del: str_buf_simps(3))
next
  case (data op ops)
  then show ?thesis using emit_data_text [OF data(2,6)]
    by (auto simp: emit_dir_x86_def Let_def data_dirs_def dir_word_def)
qed

lemma data_loop_reads:
  "list_all plain_op (op # ops) \<Longrightarrow> length (op # ops) \<le> k \<Longrightarrow>
   at p (SPACE # op_text op @ tail_text ops @ NL # r) \<Longrightarrow>
   \<exists>q. asm_data_loop G k p = (True, op # ops, q) \<and> reads p (NL # r) q"
proof (induction k arbitrary: op ops p)
  case (Suc k)
  obtain q where q: "asm_parse_operand G p = (True, op, q)" "reads p (tail_text ops @ NL # r) q"
    using parse_operand_reads(1) [of op p "[SPACE]" "tail_text ops @ NL # r" G] Suc.prems by (auto simp: blanks_def)
  show ?case
  proof (cases ops)
    case Nil
    then have "asm_parser_match q ASM_TOK_COMMA = (False, q)"
      using newline_peek [of q "[]" r] reads_at [OF q(2)] by (simp add: asm_parser_match_def)
    then show ?thesis using q Nil by simp
  next
    case (Cons op' ops')
    have a: "at q (CHR '','' # SPACE # op_text op' @ tail_text ops' @ NL # r)" using reads_at [OF q(2)] Cons by simp
    note c = comma_lexes [OF a]
    obtain q' where "asm_data_loop G k (snd (asm_parser_next q)) = (True, op' # ops', q')"
        "reads (snd (asm_parser_next q)) (NL # r) q'"
      using Suc.IH [OF _ _ reads_at [OF c(2)]] Suc.prems(1,2) Cons by auto
    then show ?thesis
      using q c(1) Cons reads_trans [OF q(2) reads_trans [OF c(2)]] by simp
  qed
qed simp

lemma dir_words:
  "list_all (\<lambda>ty. word_type (dir_word ty) = ASM_TOK_DIRECTIVE \<and> plain_word ASM_MAX_LABEL_LEN (dir_word ty))
     (name_dirs @ number_dirs @ data_dirs)"
  by code_simp

lemma parse_dir_reads:
  assumes "plain_dir d" "at p (dir_text d @ NL # r)"
  shows "\<exists>q. asm_parse_directive G p = (True, d, q) \<and> reads p (NL # r) q" "peek_type p = ASM_TOK_DIRECTIVE"
proof -
  let ?w = "dir_word (dir_type d)" and ?p1 = "snd (asm_parser_next p)"
  obtain t where t: "dir_text d = ?w @ SPACE # t" "dir_type d \<in> set (name_dirs @ number_dirs @ data_dirs)"
    using assms(1) by (cases d rule: plain_dir_cases) auto
  have w: "word_type ?w = ASM_TOK_DIRECTIVE" "plain_word ASM_MAX_LABEL_LEN ?w"
    using dir_words t(2) by (auto simp: list_all_iff)
  have l: "lexes p ASM_TOK_DIRECTIVE ?w 0 (SPACE # t @ NL # r)"
    using lexes_plain_word [of p "[]" ?w "SPACE # t @ NL # r", OF _ _ w(2)] w(1) assms(2) t(1) by simp
  have r1: "reads p (SPACE # t @ NL # r) ?p1" by (rule lexes_reads [OF l])
  have c: "tok_copy ASM_MAX_LABEL_LEN p (asm_parser_peek p) = ?w"
    by (rule lexes_copy [OF l]) (use w(2) plain_word_no_nul [OF w(2)] in \<open>simp_all add: plain_word_def\<close>)
  show "peek_type p = ASM_TOK_DIRECTIVE" by (rule lexes_peek(1) [OF l])
  note head = lexes_peek(1) [OF l] lexes_peek(3) [OF l, of p] lexes_peek(4) [OF l] c
  show "\<exists>q. asm_parse_directive G p = (True, d, q) \<and> reads p (NL # r) q"
    using assms(1)
  proof (cases d rule: plain_dir_cases)
    case name
    let ?n = "dir_name d" and ?q = "snd (asm_parser_next ?p1)"
    have n: "plain_word ASM_MAX_LABEL_LEN ?n" "word_type ?n = ASM_TOK_IDENT" using name(2) by (simp_all add: plain_label_def)
    have k: "lexes ?p1 ASM_TOK_IDENT ?n 0 (NL # r)"
      using lexes_plain_word [of ?p1 "[SPACE]" ?n "NL # r", OF _ _ n(1)] n(2) reads_at [OF r1] t(1) name(4)
      by (simp add: blanks_def)
    have e: "tok_copy ASM_MAX_LABEL_LEN ?p1 (asm_parser_peek ?p1) = ?n"
      by (rule lexes_copy [OF k]) (use n(1) plain_word_no_nul [OF n(1)] in \<open>simp_all add: plain_word_def\<close>)
    have "asm_parse_directive G p = (True, dir_zero\<lparr>dir_type := dir_type d, dir_name := ?n\<rparr>, ?q)"
      using name(1) head lexes_peek(1,4) [OF k] e
      by (auto simp: asm_parse_directive_def dir_with_name_def Let_def case_prod_beta name_dirs_def dir_word_def dir_zero_def)
    then show ?thesis using name(3) reads_trans [OF r1 lexes_reads [OF k]] by simp
  next
    case number
    let ?v = "nat (sint (dir_value d))" and ?q = "snd (asm_parser_next ?p1)"
    have k: "lexes ?p1 ASM_TOK_NUMBER (fmt_nat 10 ?v) (of_nat ?v) (NL # r)"
      using asm_number_lexes [of ?p1 "[SPACE]" ?v "NL # r"] reads_at [OF r1] t(1) number(4) by (simp add: blanks_def)
    have "asm_parse_directive G p
        = (True, dir_zero\<lparr>dir_type := dir_type d, dir_name := ?w, dir_value := dir_value d\<rparr>, ?q)"
      using number(1) head lexes_peek(1,2,4) [OF k] imm_text(2) [OF number(2)]
      by (auto simp: asm_parse_directive_def dir_with_number_def Let_def case_prod_beta number_dirs_def dir_word_def dir_zero_def)
    then show ?thesis using number(3) reads_trans [OF r1 lexes_reads [OF k]] by simp
  next
    case (data op ops)
    have a: "at ?p1 (SPACE # op_text op @ tail_text ops @ NL # r)" proof -
      have "t = op_text op @ tail_text ops" using t(1) data(5) by simp
      then show ?thesis using reads_at [OF r1] by simp
    qed
    obtain q where q: "asm_data_loop G ASM_MAX_OPERANDS ?p1 = (True, op # ops, q)" "reads ?p1 (NL # r) q"
      using data_loop_reads [OF data(2,3) a] by blast
    have "asm_parse_directive G p
        = (True, dir_zero\<lparr>dir_type := dir_type d, dir_name := ?w, dir_data := op # ops\<rparr>, q)"
      using data(1) head q(1)
      by (auto simp: asm_parse_directive_def dir_with_data_def asm_parse_data_values_def Let_def case_prod_beta
          data_dirs_def dir_word_def dir_zero_def)
    then show ?thesis using data(4) reads_trans [OF r1 q(2)] by simp
  qed
qed

text \<open>The first byte of a token, which \<open>asm_parse_label\<close> looks at.\<close>

lemma label_first:
  assumes "lexes p ty w v s" "w \<noteq> []"
  shows "asm_peek (p\<lparr>ap_pos := atk_start (asm_parser_peek p)\<rparr>) = hd w"
proof -
  have t: "take (atk_len (asm_parser_peek p)) (drop (atk_start (asm_parser_peek p)) (ap_source p)) = w"
    using lexes_peek(3) [OF assms(1), of p] by (simp add: tok_text_def)
  then have "drop (atk_start (asm_parser_peek p)) (ap_source p) \<noteq> []" using assms(2) by auto
  moreover have "hd w = hd (drop (atk_start (asm_parser_peek p)) (ap_source p))"
    using t assms(2) by (metis hd_take take_eq_Nil2 neq0_conv)
  ultimately show ?thesis by (simp add: asm_peek_def hd_drop_conv_nth not_le)
qed

section \<open>Blocks\<close>

definition plain_elem :: "AsmElement \<Rightarrow> bool" where
  "plain_elem e = (case e of
     ElemInstruction i \<Rightarrow> plain_instr i
   | ElemDirective d \<Rightarrow> plain_dir d
   | ElemLabel l \<Rightarrow> plain_label (lab_name l) \<and> \<not> lab_is_global l \<and> lab_is_local l = (hd (lab_name l) = CHR ''.'')
   | ElemComment c \<Rightarrow> False)"

definition elem_text :: "AsmElement \<Rightarrow> string" where
  "elem_text e = (case e of ElemInstruction i \<Rightarrow> instr_text i | ElemDirective d \<Rightarrow> dir_text d
     | ElemLabel l \<Rightarrow> lab_name l @ '':'' | ElemComment c \<Rightarrow> [])"

lemma emit_elem_text: "plain_elem e \<Longrightarrow> str_buf (emit_elem_x86 null e s) = str_buf s @ elem_text e @ [NL]"
proof (cases e)
  case (ElemLabel l)
  assume "plain_elem e"
  then have "plain_label (lab_name l)" using ElemLabel by (simp add: plain_elem_def)
  then show ?thesis
    using ElemLabel plain_label_facts [of "lab_name l"]
    by (simp add: elem_text_def str_fmt_whole del: str_buf_simps(3))
qed (simp_all add: plain_elem_def elem_text_def emit_instr_text emit_dir_text)

lemma emit_block_text:
  assumes "list_all plain_elem (blk_elements b)"
  shows "str_buf (emit_block_x86 null b) = concat (map (\<lambda>e. elem_text e @ [NL]) (blk_elements b))"
proof -
  have "list_all plain_elem es \<Longrightarrow> str_buf (emit_list (emit_elem_x86 null) es s)
      = str_buf s @ concat (map (\<lambda>e. elem_text e @ [NL]) es)" for es s
    by (induction es arbitrary: s) (simp_all add: emit_list_def emit_elem_text)
  then show ?thesis using assms by (simp add: emit_block_x86_def)
qed

lemma skip_line_stop: "at p (b @ NL # r) \<Longrightarrow> blanks b \<Longrightarrow> asm_skip_line p = p"
  using newline_peek [of p b r] by (simp add: asm_skip_line.simps [of p])

text \<open>One element is read back by one round of the loop, up to the end of its line.\<close>

lemma step_reads:
  assumes "plain_elem e" "at p (elem_text e @ NL # r)"
  shows "\<exists>b q. asm_block_step G p = (Some e, q) \<and> reads p (b @ NL # r) q \<and> blanks b \<and>
    peek_type p \<noteq> ASM_TOK_EOF"
proof (cases e)
  case (ElemInstruction i)
  then have i: "plain_instr i" "at p (instr_text i @ NL # r)"
    using assms by (simp_all add: plain_elem_def elem_text_def)
  obtain b q where q: "asm_parse_instruction G p = (Some i, q)" "reads p (b @ NL # r) q" "blanks b"
    using parse_instr_reads(1) [OF i] by blast
  have "asm_parse_label p = (None, p)"
    using parse_instr_reads(2) [OF i] by (cases p rule: asm_parse_label_cases) (auto split: if_splits)
  then show ?thesis
    using q parse_instr_reads(2) [OF i] skip_line_stop [OF reads_at [OF q(2)] q(3)] ElemInstruction
    by (auto simp: asm_block_step_def Let_def split: if_splits)
next
  case (ElemDirective d)
  then have d: "plain_dir d" "at p (dir_text d @ NL # r)"
    using assms by (simp_all add: plain_elem_def elem_text_def)
  obtain q where q: "asm_parse_directive G p = (True, d, q)" "reads p ([] @ NL # r) q"
    using parse_dir_reads(1) [OF d] by auto
  have t: "peek_type p = ASM_TOK_DIRECTIVE" by (rule parse_dir_reads(2) [OF d])
  have "asm_parse_label p = (None, p)"
    using t by (cases p rule: asm_parse_label_cases) auto
  then show ?thesis
    using q t skip_line_stop [OF reads_at [OF q(2)] blanks_Nil] ElemDirective
    by (auto simp: asm_block_step_def Let_def intro!: exI [of _ "[]"])
next
  case (ElemLabel l)
  let ?n = "lab_name l" and ?p1 = "snd (asm_parser_next p)"
  have n: "plain_word ASM_MAX_LABEL_LEN ?n" "word_type ?n = ASM_TOK_IDENT"
    using assms(1) ElemLabel by (simp_all add: plain_elem_def plain_label_def)
  have a: "at p (?n @ CHR '':'' # NL # r)" using assms(2) ElemLabel by (simp add: elem_text_def)
  have k: "lexes p ASM_TOK_IDENT ?n 0 (CHR '':'' # NL # r)"
    using lexes_plain_word [of p "[]" ?n "CHR '':'' # NL # r", OF _ _ n(1)] a n(2) by simp
  have c: "lexes ?p1 ASM_TOK_COLON '':'' 0 (NL # r)"
    by (rule lexes_punct0 [OF reads_at [OF lexes_reads [OF k]]]) (simp add: asm_puncts)
  have e: "tok_copy ASM_MAX_LABEL_LEN p (asm_parser_peek p) = ?n"
    by (rule lexes_copy [OF k]) (use n(1) plain_word_no_nul [OF n(1)] in \<open>simp_all add: plain_word_def\<close>)
  have f: "asm_peek (p\<lparr>ap_pos := atk_start (asm_parser_peek p)\<rparr>) = hd ?n"
    using label_first [OF k] n(1) by (simp add: plain_word_def)
  have "asm_parse_label p = (Some l, snd (asm_parser_next ?p1))"
    using lexes_peek(1) [OF k] lexes_peek(1) [OF c] e f assms(1) ElemLabel
    by (cases l) (simp add: asm_parse_label_def Let_def plain_elem_def)
  then show ?thesis
    using lexes_peek(1) [OF k] ElemLabel reads_trans [OF lexes_reads [OF k] lexes_reads [OF c]]
    by (auto simp: asm_block_step_def Let_def intro!: exI [of _ "[]"])
qed (use assms in \<open>simp add: plain_elem_def\<close>)

lemma newline_step:
  assumes "at p (b @ NL # r)" "blanks b"
  shows "asm_block_step G p = (None, snd (asm_parser_next p))" "reads p r (snd (asm_parser_next p))"
    "peek_type p = ASM_TOK_NEWLINE"
  using lexes_reads [OF lexes_newline [OF assms]] newline_peek [OF assms]
  by (simp_all add: asm_block_step_def Let_def)

lemma block_add_elements:
  "blk_elements (block_add (\<lambda>n. True) b (Some e)) = blk_elements b @ [e]"
  "block_add (\<lambda>n. True) b None = b"
  by (simp_all add: block_add_def asm_block_add_def Let_def)

lemma loop_reads:
  "list_all plain_elem es \<Longrightarrow> at p (concat (map (\<lambda>e. elem_text e @ [NL]) es)) \<Longrightarrow>
   \<exists>b' q. asm_block_loop G (\<lambda>n. True) b p = (b', q) \<and> blk_elements b' = blk_elements b @ es \<and> reads p [] q"
proof (induction es arbitrary: b p)
  case Nil
  then have "peek_type p = ASM_TOK_EOF" using lexes_peek(1) [OF lexes_eof] by simp
  then show ?case using Nil reads_self [of p "[]"] by (simp add: asm_block_loop.simps [of G "\<lambda>n. True" b p])
next
  case (Cons e es)
  let ?t = "concat (map (\<lambda>e. elem_text e @ [NL]) es)"
  obtain c q where q: "asm_block_step G p = (Some e, q)" "reads p (c @ NL # ?t) q" "blanks c"
      "peek_type p \<noteq> ASM_TOK_EOF"
    using step_reads [of e p ?t G] Cons.prems by auto
  note n = newline_step [OF reads_at [OF q(2)] q(3)]
  obtain b' q' where r: "asm_block_loop G (\<lambda>n. True) (block_add (\<lambda>n. True) b (Some e)) (snd (asm_parser_next q)) = (b', q')"
      "blk_elements b' = blk_elements b @ e # es" "reads (snd (asm_parser_next q)) [] q'"
    using Cons.IH [OF _ reads_at [OF n(2)], of "block_add (\<lambda>n. True) b (Some e)"] Cons.prems(1)
    by (auto simp: block_add_elements)
  have "asm_block_loop G (\<lambda>n. True) b p = (b', q')"
    using q(1,4) n(1) [of G] n(3) r(1)
    by (simp add: asm_block_loop.simps [of G "\<lambda>n. True" b p] asm_block_loop.simps [of G "\<lambda>n. True" _ q] block_add_elements)
  then show ?case using r(2) reads_trans [OF q(2) reads_trans [OF n(2) r(3)]] by auto
qed

text \<open>C1: a plain block printed by the x86 backend parses back to the same elements, without error,
  when memory is granted.\<close>
theorem x86_round_trip:
  assumes "list_all plain_elem (blk_elements b)"
  shows "case asm_parse_string G (\<lambda>n. True) (str_buf (emit_block_x86 null b)) f of (ok, b') \<Rightarrow>
    ok \<and> blk_elements b' = blk_elements b"
proof -
  let ?s = "str_buf (emit_block_x86 null b)"
  have n: "NUL \<notin> set ?s" using x86.block_fits [of null b] by (simp add: str_inv_def)
  have a: "at (asm_parser_init ?s f) (concat (map (\<lambda>e. elem_text e @ [NL]) (blk_elements b)))"
    using n emit_block_text [OF assms, of null] by (simp add: at_def asm_parser_init_def)
  obtain b' q where r: "asm_block_loop G (\<lambda>n. True) asm_block_init (asm_parser_init ?s f) = (b', q)"
      "blk_elements b' = blk_elements b" "reads (asm_parser_init ?s f) [] q"
    using loop_reads [OF assms a, of G asm_block_init] by (auto simp: asm_block_init_def)
  have "\<not> ap_has_error q" using r(3) by (simp add: reads_def asm_meta_def asm_parser_init_def)
  then show ?thesis
    unfolding asm_parse_string_def c_str_def [symmetric] c_str_id [OF n]
    using r(1,2) by (simp add: asm_parse_block_def)
qed

text \<open>A small program: a label, prefixes, sizes, every kind of operand, a section and data.\<close>

definition sample_block :: AsmIRBlock where
  "sample_block = asm_block_init\<lparr>blk_elements := [
     ElemDirective (dir_zero\<lparr>dir_type := ASM_DIR_SECTION, dir_name := ''.text''\<rparr>),
     ElemLabel \<lparr>lab_name = ''.loop'', lab_is_global = False, lab_is_local = True\<rparr>,
     ElemInstruction \<lparr>ins_mnemonic = ''add'', ins_operands = [asm_op_mem (asm_mem_full ASM_REG_RAX ASM_REG_RBX 4 (- 8)),
       asm_op_imm 5], ins_has_size_spec = True, ins_size_spec = ASM_SIZE_DWORD, ins_is_lock_prefix = True,
       ins_is_rep_prefix = False\<rparr>,
     ElemInstruction ((asm_instr_init ''jmp'')\<lparr>ins_operands := [asm_op_label ''.loop'']\<rparr>),
     ElemDirective (dir_zero\<lparr>dir_type := ASM_DIR_DB, dir_name := ''db'', dir_data := [asm_op_imm 0, asm_op_imm 255]\<rparr>)]\<rparr>"

theorem x86_round_trip_witness:
  "case asm_parse_string op_zero (\<lambda>n. True) (str_buf (emit_block_x86 ''(null)'' sample_block)) ''a.s'' of (ok, b') \<Rightarrow>
    ok \<and> blk_elements b' = blk_elements sample_block"
  by (rule x86_round_trip) code_simp


end
