(* ===== verification/AsmRiscv64.thy ===== *)
theory AsmRiscv64
  imports AsmOutput
begin

text \<open>
  The RISC-V backend (\<open>src/asm_backend_riscv64.c\<close>): mnemonics and registers are renamed by tables, operands
  are printed in the target's syntax.  Names end with \<open>_riscv64\<close>.
\<close>

definition map_reg_riscv64 :: "AsmRegister \<Rightarrow> string" where
  "map_reg_riscv64 reg = (case asm_reg_name reg ASM_ARCH_RISCV64 of Some n \<Rightarrow> n | None \<Rightarrow> ''a0'')"

definition emit_mem_riscv64 :: "AsmMem \<Rightarrow> Str \<Rightarrow> Str" where
  "emit_mem_riscv64 mem s =
     (case mem_mode mem of
        ASM_ADDR_BASE \<Rightarrow> str_fmt (''('' @ map_reg_riscv64 (mem_base mem) @ '')'') s
      | ASM_ADDR_BASE_DISP \<Rightarrow>
          str_fmt (fmt_ld (sint (mem_displacement mem)) @ ''('' @ map_reg_riscv64 (mem_base mem) @ '')'') s
      | ASM_ADDR_BASE_INDEX \<Rightarrow> str_fmt (''('' @ map_reg_riscv64 (mem_base mem) @ '')'') s
      | ASM_ADDR_BASE_INDEX_DISP \<Rightarrow>
          str_fmt (fmt_ld (sint (mem_displacement mem)) @ ''('' @ map_reg_riscv64 (mem_base mem) @ '')'') s
      | ASM_ADDR_RIP_REL \<Rightarrow> str_fmt (''('' @ c_str (mem_label mem) @ '')'') s
      | ASM_ADDR_DIRECT \<Rightarrow>
          if c_str (mem_label mem) \<noteq> [] then str_fmt (''('' @ c_str (mem_label mem) @ '')'') s
          else str_fmt (''('' @ fmt_ld (sint (mem_displacement mem)) @ '')'') s
      | ASM_ADDR_NONE \<Rightarrow> str_app ''(a0)'' s)"

definition emit_op_riscv64 :: "AsmOperand \<Rightarrow> Str \<Rightarrow> Str" where
  "emit_op_riscv64 op s =
     (case op_type op of
        ASM_OP_REGISTER \<Rightarrow> str_app (map_reg_riscv64 (op_reg op)) s
      | ASM_OP_IMMEDIATE \<Rightarrow> str_fmt (fmt_ld (sint (op_immediate op))) s
      | ASM_OP_MEMORY \<Rightarrow> emit_mem_riscv64 (op_mem op) s
      | ASM_OP_LABEL \<Rightarrow> str_app (op_label op) s
      | ASM_OP_EXPR \<Rightarrow> str_app (op_expr op) s)"

definition mnemonics_riscv64 :: "(string \<times> string) list" where
  "mnemonics_riscv64 = [
     (''mov'', ''mv''), (''add'', ''add''), (''sub'', ''sub''), (''mul'', ''mul''),
     (''div'', ''divu''), (''and'', ''and''), (''or'', ''or''), (''xor'', ''xor''),
     (''not'', ''not''), (''neg'', ''neg''), (''cmp'', ''sub''), (''ret'', ''ret''),
     (''call'', ''jal''), (''jmp'', ''j''), (''nop'', ''nop''), (''int'', ''ecall''),
     (''syscall'', ''ecall''), (''push'', ''sd''), (''pop'', ''ld''), (''jz'', ''beqz''),
     (''je'', ''beqz''), (''jnz'', ''bnez''), (''jne'', ''bnez''), (''jg'', ''bgt''),
     (''jge'', ''bge''), (''jl'', ''blt''), (''jle'', ''ble'')]"

definition map_mnemonic_riscv64 :: "string \<Rightarrow> string" where
  "map_mnemonic_riscv64 x86 = (case map_of mnemonics_riscv64 x86 of Some m \<Rightarrow> m | None \<Rightarrow> x86)"

text \<open>The test for \<open>push\<close> and \<open>pop\<close> of one register.\<close>

definition stack_op_riscv64 :: "string \<Rightarrow> AsmInstruction \<Rightarrow> bool" where
  "stack_op_riscv64 m instr \<longleftrightarrow> c_str (ins_mnemonic instr) = m \<and> length (ins_operands instr) = 1 \<and>
     op_type (hd (ins_operands instr)) = ASM_OP_REGISTER"

definition emit_instr_riscv64 :: "AsmInstruction \<Rightarrow> Str \<Rightarrow> Str" where
  "emit_instr_riscv64 instr s =
     (let s1 = str_app (map_mnemonic_riscv64 (c_str (ins_mnemonic instr))) (str_app ''    '' s)
      in if stack_op_riscv64 ''push'' instr
         then str_app (''    addi sp, sp, -16'' @ [NL])
              (str_fmt ('' '' @ map_reg_riscv64 (op_reg (hd (ins_operands instr))) @ '', -16(sp)'' @ [NL]) s1)
         else if stack_op_riscv64 ''pop'' instr
         then str_app (''    addi sp, sp, 16'' @ [NL])
              (str_fmt ('' '' @ map_reg_riscv64 (op_reg (hd (ins_operands instr))) @ '', 0(sp)'' @ [NL]) s1)
         else str_app [NL] (emit_seq emit_op_riscv64 '' '' (ins_operands instr) s1))"

text \<open>Data values: only immediates are printed.\<close>

definition emit_value_riscv64 :: "AsmOperand \<Rightarrow> Str \<Rightarrow> Str" where
  "emit_value_riscv64 op s =
     (if op_type op = ASM_OP_IMMEDIATE then str_fmt (fmt_ld (sint (op_immediate op))) s else s)"

definition emit_data_riscv64 :: "string \<Rightarrow> AsmDirective \<Rightarrow> Str \<Rightarrow> Str" where
  "emit_data_riscv64 n dir s =
     str_app [NL] (emit_seq emit_value_riscv64 [] (dir_data dir) (str_app n s))"

definition emit_zero_riscv64 :: "64 word \<Rightarrow> AsmDirective \<Rightarrow> Str \<Rightarrow> Str" where
  "emit_zero_riscv64 k dir s = str_fmt (''.zero '' @ fmt_ld (sint (dir_value dir * k)) @ [NL]) s"

definition emit_dir_riscv64 :: "AsmDirective \<Rightarrow> Str \<Rightarrow> Str" where
  "emit_dir_riscv64 dir s =
     (let name = c_str (dir_name dir) in
      case dir_type dir of
        ASM_DIR_SECTION \<Rightarrow> str_fmt (''.section '' @ name @ [NL]) s
      | ASM_DIR_GLOBAL \<Rightarrow> str_fmt (''.globl '' @ name @ [NL]) s
      | ASM_DIR_EXTERN \<Rightarrow> str_fmt (''.extern '' @ name @ [NL]) s
      | ASM_DIR_ALIGN \<Rightarrow> str_fmt (''.balign '' @ fmt_ld (sint (dir_value dir)) @ [NL]) s
      | ASM_DIR_DB \<Rightarrow> emit_data_riscv64 ''.byte '' dir s
      | ASM_DIR_DW \<Rightarrow> emit_data_riscv64 ''.half '' dir s
      | ASM_DIR_DD \<Rightarrow> emit_data_riscv64 ''.word '' dir s
      | ASM_DIR_DQ \<Rightarrow> emit_data_riscv64 ''.dword '' dir s
      | ASM_DIR_RESB \<Rightarrow> emit_zero_riscv64 1 dir s
      | ASM_DIR_RESW \<Rightarrow> emit_zero_riscv64 2 dir s
      | ASM_DIR_RESD \<Rightarrow> emit_zero_riscv64 4 dir s
      | ASM_DIR_RESQ \<Rightarrow> emit_zero_riscv64 8 dir s
      | _ \<Rightarrow> str_fmt (''# unknown directive: '' @ name @ [NL]) s)"

primrec emit_elem_riscv64 :: "AsmElement \<Rightarrow> Str \<Rightarrow> Str" where
  "emit_elem_riscv64 (ElemInstruction i) s = emit_instr_riscv64 i s"
| "emit_elem_riscv64 (ElemDirective d) s = emit_dir_riscv64 d s"
| "emit_elem_riscv64 (ElemLabel l) s = str_fmt (c_str (lab_name l) @ '':'' @ [NL]) s"
| "emit_elem_riscv64 (ElemComment c) s = str_fmt (''# '' @ c_str c @ [NL]) s"

definition start_riscv64 :: Str where
  "start_riscv64 = str_app (''.text'' @ [NL, NL]) str_init"

definition emit_block_riscv64 :: "AsmIRBlock \<Rightarrow> Str" where
  "emit_block_riscv64 b = emit_list emit_elem_riscv64 (blk_elements b) start_riscv64"

section \<open>The contract of a backend\<close>

lemma appends_mem_riscv64: "appends (emit_mem_riscv64 mem)"
  unfolding emit_mem_riscv64_def [abs_def] by (cases "mem_mode mem") (auto intro!: emit_intro)

lemma appends_op_riscv64: "appends (emit_op_riscv64 op)"
  unfolding emit_op_riscv64_def [abs_def]
  by (cases "op_type op") (auto intro!: emit_intro appends_mem_riscv64)

lemma appends_instr_riscv64: "appends (emit_instr_riscv64 i)"
  unfolding emit_instr_riscv64_def [abs_def] Let_def by (intro emit_intro appends_op_riscv64)

lemma appends_value_riscv64: "appends (emit_value_riscv64 op)"
  unfolding emit_value_riscv64_def [abs_def] by (intro emit_intro)

lemma appends_data_riscv64: "appends (emit_data_riscv64 n d)"
  unfolding emit_data_riscv64_def [abs_def] by (intro emit_intro appends_value_riscv64)

lemma appends_zero_riscv64: "appends (emit_zero_riscv64 k d)"
  unfolding emit_zero_riscv64_def [abs_def] by (intro emit_intro)

lemma appends_dir_riscv64: "appends (emit_dir_riscv64 d)"
  unfolding emit_dir_riscv64_def [abs_def] Let_def
  by (cases "dir_type d") (auto intro!: emit_intro appends_data_riscv64 appends_zero_riscv64)

lemma appends_elem_riscv64: "appends (emit_elem_riscv64 e)"
  by (cases e)
    (auto intro: appends_cong [OF appends_instr_riscv64] appends_cong [OF appends_dir_riscv64] appends_cong [OF appends_fmt])

interpretation riscv64: asm_backend start_riscv64 emit_elem_riscv64 emit_block_riscv64
  by unfold_locales (simp_all add: appends_elem_riscv64 emit_block_riscv64_def start_riscv64_def)

end
