(* ===== verification/AsmBackends.thy ===== *)
theory AsmBackends
  imports AsmX86 AsmArm64 AsmRiscv64
begin

text \<open>
  Properties of the three backends together: what the common contract gives each of them, and what the
  two that translate to another machine lose of the program.
\<close>

lemma concat_blocks:
  "blk_elements (b1\<lparr>blk_elements := blk_elements b1 @ blk_elements b2\<rparr>) = blk_elements b1 @ blk_elements b2"
  by simp

text \<open>C28: every backend translates element by element: the output for the elements of two blocks in
  one is the output for the first followed by the output for the second without its prologue, and
  the text with its terminator fits the buffer.\<close>
theorem backends_compositional:
  fixes b1 b2 :: AsmIRBlock
  defines "b \<equiv> b1\<lparr>blk_elements := blk_elements b1 @ blk_elements b2\<rparr>"
  shows "str_buf (emit_block_x86 null b) = str_buf (emit_block_x86 null b1) @ str_buf (emit_block_x86 null b2) \<and>
    str_buf (emit_block_arm64 b) = str_buf (emit_block_arm64 b1) @
      drop (length (str_buf start_arm64)) (str_buf (emit_block_arm64 b2)) \<and>
    str_buf (emit_block_riscv64 b) = str_buf (emit_block_riscv64 b1) @
      drop (length (str_buf start_riscv64)) (str_buf (emit_block_riscv64 b2)) \<and>
    str_inv (emit_block_x86 null b) \<and> str_inv (emit_block_arm64 b) \<and> str_inv (emit_block_riscv64 b)"
proof -
  have e: "blk_elements b = blk_elements b1 @ blk_elements b2" by (simp add: b_def)
  show ?thesis
    using x86.block_append [OF e, of null] arm64.block_append [OF e] riscv64.block_append [OF e]
      x86.block_fits arm64.block_fits riscv64.block_fits
    by simp
qed

lemma narrow_registers:
  "list_all (\<lambda>r. map_reg_arm64 r = ''x0'' \<and> map_reg_riscv64 r = ''a0'') [ASM_REG_AX..<ASM_REG_XMM0]"
  by (simp add: upt_rec map_reg_arm64_def map_reg_riscv64_def asm_reg_name_def ASM_REG_COUNT_def asm_reg_table_def)

lemma map_reg_narrow:
  assumes "ASM_REG_AX \<le> r" "r < ASM_REG_XMM0"
  shows "map_reg_arm64 r = ''x0''" "map_reg_riscv64 r = ''a0''"
proof -
  have "r \<in> set [ASM_REG_AX..<ASM_REG_XMM0]"
    unfolding set_upt atLeastLessThan_iff using assms by blast
  then show "map_reg_arm64 r = ''x0''" "map_reg_riscv64 r = ''a0''"
    using narrow_registers unfolding list_all_iff by blast+
qed

text \<open>C40: the translating backends print every 8- and 16-bit register as the first argument register, so
  instructions on different narrow registers are translated to the same text.\<close>
theorem narrow_registers_collapse:
  assumes "ASM_REG_AX \<le> r" "r < ASM_REG_XMM0"
  shows "emit_op_arm64 (asm_op_reg r) = emit_op_arm64 (asm_op_reg ASM_REG_RAX) \<and>
    emit_op_riscv64 (asm_op_reg r) = emit_op_riscv64 (asm_op_reg ASM_REG_RAX)"
proof -
  have "map_reg_arm64 ASM_REG_RAX = ''x0''" "map_reg_riscv64 ASM_REG_RAX = ''a0''" by code_simp+
  then show ?thesis
    using map_reg_narrow [OF assms]
    by (simp add: fun_eq_iff emit_op_arm64_def emit_op_riscv64_def asm_op_reg_def)
qed

theorem narrow_registers_collapse_witness:
  "emit_op_arm64 (asm_op_reg ASM_REG_BL) = emit_op_arm64 (asm_op_reg ASM_REG_RAX) \<and>
   emit_op_riscv64 (asm_op_reg ASM_REG_BL) = emit_op_riscv64 (asm_op_reg ASM_REG_RAX)"
  by (rule narrow_registers_collapse) simp_all

text \<open>The translating backends drop lock and repeat prefixes and operand sizes, and the RISC-V
  backend drops the index of an address: programs that differ in them are translated alike.\<close>
theorem translation_drops:
  "emit_instr_arm64 (i\<lparr>ins_is_lock_prefix := lk, ins_is_rep_prefix := rp, ins_has_size_spec := hs, ins_size_spec := sz\<rparr>)
     = emit_instr_arm64 i \<and>
   emit_instr_riscv64 (i\<lparr>ins_is_lock_prefix := lk, ins_is_rep_prefix := rp, ins_has_size_spec := hs, ins_size_spec := sz\<rparr>)
     = emit_instr_riscv64 i \<and>
   emit_mem_riscv64 (asm_mem_base_index base i1 k1) = emit_mem_riscv64 (asm_mem_base base) \<and>
   emit_mem_riscv64 (asm_mem_full base i1 k1 d) = emit_mem_riscv64 (asm_mem_base_disp base d)"
  by (simp add: fun_eq_iff Let_def emit_instr_arm64_def emit_instr_riscv64_def stack_op_arm64_def stack_op_riscv64_def
      emit_mem_riscv64_def asm_mem_base_index_def asm_mem_base_def asm_mem_full_def asm_mem_base_disp_def)

end
