(* ===== verification/Aelib.thy ===== *)
theory Aelib
  imports Prelude
begin

text \<open>
  The library archive (\<open>src/aelib.c\<close>, \<open>include/aether/aelib.h\<close>): the writer, which collects symbols and
  lays out header, code, symbol entries, type data and string table, and the reader.  A file is the
  string of its bytes.  A read outside the mapped file is undefined behaviour and the value \<open>None\<close>.
  The writer's sizes are natural numbers; offsets are stored in 32 bits, as the code stores them.
  \<open>granted n\<close> tells whether an allocation of n bytes or entries succeeds; the copies of names made with
  \<open>strndup\<close> are taken to succeed, as the code does.  The unused type data blob of the writer is left out.
\<close>

section \<open>Words in memory\<close>

text \<open>Storing a word into a packed structure on a little-endian machine, and the readers.\<close>

definition put_word :: "nat \<Rightarrow> 'a :: len word \<Rightarrow> string" where
  "put_word n w = map (\<lambda>i. char_of (unat (take_bit 8 (drop_bit (8 * i) w)))) [0..<n]"

definition uchar :: "char \<Rightarrow> 'a :: len word" where
  "uchar c = of_nat (byte c)"

unbundle bit_operations_syntax

definition le16 :: "string \<Rightarrow> u16" where
  "le16 p = uchar (p ! 0) OR push_bit 8 (uchar (p ! 1))"

definition le32 :: "string \<Rightarrow> u32" where
  "le32 p = uchar (p ! 0) OR push_bit 8 (uchar (p ! 1)) OR push_bit 16 (uchar (p ! 2)) OR push_bit 24 (uchar (p ! 3))"

definition le64 :: "string \<Rightarrow> u64" where
  "le64 p = ucast (le32 p) OR push_bit 32 (ucast (le32 (drop 4 p)))"

definition bytes_at :: "nat \<Rightarrow> string \<Rightarrow> nat \<Rightarrow> string option" where
  "bytes_at n data off = (if off + n \<le> length data then Some (take n (drop off data)) else None)"

definition read_u16 :: "string \<Rightarrow> nat \<Rightarrow> u16 option" where
  "read_u16 data off = map_option le16 (bytes_at 2 data off)"

definition read_u32 :: "string \<Rightarrow> nat \<Rightarrow> u32 option" where
  "read_u32 data off = map_option le32 (bytes_at 4 data off)"

definition read_u64 :: "string \<Rightarrow> nat \<Rightarrow> u64 option" where
  "read_u64 data off = map_option le64 (bytes_at 8 data off)"

section \<open>The writer\<close>

definition AELIB_MAGIC :: string where "AELIB_MAGIC = ''AELIB'' @ [NUL, NUL, NUL]"
definition AEMETA_MAGIC :: string where "AEMETA_MAGIC = ''AEMETA'' @ [NUL, NUL]"
definition AELIB_FLAG_PUBLIC :: u8 where "AELIB_FLAG_PUBLIC = 1"

text \<open>The on-disk structures have 46, 14 and 18 bytes.\<close>

definition HEADER_SIZE :: nat where "HEADER_SIZE = 46"
definition META_HEADER_SIZE :: nat where "META_HEADER_SIZE = 14"
definition SYM_ENTRY_SIZE :: nat where "SYM_ENTRY_SIZE = 18"

record SymEntry =
  sym_name :: string
  sym_kind :: u8
  sym_flags :: u8
  sym_ns :: "string option"
  sym_type_data :: string

record AelibWriter =
  aw_code :: string
  aw_symbols :: "SymEntry list"
  aw_sym_cap :: nat
  aw_strings :: string
  aw_strings_cap :: nat

text \<open>\<open>while (new_cap < needed) new_cap *= 2;\<close>\<close>

function cap_grow :: "nat \<Rightarrow> nat \<Rightarrow> nat" where
  "cap_grow needed cap = (if cap < needed \<and> 0 < cap then cap_grow needed (cap * 2) else cap)"
  by pat_completeness auto
termination
  by (relation "measure (\<lambda>(needed, cap). needed - cap)") auto

declare cap_grow.simps [simp del]

definition string_table_add :: "(nat \<Rightarrow> bool) \<Rightarrow> AelibWriter \<Rightarrow> string \<Rightarrow> u32 \<times> AelibWriter" where
  "string_table_add granted w s =
     (if s = [] then (0, w)
      else let len = length s + 1; needed = length (aw_strings w) + len in
        let cap = (if needed > aw_strings_cap w
                   then cap_grow needed (if aw_strings_cap w \<noteq> 0 then aw_strings_cap w * 2 else 256)
                   else aw_strings_cap w)
        in if needed > aw_strings_cap w \<and> \<not> granted cap then (0, w)
           else (of_nat (length (aw_strings w)), w\<lparr>aw_strings := aw_strings w @ s @ [NUL], aw_strings_cap := cap\<rparr>))"

definition aelib_create :: "(nat \<Rightarrow> bool) \<Rightarrow> AelibWriter option" where
  "aelib_create granted =
     (if granted 256 \<and> granted 1024 \<and> granted 16
      then Some \<lparr>aw_code = [], aw_symbols = [], aw_sym_cap = 16, aw_strings = [NUL], aw_strings_cap = 256\<rparr>
      else None)"

definition aelib_set_code :: "AelibWriter \<Rightarrow> string \<Rightarrow> AelibWriter" where
  "aelib_set_code w data = w\<lparr>aw_code := data\<rparr>"

text \<open>A C string argument stands for the bytes before its NUL; a NULL name counts as empty.\<close>

definition aelib_add_symbol ::
    "(nat \<Rightarrow> bool) \<Rightarrow> AelibWriter \<Rightarrow> string \<Rightarrow> u8 \<Rightarrow> bool \<Rightarrow> string option \<Rightarrow> string \<Rightarrow> int \<times> AelibWriter" where
  "aelib_add_symbol granted w name kind is_pub ns type_data =
     (let grow = length (aw_symbols w) \<ge> aw_sym_cap w in
      if grow \<and> \<not> granted (aw_sym_cap w * 2) then (- 1, w)
      else let w1 = (if grow then w\<lparr>aw_sym_cap := aw_sym_cap w * 2\<rparr> else w);
               ns' = map_option (take 64) ns;
               w2 = snd (string_table_add granted w1 name);
               w3 = (case ns' of None \<Rightarrow> w2 | Some n \<Rightarrow> snd (string_table_add granted w2 n));
               e = \<lparr>sym_name = name, sym_kind = kind, sym_flags = (if is_pub then AELIB_FLAG_PUBLIC else 0),
                    sym_ns = ns', sym_type_data = (if type_data \<noteq> [] \<and> granted (length type_data) then type_data else [])\<rparr>
           in (int (length (aw_symbols w)), w3\<lparr>aw_symbols := aw_symbols w @ [e]\<rparr>))"

text \<open>The scan of the string table for a string: the offset of the first equal one.\<close>

function find_string :: "string \<Rightarrow> string \<Rightarrow> nat option" where
  "find_string tab s =
     (if tab = [] then None
      else let p = takeWhile (\<lambda>c. c \<noteq> NUL) tab in
        if p = s then Some 0
        else map_option ((+) (length p + 1)) (find_string (drop (length p + 1) tab) s))"
  by pat_completeness auto
termination
  by (relation "measure (\<lambda>(tab, s). length tab)") auto

declare find_string.simps [simp del]

definition put_entry :: "u32 \<Rightarrow> u8 \<Rightarrow> u8 \<Rightarrow> u32 \<Rightarrow> u32 \<Rightarrow> u32 \<Rightarrow> string" where
  "put_entry name_off kind flags ns_off td_off td_size =
     put_word 4 name_off @ put_word 1 kind @ put_word 1 flags @ put_word 4 ns_off @ put_word 4 td_off @ put_word 4 td_size"

text \<open>The loop over the symbols; \<open>str_off\<close> is the offset of the string table in the metadata.\<close>

primrec put_entries :: "string \<Rightarrow> u32 \<Rightarrow> u32 \<Rightarrow> SymEntry list \<Rightarrow> string" where
  "put_entries tab str_off td_off [] = []"
| "put_entries tab str_off td_off (e # es) =
     (let name_off = (case find_string tab (sym_name e) of Some o' \<Rightarrow> str_off + of_nat o' | None \<Rightarrow> str_off);
          ns_off = (case sym_ns e of None \<Rightarrow> 0
                    | Some ns \<Rightarrow> (case find_string tab ns of Some o' \<Rightarrow> str_off + of_nat o' | None \<Rightarrow> 0));
          sz = of_nat (length (sym_type_data e))
      in put_entry name_off (sym_kind e) (sym_flags e) ns_off td_off sz @
         put_entries tab str_off (td_off + sz) es)"

definition type_data_of :: "SymEntry list \<Rightarrow> string" where
  "type_data_of es = concat (map sym_type_data es)"

definition put_meta :: "AelibWriter \<Rightarrow> string" where
  "put_meta w =
     (let n = length (aw_symbols w);
          td_off = of_nat (META_HEADER_SIZE + n * SYM_ENTRY_SIZE);
          str_off = td_off + of_nat (length (type_data_of (aw_symbols w)))
      in AEMETA_MAGIC @ put_word 2 (1 :: u16) @ put_word 4 (of_nat n :: u32) @
         put_entries (aw_strings w) str_off td_off (aw_symbols w) @
         type_data_of (aw_symbols w) @ aw_strings w)"

definition put_header :: "u64 \<Rightarrow> u64 \<Rightarrow> u64 \<Rightarrow> u64 \<Rightarrow> string" where
  "put_header code_offset code_size meta_offset meta_size =
     AELIB_MAGIC @ put_word 2 (1 :: u16) @ put_word 2 (0 :: u16) @ put_word 2 (1 :: u16) @
     put_word 8 code_offset @ put_word 8 code_size @ put_word 8 meta_offset @ put_word 8 meta_size"

text \<open>What \<open>aelib_write\<close> answers and leaves in the file, which opens or not.\<close>

definition aelib_write :: "(nat \<Rightarrow> bool) \<Rightarrow> bool \<Rightarrow> AelibWriter \<Rightarrow> int \<times> string" where
  "aelib_write granted opens w =
     (let meta = put_meta w in
      if \<not> opens \<or> \<not> granted (length meta) then (1, [])
      else (0, put_header (of_nat HEADER_SIZE) (of_nat (length (aw_code w)))
                 (of_nat (HEADER_SIZE + length (aw_code w))) (of_nat (length meta)) @ aw_code w @ meta))"

section \<open>The reader\<close>

record AelibReader =
  ar_data :: string
  ar_code_offset :: u64
  ar_code_size :: u64
  ar_meta_offset :: u64
  ar_meta_size :: u64
  ar_sym_count :: int
  ar_sym_table_off :: u64
  ar_string_table_off :: u64
  ar_string_table_size :: u64
  ar_type_data_off :: u64
  ar_type_data_size :: u64

definition aelib_validate :: "string \<Rightarrow> bool" where
  "aelib_validate data \<longleftrightarrow>
     HEADER_SIZE \<le> length data \<and> take 8 data = AELIB_MAGIC \<and> le16 (drop 8 data) = 1 \<and>
     unat (le64 (drop 14 data)) \<le> length data \<and> unat (le64 (drop 30 data)) \<le> length data"

text \<open>The loop that adds up the sizes of the type data of the symbols from entry i on.\<close>

primrec sum_type_data :: "string \<Rightarrow> u64 \<Rightarrow> nat \<Rightarrow> nat \<Rightarrow> u64 \<Rightarrow> u64 option" where
  "sum_type_data data table i 0 acc = Some acc"
| "sum_type_data data table i (Suc k) acc =
     (case read_u32 data (unat (table + of_nat i * 18) + 14) of None \<Rightarrow> None
      | Some sz \<Rightarrow> sum_type_data data table (i + 1) k (acc + ucast sz))"

text \<open>The outer option is a read outside the file, the inner one NULL.\<close>

definition aelib_open :: "string \<Rightarrow> AelibReader option option" where
  "aelib_open data =
     (if \<not> aelib_validate data then Some None
      else let mo = le64 (drop 30 data); meta_size = le64 (drop 38 data) in
        case read_u32 data (unat mo + 10) of None \<Rightarrow> None
        | Some count \<Rightarrow>
            let table = mo + 14; n = sint count; td = table + of_int n * 18 in
            (case sum_type_data data table 0 (nat n) 0 of None \<Rightarrow> None
             | Some tds \<Rightarrow>
                 Some (Some \<lparr>ar_data = data, ar_code_offset = le64 (drop 14 data), ar_code_size = le64 (drop 22 data),
                   ar_meta_offset = mo, ar_meta_size = meta_size, ar_sym_count = n, ar_sym_table_off = table,
                   ar_string_table_off = td + tds, ar_string_table_size = mo + meta_size - (td + tds),
                   ar_type_data_off = td, ar_type_data_size = tds\<rparr>)))"

definition aelib_get_symbol_count :: "AelibReader option \<Rightarrow> int" where
  "aelib_get_symbol_count r = (case r of None \<Rightarrow> 0 | Some r \<Rightarrow> ar_sym_count r)"

text \<open>\<open>strcmp(p, s) == 0\<close> for bytes of the file that may end before a NUL.\<close>

fun strcmp_eq :: "string \<Rightarrow> string \<Rightarrow> bool option" where
  "strcmp_eq [] s = None"
| "strcmp_eq (c # p) [] = Some (c = NUL)"
| "strcmp_eq (c # p) (d # s) = (if c = d then strcmp_eq p s else Some False)"

record FoundSymbol =
  fs_name :: string
  fs_kind :: u8
  fs_flags :: u8
  fs_type_data_offset :: u32
  fs_type_data_size :: u32

text \<open>The search from entry i on: undefined, not found, or the entry.\<close>

primrec find_from :: "AelibReader \<Rightarrow> string \<Rightarrow> int \<Rightarrow> nat \<Rightarrow> nat \<Rightarrow> FoundSymbol option option" where
  "find_from r name kind i 0 = Some None"
| "find_from r name kind i (Suc k) =
     (let data = ar_data r; off = unat (ar_sym_table_off r + of_nat i * 18) in
      case bytes_at 18 data off of None \<Rightarrow> None
      | Some e \<Rightarrow>
          (case strcmp_eq (drop (unat (ar_meta_offset r) + unat (le32 e)) data) name of None \<Rightarrow> None
           | Some eq \<Rightarrow>
               if \<not> eq \<or> (kind \<ge> 0 \<and> uchar (e ! 4) \<noteq> (of_int kind :: u8)) then find_from r name kind (i + 1) k
               else Some (Some \<lparr>fs_name = name, fs_kind = uchar (e ! 4), fs_flags = uchar (e ! 5),
                      fs_type_data_offset = le32 (drop 10 e), fs_type_data_size = le32 (drop 14 e)\<rparr>)))"

definition aelib_find_symbol :: "AelibReader option \<Rightarrow> string \<Rightarrow> int \<Rightarrow> FoundSymbol option option" where
  "aelib_find_symbol r name kind =
     (case r of None \<Rightarrow> Some None | Some r \<Rightarrow> find_from r name kind 0 (nat (ar_sym_count r)))"

text \<open>The string at an offset of the string table; undefined when it has no end in the file.\<close>

definition aelib_get_string :: "AelibReader option \<Rightarrow> u32 \<Rightarrow> string option option" where
  "aelib_get_string r offset =
     (case r of None \<Rightarrow> Some None
      | Some r \<Rightarrow> if ucast offset \<ge> ar_string_table_size r then Some None
          else let p = drop (unat (ar_string_table_off r + ucast offset)) (ar_data r)
               in if NUL \<in> set p then Some (Some (takeWhile (\<lambda>c. c \<noteq> NUL) p)) else None)"

definition aelib_get_code_section :: "AelibReader option \<Rightarrow> nat \<times> u64" where
  "aelib_get_code_section r = (case r of None \<Rightarrow> (0, 0) | Some r \<Rightarrow> (unat (ar_code_offset r), ar_code_size r))"

text \<open>\<open>aelib_extract_object\<close>: -1, or 0 and the bytes written to the object file, which opens or not.\<close>

definition aelib_extract_object :: "bool \<Rightarrow> string \<Rightarrow> (int \<times> string) option" where
  "aelib_extract_object opens data =
     (case aelib_open data of None \<Rightarrow> None
      | Some None \<Rightarrow> Some (- 1, [])
      | Some (Some r) \<Rightarrow>
          (let (off, sz) = aelib_get_code_section (Some r) in
           if sz = 0 \<or> \<not> opens then Some (- 1, [])
           else map_option (Pair 0) (bytes_at (unat sz) data off)))"

end
