(* ===== verification/AelibTrip.thy ===== *)
theory AelibTrip
  imports Aelib
begin

text \<open>
  What the writer of an archive lays out, the reader finds: words, entries, the code section, and
  every symbol by its name.
\<close>

unbundle bit_operations_syntax

section \<open>Words\<close>

lemma length_put_word [simp]: "length (put_word n w) = n"
  by (simp add: put_word_def)

lemma put_word_nth: "i < n \<Longrightarrow> uchar (put_word n w ! i) = (ucast (take_bit 8 (drop_bit (8 * i) w)) :: 'b :: len word)"
proof -
  assume "i < n"
  moreover have "unat (take_bit 8 (drop_bit (8 * i) w)) < 256"
    using take_bit_nat_less_exp [of 8 "unat (drop_bit (8 * i) w)"] by (simp add: unsigned_take_bit_eq)
  ultimately show ?thesis by (simp add: put_word_def uchar_def)
qed

lemma le16_put_word: "le16 (put_word 2 w @ s) = w"
proof -
  have "w = take_bit 8 w OR push_bit 8 (take_bit 8 (drop_bit 8 w))" for w :: u16
    by (rule bit_word_eqI) (auto simp: bit_simps)
  then show ?thesis by (simp add: le16_def nth_append put_word_nth)
qed

lemma four_bytes:
  "take_bit 8 w OR push_bit 8 (take_bit 8 (drop_bit 8 w)) OR push_bit 16 (take_bit 8 (drop_bit 16 w)) OR
      push_bit 24 (take_bit 8 (drop_bit 24 w)) = (w :: u32)"
proof (rule bit_word_eqI)
  fix n assume "n < LENGTH(32)"
  then consider "n < 8" | "8 \<le> n" "n < 16" | "16 \<le> n" "n < 24" | "24 \<le> n" "n < 32" by force
  then show "bit (take_bit 8 w OR push_bit 8 (take_bit 8 (drop_bit 8 w)) OR push_bit 16 (take_bit 8 (drop_bit 16 w)) OR
      push_bit 24 (take_bit 8 (drop_bit 24 w))) n = bit w n"
    by cases (auto simp: bit_simps)
qed

lemma le32_put_word: "le32 (put_word 4 w @ s) = w"
  using four_bytes [of w] by (simp add: le32_def nth_append put_word_nth)

lemma byte_of_halves:
  fixes w :: u64
  shows "k + 8 \<le> 32 \<Longrightarrow> unat (take_bit 8 (drop_bit k (ucast w :: u32))) = unat (take_bit 8 (drop_bit k w))"
    "k + 8 \<le> 32 \<Longrightarrow> unat (take_bit 8 (drop_bit k (ucast (drop_bit 32 w) :: u32))) = unat (take_bit 8 (drop_bit (32 + k) w))"
  by (auto intro!: bit_eqI simp: unsigned_take_bit_eq unsigned_drop_bit_eq unsigned_ucast_eq bit_simps add.assoc)

lemma put_word_halves:
  fixes w :: u64
  shows "put_word 8 w = put_word 4 (ucast w :: u32) @ put_word 4 (ucast (drop_bit 32 w) :: u32)"
proof -
  have u: "[0..<8] = [0, 1, 2, 3, 4, 5, 6, 7]" "[0..<4] = [0, 1, 2, 3]" by (simp_all add: upt_rec)
  show ?thesis
    using byte_of_halves [of 0 w] byte_of_halves [of 8 w] byte_of_halves [of 16 w] byte_of_halves [of 24 w]
    by (simp add: put_word_def u)
qed

lemma le64_put_word: "le64 (put_word 8 w @ s) = w"
proof -
  have "ucast (ucast w :: u32) OR push_bit 32 (ucast (ucast (drop_bit 32 w) :: u32)) = w"
    by (rule bit_word_eqI) (auto simp: bit_simps)
  then show ?thesis by (simp add: le64_def put_word_halves le32_put_word)
qed

section \<open>The string table\<close>

lemma takeWhile_nul: "NUL \<notin> set p \<Longrightarrow> takeWhile (\<lambda>c. c \<noteq> NUL) (p @ NUL # rest) = p"
  by (subst takeWhile_append2) auto

text \<open>A table is a list of terminated strings; the search looks at the first and goes on.\<close>

lemma find_string_split:
  "NUL \<notin> set p \<Longrightarrow> find_string (p @ NUL # rest) s =
     (if p = s then Some 0 else map_option ((+) (length p + 1)) (find_string rest s))"
  using takeWhile_nul [of p rest] by (subst find_string.simps) (simp add: Let_def)

lemma find_string_Nil [simp]: "find_string [] s = None"
  by (subst find_string.simps) simp

lemma table_induct [consumes 2, case_names first]:
  assumes "tab \<noteq> []" "last tab = NUL"
    and first: "\<And>p rest. NUL \<notin> set p \<Longrightarrow> (rest \<noteq> [] \<Longrightarrow> last rest = NUL \<and> P rest) \<Longrightarrow> P (p @ NUL # rest)"
  shows "P tab"
  using assms(1,2)
proof (induction tab rule: length_induct)
  case (1 tab)
  have "NUL \<in> set tab" using last_in_set [OF "1.prems"(1)] "1.prems"(2) by simp
  then obtain p rest where r: "tab = p @ NUL # rest" "NUL \<notin> set p" using split_list_first by metis
  show ?case
    unfolding r(1) by (rule first [OF r(2)]) (use 1 r(1) in \<open>simp add: last_append\<close>)
qed

lemma find_string_at:
  assumes "tab \<noteq> []" "last tab = NUL"
  shows "find_string tab s = Some k \<Longrightarrow> \<exists>rest. drop k tab = s @ NUL # rest"
  using assms
proof (induction tab arbitrary: k rule: table_induct)
  case (first p rest)
  show ?case
  proof (cases "p = s")
    case False
    then obtain k' where k: "find_string rest s = Some k'" "k = length p + 1 + k'"
      using first.prems by (auto simp: find_string_split [OF first.hyps(1)])
    then show ?thesis using first.IH by (cases "rest = []") auto
  next
    case True
    have "k = 0" using first.prems True unfolding find_string_split [OF first.hyps(1)] by simp
    then show ?thesis using True by simp
  qed
qed

lemma strcmp_eq_terminated: "NUL \<notin> set p \<Longrightarrow> NUL \<notin> set s \<Longrightarrow> strcmp_eq (p @ NUL # rest) s = Some (p = s)"
proof (induction p arbitrary: s)
  case Nil
  then show ?case by (cases s) auto
next
  case (Cons c p)
  then show ?case by (cases s) auto
qed

section \<open>Entries\<close>

lemma length_put_entry [simp]: "length (put_entry a b c d e f) = 18"
  by (simp add: put_entry_def)

lemma length_put_entries [simp]: "length (put_entries tab so td es) = 18 * length es"
  by (induction es arbitrary: td) (simp_all add: Let_def)

lemma take_bit_u8 [simp]: "take_bit 8 (b :: u8) = b"
  by (rule bit_word_eqI) (auto simp: bit_simps)

lemma entry_fields:
  "le32 (put_entry a b c d e f) = a" "uchar (put_entry a b c d e f ! 4) = b" "uchar (put_entry a b c d e f ! 5) = c"
  "le32 (drop 10 (put_entry a b c d e f)) = e" "le32 (drop 14 (put_entry a b c d e f)) = f"
  using le32_put_word [of a] le32_put_word [of e] le32_put_word [of f "[]"] put_word_nth [of 0 1 b, where 'b = 8]
    put_word_nth [of 0 1 c, where 'b = 8]
  by (simp_all add: put_entry_def nth_append)

lemma unat_entry: "T + 18 * i < 2 ^ 64 \<Longrightarrow> unat ((of_nat T :: u64) + of_nat i * 18) = T + 18 * i"
proof -
  assume "T + 18 * i < 2 ^ 64"
  moreover have "(of_nat T :: u64) + of_nat i * 18 = of_nat (T + 18 * i)" by simp
  ultimately show ?thesis by (simp only: unat_of_nat) simp
qed

lemma read_u32_at: "drop off data = put_word 4 w @ s \<Longrightarrow> read_u32 data off = Some w"
proof -
  assume a: "drop off data = put_word 4 w @ s"
  then have "length (drop off data) \<ge> 4" by simp
  then have "off + 4 \<le> length data" by simp
  then show ?thesis using a le32_put_word [of w "[]"] by (simp add: read_u32_def bytes_at_def)
qed

lemma sum_type_data_entries:
  "drop (T + 18 * i) data = put_entries tab so td es @ X \<Longrightarrow> T + 18 * (i + length es) < 2 ^ 64 \<Longrightarrow>
   list_all (\<lambda>e. length (sym_type_data e) < 2 ^ 32) es \<Longrightarrow>
   sum_type_data data (of_nat T) i (length es) acc = Some (acc + of_nat (length (type_data_of es)))"
proof (induction es arbitrary: i td acc)
  case (Cons e es)
  obtain a b c d f where h: "put_entries tab so td (e # es) =
      put_entry a b c d f (of_nat (length (sym_type_data e))) @ put_entries tab so (td + of_nat (length (sym_type_data e))) es"
    by (simp add: Let_def)
  have u: "unat ((of_nat T :: u64) + of_nat i * 18) = T + 18 * i" by (rule unat_entry) (use Cons.prems(2) in simp)
  have "drop 14 (drop (T + 18 * i) data) = put_word 4 (of_nat (length (sym_type_data e)) :: u32) @
      put_entries tab so (td + of_nat (length (sym_type_data e))) es @ X"
    unfolding Cons.prems(1) h by (simp add: put_entry_def)
  then have r: "read_u32 data (T + 18 * i + 14) = Some (of_nat (length (sym_type_data e)))"
    by (intro read_u32_at) (simp add: add.commute)
  have n: "drop (T + 18 * Suc i) data = put_entries tab so (td + of_nat (length (sym_type_data e))) es @ X"
  proof -
    have "drop 18 (drop (T + 18 * i) data) = put_entries tab so (td + of_nat (length (sym_type_data e))) es @ X"
      unfolding Cons.prems(1) h by simp
    then show ?thesis by (simp add: add.commute add.left_commute)
  qed
  have v: "(ucast (of_nat (length (sym_type_data e)) :: u32) :: u64) = of_nat (length (sym_type_data e))"
    using Cons.prems(3) by (intro word_unat_eq_iff [THEN iffD2]) (simp add: unat_of_nat unsigned_ucast_eq take_bit_nat_eq_self)
  have "sum_type_data data (of_nat T) (Suc i) (length es) (acc + of_nat (length (sym_type_data e)))
      = Some (acc + of_nat (length (sym_type_data e)) + of_nat (length (type_data_of es)))"
    by (rule Cons.IH [OF n]) (use Cons.prems(2,3) in simp_all)
  then show ?case using u r v by (simp add: type_data_of_def algebra_simps)
qed (simp add: type_data_of_def)

section \<open>Finding a symbol\<close>

text \<open>What the search answers for the entry of a symbol.\<close>

definition found :: "string \<Rightarrow> nat \<Rightarrow> SymEntry \<Rightarrow> FoundSymbol \<Rightarrow> bool" where
  "found data mo e fs \<longleftrightarrow> fs_name fs = sym_name e \<and> fs_kind fs = sym_kind e \<and> fs_flags fs = sym_flags e \<and>
     bytes_at (unat (fs_type_data_size fs)) data (mo + unat (fs_type_data_offset fs)) = Some (sym_type_data e)"

definition sym_ok :: "string \<Rightarrow> SymEntry \<Rightarrow> bool" where
  "sym_ok tab e \<longleftrightarrow> find_string tab (sym_name e) \<noteq> None \<and> NUL \<notin> set (sym_name e)"

lemma bytes_atI: "drop off data = s @ rest \<Longrightarrow> off \<le> length data \<Longrightarrow> n = length s \<Longrightarrow> bytes_at n data off = Some s"
proof -
  assume a: "drop off data = s @ rest" "off \<le> length data" "n = length s"
  have "length (drop off data) = length s + length rest" using a(1) by simp
  then have "off + n \<le> length data" using a(2,3) by simp
  then show ?thesis using a by (simp add: bytes_at_def)
qed

lemma unat_u32: "n < 2 ^ 32 \<Longrightarrow> unat (of_nat n :: u32) = n"
  by (simp add: unat_of_nat take_bit_nat_eq_self)

lemma find_from_entries:
  assumes r: "ar_data r = data" "ar_sym_table_off r = of_nat T" "unat (ar_meta_offset r) = M"
    and tab: "drop (M + S) data = tab" "tab \<noteq> []" "last tab = NUL" "S + length tab < 2 ^ 32"
    and name: "NUL \<notin> set name"
  shows "drop (T + 18 * i) data = put_entries tab (of_nat S) (of_nat D) es @ X \<Longrightarrow>
    T + 18 * (i + length es) < 2 ^ 64 \<Longrightarrow> list_all (sym_ok tab) es \<Longrightarrow>
    drop (M + D) data = type_data_of es @ Y \<Longrightarrow> M + D \<le> length data \<Longrightarrow> D + length (type_data_of es) < 2 ^ 32 \<Longrightarrow>
    case List.find (\<lambda>e. sym_name e = name) es of
      None \<Rightarrow> find_from r name (- 1) i (length es) = Some None
    | Some e \<Rightarrow> \<exists>fs. find_from r name (- 1) i (length es) = Some (Some fs) \<and> found data M e fs"
proof (induction es arbitrary: i D)
  case (Cons e es)
  let ?n = "length (sym_type_data e)"
  obtain k where k: "find_string tab (sym_name e) = Some k" "NUL \<notin> set (sym_name e)"
    using Cons.prems(3) by (auto simp: sym_ok_def)
  obtain rest where rest: "drop k tab = sym_name e @ NUL # rest" using find_string_at [OF tab(2,3) k(1)] by blast
  obtain d where h: "put_entries tab (of_nat S) (of_nat D) (e # es) =
      put_entry (of_nat S + of_nat k) (sym_kind e) (sym_flags e) d (of_nat D) (of_nat ?n) @
      put_entries tab (of_nat S) (of_nat (D + ?n)) es"
    using k(1) by (simp add: Let_def)
  let ?e = "put_entry (of_nat S + of_nat k) (sym_kind e) (sym_flags e) d (of_nat D) (of_nat ?n)"
  have "k < length tab" using rest by (metis drop_eq_Nil2 append_is_Nil_conv list.distinct(1) not_le)
  then have kb: "S + k < 2 ^ 32" using tab(4) by simp
  have "of_nat S + of_nat k = (of_nat (S + k) :: u32)" by simp
  then have ks: "unat (of_nat S + of_nat k :: u32) = S + k" by (simp only: unat_u32 [OF kb])
  have u: "unat ((of_nat T :: u64) + of_nat i * 18) = T + 18 * i" by (rule unat_entry) (use Cons.prems(2) in simp)
  have len: "T + 18 * i \<le> length data"
  proof (rule ccontr)
    assume "\<not> T + 18 * i \<le> length data"
    then have "drop (T + 18 * i) data = []" by simp
    then show False using Cons.prems(1) h by (auto simp: put_entry_def put_word_def)
  qed
  have b: "bytes_at 18 data (T + 18 * i) = Some ?e"
    by (rule bytes_atI [OF _ len]) (use Cons.prems(1) h in simp_all)
  have "drop (M + (S + k)) data = drop k (drop (M + S) data)" by (simp add: add.commute add.left_commute)
  then have s: "drop (M + (S + k)) data = sym_name e @ NUL # rest" unfolding tab(1) rest .
  have c: "strcmp_eq (drop (M + unat (le32 ?e)) data) name = Some (sym_name e = name)"
    unfolding entry_fields ks s by (rule strcmp_eq_terminated [OF k(2) name])
  have step: "find_from r name (- 1) i (length (e # es)) =
      (if sym_name e = name then Some (Some \<lparr>fs_name = name, fs_kind = sym_kind e, fs_flags = sym_flags e,
           fs_type_data_offset = of_nat D, fs_type_data_size = of_nat ?n\<rparr>)
       else find_from r name (- 1) (i + 1) (length es))"
    using b c r u by (simp add: Let_def entry_fields)
  show ?case
  proof (cases "sym_name e = name")
    case True
    have "D < 2 ^ 32" "?n < 2 ^ 32" using Cons.prems(6) by (simp_all add: type_data_of_def)
    moreover have "bytes_at ?n data (M + D) = Some (sym_type_data e)"
      by (rule bytes_atI [OF _ Cons.prems(5)]) (use Cons.prems(4) in \<open>simp_all add: type_data_of_def\<close>)
    ultimately show ?thesis using step True by (simp add: found_def unat_u32)
  next
    case False
    have "drop 18 (drop (T + 18 * i) data) = put_entries tab (of_nat S) (of_nat (D + ?n)) es @ X"
      unfolding Cons.prems(1) h by simp
    then have a: "drop (T + 18 * (i + 1)) data = put_entries tab (of_nat S) (of_nat (D + ?n)) es @ X"
      by (simp add: add.commute add.left_commute)
    have "drop ?n (drop (M + D) data) = type_data_of es @ Y" unfolding Cons.prems(4) by (simp add: type_data_of_def)
    then have y: "drop (M + (D + ?n)) data = type_data_of es @ Y" by (simp add: ac_simps)
    have z: "M + (D + ?n) \<le> length data"
    proof -
      have "length (drop (M + D) data) \<ge> ?n" unfolding Cons.prems(4) by (simp add: type_data_of_def)
      then show ?thesis using Cons.prems(5) by simp
    qed
    have "case List.find (\<lambda>e. sym_name e = name) es of
        None \<Rightarrow> find_from r name (- 1) (i + 1) (length es) = Some None
      | Some e \<Rightarrow> \<exists>fs. find_from r name (- 1) (i + 1) (length es) = Some (Some fs) \<and> found data M e fs"
      by (rule Cons.IH [OF a _ _ y z]) (use Cons.prems in \<open>simp_all add: type_data_of_def\<close>)
    then show ?thesis using step False by (auto split: option.splits)
  qed
qed simp

section \<open>The invariant of the writer\<close>

definition writer_ok :: "AelibWriter \<Rightarrow> bool" where
  "writer_ok w \<longleftrightarrow> aw_strings w \<noteq> [] \<and> hd (aw_strings w) = NUL \<and> last (aw_strings w) = NUL \<and>
     list_all (sym_ok (aw_strings w)) (aw_symbols w) \<and>
     length (aw_strings w) \<le> aw_strings_cap w \<and> length (aw_symbols w) \<le> aw_sym_cap w \<and> 0 < aw_sym_cap w"

lemma find_string_append:
  assumes "tab \<noteq> []" "last tab = NUL"
  shows "find_string tab s = Some k \<Longrightarrow> find_string (tab @ t) s = Some k"
  using assms
proof (induction tab arbitrary: k rule: table_induct)
  case (first p rest)
  then show ?case
    by (cases "rest = []") (auto simp: find_string_split [OF first.hyps(1)] split: if_splits)
qed

lemma find_string_added:
  assumes "tab \<noteq> []" "last tab = NUL" "NUL \<notin> set s"
  shows "find_string (tab @ s @ [NUL]) s \<noteq> None"
  using assms(1,2)
proof (induction tab rule: table_induct)
  case (first p rest)
  have "find_string (s @ [NUL]) s \<noteq> None" using find_string_split [OF assms(3), of "[]" s] by simp
  then show ?case
    using first.IH by (cases "rest = []") (auto simp: find_string_split [OF first.hyps(1)])
qed

text \<open>Every operation of the writer keeps the invariant, when memory is granted and names hold no NUL.\<close>

lemma cap_grow_enough: "0 < cap \<Longrightarrow> needed \<le> cap_grow needed cap"
  by (induction needed cap rule: cap_grow.induct) (simp add: cap_grow.simps)

lemma sym_ok_append:
  "tab \<noteq> [] \<Longrightarrow> last tab = NUL \<Longrightarrow> list_all (sym_ok tab) es \<Longrightarrow> list_all (sym_ok (tab @ t)) es"
  using find_string_append by (fastforce simp: sym_ok_def list_all_iff)

lemma string_table_add_ok:
  assumes "writer_ok w"
  shows "writer_ok (snd (string_table_add granted w s))"
    "aw_symbols (snd (string_table_add granted w s)) = aw_symbols w"
    "aw_sym_cap (snd (string_table_add granted w s)) = aw_sym_cap w"
    "\<exists>t. aw_strings (snd (string_table_add granted w s)) = aw_strings w @ t"
  using assms sym_ok_append [of "aw_strings w" "aw_symbols w" "s @ [NUL]"]
    cap_grow_enough [of 256] cap_grow_enough [of "aw_strings_cap w * 2"]
  by (auto simp: string_table_add_def writer_ok_def Let_def)

lemma string_table_add_finds:
  assumes "writer_ok w" "NUL \<notin> set s"
  shows "find_string (aw_strings (snd (string_table_add (\<lambda>n. True) w s))) s \<noteq> None"
proof (cases "s = []")
  case True
  obtain rest where "aw_strings w = [] @ NUL # rest"
    using assms(1) by (cases "aw_strings w") (simp_all add: writer_ok_def)
  then have "find_string (aw_strings w) [] = Some 0" using find_string_split [of "[]" rest "[]"] by simp
  then show ?thesis using True by (simp add: string_table_add_def)
next
  case False
  then show ?thesis
    using find_string_added [of "aw_strings w" s] assms by (simp add: string_table_add_def writer_ok_def Let_def)
qed

text \<open>C17: the invariant of the writer holds from the start and every operation keeps it: the string
  table begins with the empty string and is terminated, it holds the name of every symbol, and no
  array is fuller than its capacity.  An add answers the index of the symbol it appended.\<close>
theorem aelib_writer_invariant:
  assumes "writer_ok w" "NUL \<notin> set name"
  shows "(case aelib_add_symbol (\<lambda>n. True) w name kind is_pub ns td of (i, w') \<Rightarrow>
      writer_ok w' \<and> i = int (length (aw_symbols w)) \<and>
      (\<exists>e. aw_symbols w' = aw_symbols w @ [e] \<and> sym_name e = name \<and> sym_type_data e = td)) \<and>
    writer_ok (aelib_set_code w code) \<and>
    (\<exists>w0. aelib_create (\<lambda>n. True) = Some w0 \<and> writer_ok w0)"
proof (intro conjI)
  define w1 where "w1 = (if length (aw_symbols w) \<ge> aw_sym_cap w then w\<lparr>aw_sym_cap := aw_sym_cap w * 2\<rparr> else w)"
  have w1: "writer_ok w1" "aw_symbols w1 = aw_symbols w" "length (aw_symbols w) < aw_sym_cap w1"
    using assms(1) by (auto simp: writer_ok_def w1_def)
  define w2 where "w2 = snd (string_table_add (\<lambda>n. True) w1 name)"
  have w2: "writer_ok w2" "aw_symbols w2 = aw_symbols w" "aw_sym_cap w2 = aw_sym_cap w1"
    using string_table_add_ok [OF w1(1)] w1(2) by (simp_all add: w2_def)
  define w3 where "w3 = (case map_option (take 64) ns of None \<Rightarrow> w2 | Some n \<Rightarrow> snd (string_table_add (\<lambda>n. True) w2 n))"
  have w3: "writer_ok w3" "aw_symbols w3 = aw_symbols w" "aw_sym_cap w3 = aw_sym_cap w1"
    "\<exists>t. aw_strings w3 = aw_strings w2 @ t"
    using string_table_add_ok [OF w2(1)] w2 by (auto simp: w3_def split: option.splits)
  obtain k where k: "find_string (aw_strings w2) name = Some k"
    using string_table_add_finds [OF w1(1) assms(2)] by (auto simp: w2_def)
  obtain t where t: "aw_strings w3 = aw_strings w2 @ t" using w3(4) by blast
  have f: "find_string (aw_strings w3) name = Some k"
    unfolding t by (rule find_string_append [OF _ _ k]) (use w2(1) in \<open>simp_all add: writer_ok_def\<close>)
  have a: "aelib_add_symbol (\<lambda>n. True) w name kind is_pub ns td = (int (length (aw_symbols w)),
      w3\<lparr>aw_symbols := aw_symbols w @ [\<lparr>sym_name = name, sym_kind = kind, sym_flags = (if is_pub then AELIB_FLAG_PUBLIC else 0),
        sym_ns = map_option (take 64) ns, sym_type_data = td\<rparr>]\<rparr>)"
    unfolding aelib_add_symbol_def w3_def w2_def w1_def by (simp add: Let_def)
  show "case aelib_add_symbol (\<lambda>n. True) w name kind is_pub ns td of (i, w') \<Rightarrow>
      writer_ok w' \<and> i = int (length (aw_symbols w)) \<and>
      (\<exists>e. aw_symbols w' = aw_symbols w @ [e] \<and> sym_name e = name \<and> sym_type_data e = td)"
    using w3(1,2,3) w1(3) assms(2) f unfolding a by (simp add: writer_ok_def sym_ok_def)
  show "writer_ok (aelib_set_code w code)" using assms(1) by (simp add: aelib_set_code_def writer_ok_def)
  show "\<exists>w0. aelib_create (\<lambda>n. True) = Some w0 \<and> writer_ok w0"
    by (simp add: aelib_create_def writer_ok_def)
qed

section \<open>The archive\<close>

lemma length_put_header [simp]: "length (put_header a b c d) = 46"
  by (simp add: put_header_def AELIB_MAGIC_def)

lemma header_fields:
  "take 8 (put_header a b c d @ s) = AELIB_MAGIC" "le16 (drop 8 (put_header a b c d @ s)) = 1"
  "le64 (drop 14 (put_header a b c d @ s)) = a" "le64 (drop 22 (put_header a b c d @ s)) = b"
  "le64 (drop 30 (put_header a b c d @ s)) = c" "le64 (drop 38 (put_header a b c d @ s)) = d"
  by (simp_all add: put_header_def AELIB_MAGIC_def le16_put_word le64_put_word)

definition meta_off :: "AelibWriter \<Rightarrow> nat" where
  "meta_off w = HEADER_SIZE + length (aw_code w)"

text \<open>Sizes the 32-bit offsets of the metadata and the \<open>int\<close> count of symbols can hold.\<close>

definition writer_fits :: "AelibWriter \<Rightarrow> bool" where
  "writer_fits w \<longleftrightarrow> length (put_meta w) < 2 ^ 32 \<and> meta_off w + length (put_meta w) < 2 ^ 63"

lemma length_put_meta:
  "length (put_meta w) = 14 + 18 * length (aw_symbols w) + length (type_data_of (aw_symbols w)) + length (aw_strings w)"
  by (simp add: put_meta_def AEMETA_MAGIC_def Let_def)

lemma archive_layout:
  assumes "writer_fits w"
  defines "file \<equiv> snd (aelib_write (\<lambda>n. True) True w)" and "es \<equiv> aw_symbols w" and "n \<equiv> length (aw_symbols w)"
  defines "D \<equiv> 14 + 18 * n" and "M \<equiv> meta_off w"
  defines "S \<equiv> D + length (type_data_of es)"
  shows "length file = M + length (put_meta w)"
    "drop 46 file = aw_code w @ put_meta w"
    "aelib_validate file"
    "le64 (drop 14 file) = 46" "le64 (drop 22 file) = of_nat (length (aw_code w))"
    "le64 (drop 30 file) = of_nat M" "le64 (drop 38 file) = of_nat (length (put_meta w))"
    "drop (M + 10) file = put_word 4 (of_nat n :: u32) @ put_entries (aw_strings w) (of_nat S) (of_nat D) es @
       type_data_of es @ aw_strings w"
    "drop (M + 14) file = put_entries (aw_strings w) (of_nat S) (of_nat D) es @ type_data_of es @ aw_strings w"
    "drop (M + D) file = type_data_of es @ aw_strings w"
    "drop (M + S) file = aw_strings w"
proof -
  have f: "file = put_header 46 (of_nat (length (aw_code w))) (of_nat M) (of_nat (length (put_meta w))) @ aw_code w @ put_meta w"
    by (simp add: file_def aelib_write_def Let_def HEADER_SIZE_def M_def meta_off_def)
  have m: "put_meta w = AEMETA_MAGIC @ put_word 2 (1 :: u16) @ put_word 4 (of_nat n :: u32) @
      put_entries (aw_strings w) (of_nat S) (of_nat D) es @ type_data_of es @ aw_strings w"
    by (simp add: put_meta_def Let_def META_HEADER_SIZE_def SYM_ENTRY_SIZE_def S_def D_def es_def n_def mult.commute)
  have M: "M = 46 + length (aw_code w)" by (simp add: M_def meta_off_def HEADER_SIZE_def)
  show len: "length file = M + length (put_meta w)" unfolding f M by simp
  show d: "drop 46 file = aw_code w @ put_meta w" unfolding f by simp
  show h: "le64 (drop 14 file) = 46" "le64 (drop 22 file) = of_nat (length (aw_code w))"
    "le64 (drop 30 file) = of_nat M" "le64 (drop 38 file) = of_nat (length (put_meta w))"
    unfolding f by (simp_all only: header_fields)
  have "unat (of_nat M :: u64) = M"
    using assms(1) by (simp add: writer_fits_def M_def unat_of_nat take_bit_nat_eq_self)
  then show "aelib_validate file"
    unfolding aelib_validate_def h len using f header_fields(1,2) by (simp add: HEADER_SIZE_def M)
  have dm: "drop (M + k) file = drop k (put_meta w)" for k
  proof -
    have "drop (M + k) file = drop (length (aw_code w) + k) (drop 46 file)" unfolding M by (simp add: ac_simps)
    then show ?thesis unfolding d by simp
  qed
  have l: "length (put_entries (aw_strings w) (of_nat S) (of_nat D) es) = 18 * n" by (simp add: es_def n_def)
  show "drop (M + 10) file = put_word 4 (of_nat n :: u32) @ put_entries (aw_strings w) (of_nat S) (of_nat D) es @
       type_data_of es @ aw_strings w"
    unfolding dm m by (simp add: AEMETA_MAGIC_def)
  show "drop (M + 14) file = put_entries (aw_strings w) (of_nat S) (of_nat D) es @ type_data_of es @ aw_strings w"
    unfolding dm m by (simp add: AEMETA_MAGIC_def)
  let ?h = "AEMETA_MAGIC @ put_word 2 (1 :: u16) @ put_word 4 (of_nat n :: u32) @
    put_entries (aw_strings w) (of_nat S) (of_nat D) es"
  have lh: "length ?h = D" using l by (simp add: AEMETA_MAGIC_def D_def)
  have m': "put_meta w = ?h @ type_data_of es @ aw_strings w" using m by simp
  show "drop (M + D) file = type_data_of es @ aw_strings w"
    unfolding dm m' using lh by (metis append_eq_conv_conj)
  have "length (?h @ type_data_of es) = S" using lh by (simp add: S_def)
  then show "drop (M + S) file = aw_strings w"
    unfolding dm m' by (metis append.assoc append_eq_conv_conj)
qed

text \<open>C4: an archive written to disk is read back: it opens, it has the symbols that were added, the code
  section is the code, and a symbol is found by its name, in the order of adding, with its kind, its
  flags and exactly its type data.\<close>
theorem aelib_round_trip:
  assumes "writer_ok w" "writer_fits w" "aelib_write (\<lambda>n. True) True w = (0, file)" "NUL \<notin> set name"
  shows "\<exists>r. aelib_open file = Some (Some r) \<and>
    aelib_get_symbol_count (Some r) = int (length (aw_symbols w)) \<and>
    (case aelib_get_code_section (Some r) of (off, sz) \<Rightarrow> bytes_at (unat sz) file off = Some (aw_code w)) \<and>
    (case List.find (\<lambda>e. sym_name e = name) (aw_symbols w) of
       None \<Rightarrow> aelib_find_symbol (Some r) name (- 1) = Some None
     | Some e \<Rightarrow> \<exists>fs. aelib_find_symbol (Some r) name (- 1) = Some (Some fs) \<and> found file (meta_off w) e fs)"
proof -
  have fl: "snd (aelib_write (\<lambda>n. True) True w) = file" using assms(3) by simp
  note lay = archive_layout [OF assms(2), unfolded fl]
  let ?es = "aw_symbols w" and ?n = "length (aw_symbols w)" and ?M = "meta_off w"
  let ?D = "14 + 18 * ?n"
  let ?S = "?D + length (type_data_of ?es)"
  have b: "length (put_meta w) < 2 ^ 32" "?M + length (put_meta w) < 2 ^ 63" using assms(2) by (simp_all add: writer_fits_def)
  have n: "?n < 2 ^ 31" using b(1) by (simp add: length_put_meta)
  have cnt: "sint (of_nat ?n :: u32) = int ?n" using n by (simp add: signed_of_nat signed_take_bit_int_eq_self)
  have um: "unat (of_nat ?M :: u64) = ?M" using b(2) by (simp add: unat_of_nat take_bit_nat_eq_self)
  have ro: "read_u32 file (?M + 10) = Some (of_nat ?n)" by (rule read_u32_at [OF lay(8)])
  have T: "(of_nat ?M :: u64) + 14 = of_nat (?M + 14)" by simp
  have tb: "?M + 14 + 18 * ?n < 2 ^ 64" using b(2) by (simp add: length_put_meta)
  have small: "list_all (\<lambda>e. length (sym_type_data e) < 2 ^ 32) ?es"
  proof -
    have "length (sym_type_data e) \<le> length (type_data_of ?es)" if "e \<in> set ?es" for e
      using that by (auto simp: type_data_of_def length_concat intro!: member_le_sum_list)
    then show ?thesis using b(1) by (fastforce simp: list_all_iff length_put_meta)
  qed
  have dt: "drop (?M + 14 + 18 * 0) file = put_entries (aw_strings w) (of_nat ?S) (of_nat ?D) ?es @
      type_data_of ?es @ aw_strings w" using lay(9) by simp
  have sum: "sum_type_data file (of_nat (?M + 14)) 0 ?n 0 = Some (of_nat (length (type_data_of ?es)))"
    using sum_type_data_entries [OF dt _ small, of 0] tb by simp
  define r where "r = \<lparr>ar_data = file, ar_code_offset = 46, ar_code_size = of_nat (length (aw_code w)),
    ar_meta_offset = of_nat ?M, ar_meta_size = of_nat (length (put_meta w)), ar_sym_count = int ?n,
    ar_sym_table_off = of_nat (?M + 14),
    ar_string_table_off = of_nat (?M + 14) + of_int (int ?n) * 18 + of_nat (length (type_data_of ?es)),
    ar_string_table_size = of_nat ?M + of_nat (length (put_meta w)) -
      (of_nat (?M + 14) + of_int (int ?n) * 18 + of_nat (length (type_data_of ?es))),
    ar_type_data_off = of_nat (?M + 14) + of_int (int ?n) * 18, ar_type_data_size = of_nat (length (type_data_of ?es))\<rparr>"
  have op: "aelib_open file = Some (Some r)"
    unfolding aelib_open_def Let_def lay(4,5,6,7) um ro T cnt option.case nat_int sum r_def using lay(3) by simp
  have code: "bytes_at (length (aw_code w)) file 46 = Some (aw_code w)"
    by (rule bytes_atI [OF lay(2)]) (use lay(1) in \<open>simp_all add: meta_off_def HEADER_SIZE_def\<close>)
  have uc: "unat (of_nat (length (aw_code w)) :: u64) = length (aw_code w)"
    using b(2) by (simp add: unat_of_nat take_bit_nat_eq_self meta_off_def)
  have "case List.find (\<lambda>e. sym_name e = name) ?es of
      None \<Rightarrow> find_from r name (- 1) 0 (length ?es) = Some None
    | Some e \<Rightarrow> \<exists>fs. find_from r name (- 1) 0 (length ?es) = Some (Some fs) \<and> found file ?M e fs"
  proof (rule find_from_entries [OF _ _ _ lay(11) _ _ _ assms(4) dt])
    show "ar_data r = file" "ar_sym_table_off r = of_nat (?M + 14)" "unat (ar_meta_offset r) = ?M"
      using um by (simp_all add: r_def)
    show "aw_strings w \<noteq> []" "last (aw_strings w) = NUL" "list_all (sym_ok (aw_strings w)) ?es"
      using assms(1) by (simp_all add: writer_ok_def)
    show "?S + length (aw_strings w) < 2 ^ 32" "?D + length (type_data_of ?es) < 2 ^ 32"
      using b(1) by (simp_all add: length_put_meta)
    show "?M + 14 + 18 * (0 + length ?es) < 2 ^ 64" using tb by simp
    show "drop (?M + ?D) file = type_data_of ?es @ aw_strings w" by (rule lay(10))
    show "?M + ?D \<le> length file" using lay(1) by (simp add: length_put_meta)
  qed
  then show ?thesis
    using op code uc
    by (intro exI [of _ r] conjI) (simp_all add: aelib_get_symbol_count_def aelib_get_code_section_def
        aelib_find_symbol_def r_def split: option.splits)
qed

definition sample_writer :: AelibWriter where
  "sample_writer =
     (let w1 = aelib_set_code (the (aelib_create (\<lambda>n. True))) ''code'';
          w2 = snd (aelib_add_symbol (\<lambda>n. True) w1 ''f'' 0 True None ''ab'')
      in snd (aelib_add_symbol (\<lambda>n. True) w2 ''g'' 3 False (Some ''ns'') ''xyz''))"

theorem aelib_writer_invariant_witness:
  "writer_ok (snd (aelib_add_symbol (\<lambda>n. True) sample_writer ''h'' 0 True None []))"
proof -
  have "writer_ok sample_writer" by code_simp
  then show ?thesis
    using aelib_writer_invariant [where w = sample_writer and name = "''h''" and kind = 0 and is_pub = True
        and ns = None and td = "[]"]
    by (simp add: case_prod_beta)
qed

theorem aelib_round_trip_witness:
  "\<exists>r fs. aelib_open (snd (aelib_write (\<lambda>n. True) True sample_writer)) = Some (Some r) \<and>
     aelib_get_symbol_count (Some r) = 2 \<and> aelib_find_symbol (Some r) ''g'' (- 1) = Some (Some fs) \<and>
     bytes_at (unat (fs_type_data_size fs)) (snd (aelib_write (\<lambda>n. True) True sample_writer))
       (meta_off sample_writer + unat (fs_type_data_offset fs)) = Some ''xyz''"
proof -
  let ?f = "snd (aelib_write (\<lambda>n. True) True sample_writer)"
  have l: "length (put_meta sample_writer) = 63" "meta_off sample_writer = 50" by code_simp+
  have h1: "writer_ok sample_writer" by code_simp
  have h2: "writer_fits sample_writer" using l by (simp add: writer_fits_def)
  have w: "aelib_write (\<lambda>n. True) True sample_writer = (0, ?f)" by (simp add: aelib_write_def Let_def)
  have n: "NUL \<notin> set ''g''" by simp
  obtain e where e: "List.find (\<lambda>e. sym_name e = ''g'') (aw_symbols sample_writer) = Some e" "sym_type_data e = ''xyz''"
  proof
    show "List.find (\<lambda>e. sym_name e = ''g'') (aw_symbols sample_writer) = Some (aw_symbols sample_writer ! 1)" by code_simp
    show "sym_type_data (aw_symbols sample_writer ! 1) = ''xyz''" by code_simp
  qed
  have "length (aw_symbols sample_writer) = 2" by code_simp
  then show ?thesis using aelib_round_trip [OF h1 h2 w n] e by (auto simp: found_def)
qed

section \<open>What the reader does not check\<close>

text \<open>C30: a file passes validation and is read outside its bytes, when its metadata section starts less than
  14 bytes before its end: nothing compares the sizes in the header with the size of the file.\<close>
theorem aelib_open_reads_outside:
  assumes "aelib_validate data" "length data < unat (le64 (drop 30 data)) + 14"
  shows "aelib_open data = None"
  using assms by (simp add: aelib_open_def Let_def read_u32_def bytes_at_def)

theorem aelib_open_reads_outside_witness: "aelib_open (put_header 46 0 46 0) = None"
  by (rule aelib_open_reads_outside) code_simp+

end
